(* ===== verification/Strings.thy ===== *)
theory Strings
  imports Prelude
begin

text \<open>
  The \<open>str\<close> operations of Rust's standard library the sources call, on UTF-8 bytes:
  ASCII classification, \<open>trim\<close> and \<open>split_whitespace\<close> over Unicode White_Space, UTF-8
  validation (\<open>from_utf8\<close>, \<open>CStr::to_str\<close>) and decimal and hexadecimal numerals.
\<close>

section \<open>ASCII\<close>

definition byte :: "char \<Rightarrow> nat" where
  "byte c = of_char c"

definition is_ascii_digit :: "char \<Rightarrow> bool" where
  "is_ascii_digit c \<longleftrightarrow> 48 \<le> byte c \<and> byte c \<le> 57"

definition is_ascii_upper :: "char \<Rightarrow> bool" where
  "is_ascii_upper c \<longleftrightarrow> 65 \<le> byte c \<and> byte c \<le> 90"

definition is_ascii_lower :: "char \<Rightarrow> bool" where
  "is_ascii_lower c \<longleftrightarrow> 97 \<le> byte c \<and> byte c \<le> 122"

definition is_ascii_alphanumeric :: "char \<Rightarrow> bool" where
  "is_ascii_alphanumeric c \<longleftrightarrow> is_ascii_digit c \<or> is_ascii_upper c \<or> is_ascii_lower c"

definition is_ascii_hexdigit :: "char \<Rightarrow> bool" where
  "is_ascii_hexdigit c \<longleftrightarrow> is_ascii_digit c \<or> (65 \<le> byte c \<and> byte c \<le> 70)
     \<or> (97 \<le> byte c \<and> byte c \<le> 102)"

definition to_ascii_lower_char :: "char \<Rightarrow> char" where
  "to_ascii_lower_char c = (if is_ascii_upper c then char_of (byte c + 32) else c)"

definition to_ascii_lowercase :: "string \<Rightarrow> string" where
  "to_ascii_lowercase s = map to_ascii_lower_char s"

definition eq_ignore_ascii_case :: "string \<Rightarrow> string \<Rightarrow> bool" where
  "eq_ignore_ascii_case a b \<longleftrightarrow> to_ascii_lowercase a = to_ascii_lowercase b"

text \<open>\<open>char::is_ascii_whitespace\<close>: space, tab, line feed, form feed, carriage return.\<close>

definition is_ascii_whitespace :: "char \<Rightarrow> bool" where
  "is_ascii_whitespace c \<longleftrightarrow> byte c = 32 \<or> byte c = 9 \<or> byte c = 10 \<or> byte c = 12 \<or> byte c = 13"

text \<open>\<open>split_ascii_whitespace().next().unwrap_or_default()\<close>\<close>

definition first_ascii_word :: "string \<Rightarrow> string" where
  "first_ascii_word s =
     takeWhile (\<lambda>c. \<not> is_ascii_whitespace c) (dropWhile is_ascii_whitespace s)"

definition starts_with :: "string \<Rightarrow> string \<Rightarrow> bool" where
  "starts_with s p \<longleftrightarrow> take (length p) s = p"

definition ends_with :: "string \<Rightarrow> string \<Rightarrow> bool" where
  "ends_with s p \<longleftrightarrow> length p \<le> length s \<and> drop (length s - length p) s = p"

definition contains_char :: "string \<Rightarrow> char \<Rightarrow> bool" where
  "contains_char s c \<longleftrightarrow> c \<in> set s"

text \<open>\<open>str::find\<close> with a string pattern: the byte offset of the first occurrence.\<close>

fun find_from :: "nat \<Rightarrow> string \<Rightarrow> string \<Rightarrow> nat option" where
  "find_from i p [] = (if p = [] then Some i else None)"
| "find_from i p (c # s) = (if starts_with (c # s) p then Some i else find_from (Suc i) p s)"

definition find_str :: "string \<Rightarrow> string \<Rightarrow> nat option" where
  "find_str s p = find_from 0 p s"

definition contains_str :: "string \<Rightarrow> string \<Rightarrow> bool" where
  "contains_str s p \<longleftrightarrow> find_str s p \<noteq> None"

section \<open>Unicode White_Space\<close>

text \<open>
  The number of bytes of the White_Space character the string starts with, 0 when it starts
  with none: U+0009..000D, U+0020, U+0085, U+00A0, U+1680, U+2000..200A, U+2028, U+2029,
  U+202F, U+205F and U+3000 in UTF-8.
\<close>

definition white3 :: "nat \<Rightarrow> nat \<Rightarrow> nat \<Rightarrow> bool" where
  "white3 a b c \<longleftrightarrow>
     (a = 225 \<and> b = 154 \<and> c = 128)
   \<or> (a = 226 \<and> b = 128 \<and> (128 \<le> c \<and> c \<le> 138 \<or> c = 168 \<or> c = 169 \<or> c = 175))
   \<or> (a = 226 \<and> b = 129 \<and> c = 159)
   \<or> (a = 227 \<and> b = 128 \<and> c = 128)"

fun white_bytes :: "nat list \<Rightarrow> nat" where
  "white_bytes [] = 0"
| "white_bytes (a # r) =
     (if a = 32 \<or> (9 \<le> a \<and> a \<le> 13) then 1
      else (case r of
         [] \<Rightarrow> 0
       | b # r' \<Rightarrow>
           if a = 194 \<and> (b = 133 \<or> b = 160) then 2
           else (case r' of [] \<Rightarrow> 0 | c # _ \<Rightarrow> if white3 a b c then 3 else 0)))"

definition white_len :: "string \<Rightarrow> nat" where
  "white_len s = white_bytes (map byte (take 3 s))"

lemma white_bytes_le: "white_bytes bs \<le> length bs"
  by (cases bs rule: white_bytes.cases) (auto split: list.splits)

lemma white_len_le: "white_len s \<le> length s"
  using white_bytes_le[of "map byte (take 3 s)"] by (simp add: white_len_def)

lemma white_len_Nil [simp]: "white_len [] = 0"
  by (simp add: white_len_def)

function trim_start :: "string \<Rightarrow> string" where
  "trim_start s = (if white_len s = 0 then s else trim_start (drop (white_len s) s))"
  by pat_completeness auto
termination
proof (relation "measure length")
  show "(drop (white_len s) s, s) \<in> measure length" if "white_len s \<noteq> 0" for s
    using that white_len_le[of s] by simp
qed simp

declare trim_start.simps [simp del]

text \<open>
  \<open>trim_end\<close>: the shortest prefix after which only whitespace follows. The string is cut
  into its whitespace and other characters from the left; continuation bytes never start a
  whitespace character.
\<close>

function trim_end :: "string \<Rightarrow> string" where
  "trim_end [] = []"
| "trim_end (c # s) =
     (let n = white_len (c # s); k = max 1 n; r = trim_end (drop k (c # s))
      in if n \<noteq> 0 \<and> r = [] then [] else take k (c # s) @ r)"
  by pat_completeness auto
termination
  by (relation "measure length") auto

declare trim_end.simps [simp del]

definition trim :: "string \<Rightarrow> string" where
  "trim s = trim_end (trim_start s)"

function until_white :: "string \<Rightarrow> string" where
  "until_white s = (if s = [] \<or> white_len s \<noteq> 0 then [] else hd s # until_white (tl s))"
  by pat_completeness auto
termination
  by (relation "measure length") auto

declare until_white.simps [simp del]

text \<open>\<open>split_whitespace()\<close>\<close>

function split_whitespace :: "string \<Rightarrow> string list" where
  "split_whitespace s =
     (let t = trim_start s; w = until_white t
      in if w = [] then [] else w # split_whitespace (drop (length w) t))"
  by pat_completeness auto
termination
proof (relation "measure length")
  fix s t w assume t: "t = trim_start s" and w: "w = until_white t" and ne: "w \<noteq> []"
  have "length (trim_start u) \<le> length u" for u
    by (induction u rule: trim_start.induct)
       (subst trim_start.simps, auto intro: order_trans)
  then have "length t \<le> length s" by (simp add: t)
  moreover have "t \<noteq> []" using w ne by (auto simp: until_white.simps)
  ultimately show "(drop (length w) t, s) \<in> measure length"
    using ne by (cases t; cases w) auto
qed simp

declare split_whitespace.simps [simp del]

definition first_word :: "string \<Rightarrow> string" where
  "first_word s = until_white (trim_start s)"

definition is_blank :: "string \<Rightarrow> bool" where
  "is_blank s \<longleftrightarrow> trim s = []"

section \<open>UTF-8 validation\<close>

definition cont_byte :: "nat \<Rightarrow> bool" where
  "cont_byte b \<longleftrightarrow> 128 \<le> b \<and> b \<le> 191"

fun utf8_bytes :: "nat list \<Rightarrow> bool" where
  "utf8_bytes [] = True"
| "utf8_bytes (a # r) =
     (if a < 128 then utf8_bytes r
      else if a < 194 then False
      else if a < 224 then (case r of b # r1 \<Rightarrow> cont_byte b \<and> utf8_bytes r1 | _ \<Rightarrow> False)
      else if a < 240 then
        (case r of b # c # r2 \<Rightarrow>
           cont_byte b \<and> cont_byte c \<and> (a = 224 \<longrightarrow> 160 \<le> b) \<and> (a = 237 \<longrightarrow> b \<le> 159)
           \<and> utf8_bytes r2
         | _ \<Rightarrow> False)
      else if a < 245 then
        (case r of b # c # d # r3 \<Rightarrow>
           cont_byte b \<and> cont_byte c \<and> cont_byte d \<and> (a = 240 \<longrightarrow> 144 \<le> b)
           \<and> (a = 244 \<longrightarrow> b \<le> 143) \<and> utf8_bytes r3
         | _ \<Rightarrow> False)
      else False)"

definition utf8_valid :: "string \<Rightarrow> bool" where
  "utf8_valid s = utf8_bytes (map byte s)"

section \<open>Numerals\<close>

definition digit_value :: "char \<Rightarrow> nat" where
  "digit_value c = byte c - 48"

fun decimal_value :: "nat \<Rightarrow> string \<Rightarrow> nat" where
  "decimal_value acc [] = acc"
| "decimal_value acc (c # s) = decimal_value (10 * acc + digit_value c) s"

text \<open>\<open>str::parse::<u32>\<close>: an optional plus sign, then at least one digit, no overflow.\<close>

definition parse_u32 :: "string \<Rightarrow> 32 word option" where
  "parse_u32 s =
     (let d = (case s of c # r \<Rightarrow> if byte c = 43 then r else s | [] \<Rightarrow> [])
      in if d \<noteq> [] \<and> list_all is_ascii_digit d \<and> decimal_value 0 d < 2 ^ 32
         then Some (of_nat (decimal_value 0 d)) else None)"

definition is_decimal_text :: "string \<Rightarrow> bool" where
  "is_decimal_text s \<longleftrightarrow> s \<noteq> [] \<and> list_all is_ascii_digit s"

definition hex_digit :: "nat \<Rightarrow> char" where
  "hex_digit n = (if n < 10 then char_of (48 + n) else char_of (87 + n))"

fun hex_digits :: "nat \<Rightarrow> nat \<Rightarrow> string" where
  "hex_digits 0 n = []"
| "hex_digits (Suc k) n = hex_digits k (n div 16) @ [hex_digit (n mod 16)]"

lemma hex_digit_inj: "m < 16 \<Longrightarrow> n < 16 \<Longrightarrow> hex_digit m = hex_digit n \<Longrightarrow> m = n"
  by (auto simp: hex_digit_def dest!: arg_cong[where f = byte] split: if_splits)

lemma hex_digits_inj:
  "m < 16 ^ k \<Longrightarrow> n < 16 ^ k \<Longrightarrow> hex_digits k m = hex_digits k n \<Longrightarrow> m = n"
proof (induction k arbitrary: m n)
  case 0
  then show ?case by simp
next
  case (Suc k)
  from Suc.prems have "m div 16 = n div 16" by (intro Suc.IH) auto
  moreover from Suc.prems have "m mod 16 = n mod 16" by (intro hex_digit_inj) auto
  ultimately show ?case by (metis div_mult_mod_eq)
qed

end
