(* ===== verification/Btree.thy ===== *)
theory Btree
  imports Prelude
begin

text \<open>
  \<open>std::collections::BTreeMap\<close>: the interface the sources rely on, as a locale, and the
  executable model the development uses for it, an association list kept in strictly
  ascending key order (the order \<open>iter()\<close>, \<open>keys()\<close> and \<open>values()\<close> visit).
\<close>

section \<open>The interface\<close>

locale ordered_map =
  fixes empty :: 'm
    and get :: "'k::linorder \<Rightarrow> 'm \<Rightarrow> 'v option"
    and insert :: "'k \<Rightarrow> 'v \<Rightarrow> 'm \<Rightarrow> 'm"
    and remove :: "'k \<Rightarrow> 'm \<Rightarrow> 'm"
    and entries :: "'m \<Rightarrow> ('k \<times> 'v) list"
    and invar :: "'m \<Rightarrow> bool"
  assumes invar_empty: "invar empty"
    and invar_insert: "invar m \<Longrightarrow> invar (insert k v m)"
    and invar_remove: "invar m \<Longrightarrow> invar (remove k m)"
    and get_empty: "get k empty = None"
    and get_insert: "invar m \<Longrightarrow> get k (insert k' v m) = (if k = k' then Some v else get k m)"
    and get_remove: "invar m \<Longrightarrow> get k (remove k' m) = (if k = k' then None else get k m)"
    and entries_get: "invar m \<Longrightarrow> map_of (entries m) k = get k m"
    and entries_sorted: "invar m \<Longrightarrow> sorted_wrt (<) (map fst (entries m))"
begin

lemma distinct_keys: "invar m \<Longrightarrow> distinct (map fst (entries m))"
  using entries_sorted strict_sorted_iff by blast

lemma mem_entries: "invar m \<Longrightarrow> (k, v) \<in> set (entries m) \<longleftrightarrow> get k m = Some v"
  using distinct_keys entries_get by (metis map_of_eq_Some_iff)

lemma mem_keys: "invar m \<Longrightarrow> k \<in> fst ` set (entries m) \<longleftrightarrow> get k m \<noteq> None"
  by (simp flip: entries_get add: map_of_eq_None_iff)

text \<open>The entries are determined by the lookups: equal maps iterate equally.\<close>

lemma entries_extensional:
  assumes m: "invar m" and n: "invar n" and eq: "\<And>k. get k m = get k n"
  shows "entries m = entries n"
proof (rule map_sorted_distinct_set_unique[where f = fst])
  show "sorted (map fst (entries m))" "sorted (map fst (entries n))"
    using entries_sorted[OF m] entries_sorted[OF n] by (simp_all add: strict_sorted_imp_sorted)
  show "distinct (map fst (entries m))" "distinct (map fst (entries n))"
    using m n by (simp_all add: distinct_keys)
  show s: "set (entries m) = set (entries n)"
    using mem_entries[OF m] mem_entries[OF n] eq by auto
  show "inj_on fst (set (entries m) \<union> set (entries n))"
    using distinct_keys[OF m] s by (simp add: distinct_map)
qed

lemma insert_twice: "invar m \<Longrightarrow> entries (insert k v (insert k w m)) = entries (insert k v m)"
  by (rule entries_extensional) (simp_all add: invar_insert get_insert)

lemma insert_commute:
  "invar m \<Longrightarrow> k \<noteq> l \<Longrightarrow> entries (insert k v (insert l w m)) = entries (insert l w (insert k v m))"
  by (rule entries_extensional) (simp_all add: invar_insert get_insert)

lemma remove_insert_fresh:
  "invar m \<Longrightarrow> get k m = None \<Longrightarrow> entries (remove k (insert k v m)) = entries m"
  by (rule entries_extensional) (simp_all add: invar_insert invar_remove get_insert get_remove)

lemma set_entries_insert:
  "invar m \<Longrightarrow> get k m = None \<Longrightarrow> set (entries (insert k v m)) = Set.insert (k, v) (set (entries m))"
  by (auto simp: mem_entries invar_insert get_insert split: if_splits)

text \<open>How many entries satisfy a predicate, before and after an insertion or a removal.\<close>

lemma count_insert_fresh:
  assumes m: "invar m" and k: "get k m = None"
  shows "length (filter P (entries (insert k v m)))
       = length (filter P (entries m)) + (if P (k, v) then 1 else 0)"
proof -
  have d: "distinct (entries m)" "distinct (entries (insert k v m))"
    using distinct_keys m invar_insert distinct_map by blast+
  have nin: "(k, v) \<notin> set (entries m)" using m k by (simp add: mem_entries)
  have "length (filter P (entries (insert k v m)))
      = card {x \<in> Set.insert (k, v) (set (entries m)). P x}"
    using d(2) set_entries_insert[OF m k]
    by (metis distinct_card distinct_filter set_filter)
  also have "\<dots> = card {x \<in> set (entries m). P x} + (if P (k, v) then 1 else 0)"
  proof (cases "P (k, v)")
    case True
    then have "{x \<in> Set.insert (k, v) (set (entries m)). P x}
        = Set.insert (k, v) {x \<in> set (entries m). P x}" by auto
    with nin True show ?thesis by simp
  next
    case False
    then have "{x \<in> Set.insert (k, v) (set (entries m)). P x} = {x \<in> set (entries m). P x}" by auto
    with False show ?thesis by simp
  qed
  also have "card {x \<in> set (entries m). P x} = length (filter P (entries m))"
    using d(1) by (metis distinct_card distinct_filter set_filter)
  finally show ?thesis .
qed

lemma count_remove:
  assumes m: "invar m" and k: "get k m = Some v"
  shows "length (filter P (entries m))
       = length (filter P (entries (remove k m))) + (if P (k, v) then 1 else 0)"
proof -
  have "entries (insert k v (remove k m)) = entries m"
    using m k by (intro entries_extensional) (simp_all add: invar_insert invar_remove get_insert get_remove)
  with count_insert_fresh[of "remove k m" k P v] m show ?thesis
    by (simp add: invar_remove get_remove)
qed

end

section \<open>The executable model\<close>

type_synonym ('k, 'v) btree = "('k \<times> 'v) list"

definition bt_get :: "'k \<Rightarrow> ('k, 'v) btree \<Rightarrow> 'v option" where
  "bt_get k m = map_of m k"

fun bt_insert :: "'k::linorder \<Rightarrow> 'v \<Rightarrow> ('k, 'v) btree \<Rightarrow> ('k, 'v) btree" where
  "bt_insert k v [] = [(k, v)]"
| "bt_insert k v (e # m) =
     (if k = fst e then (k, v) # m
      else if k < fst e then (k, v) # e # m else e # bt_insert k v m)"

definition bt_remove :: "'k \<Rightarrow> ('k, 'v) btree \<Rightarrow> ('k, 'v) btree" where
  "bt_remove k m = filter (\<lambda>e. fst e \<noteq> k) m"

text \<open>\<open>if let Some(entry) = map.get_mut(k) { ... }\<close>\<close>

definition bt_modify :: "'k::linorder \<Rightarrow> ('v \<Rightarrow> 'v) \<Rightarrow> ('k, 'v) btree \<Rightarrow> ('k, 'v) btree" where
  "bt_modify k f m = map (\<lambda>e. if fst e = k then (k, f (snd e)) else e) m"

definition bt_contains :: "'k \<Rightarrow> ('k, 'v) btree \<Rightarrow> bool" where
  "bt_contains k m \<longleftrightarrow> bt_get k m \<noteq> None"

definition bt_values :: "('k, 'v) btree \<Rightarrow> 'v list" where
  "bt_values m = map snd m"

definition bt_keys :: "('k, 'v) btree \<Rightarrow> 'k list" where
  "bt_keys m = map fst m"

definition bt_ok :: "('k::linorder, 'v) btree \<Rightarrow> bool" where
  "bt_ok m \<longleftrightarrow> sorted_wrt (<) (map fst m)"

lemma bt_insert_keys: "fst ` set (bt_insert k v m) = insert k (fst ` set m)"
  by (induction m) auto

lemma bt_insert_ok: "bt_ok m \<Longrightarrow> bt_ok (bt_insert k v m)"
proof (induction m)
  case Nil
  show ?case by (simp add: bt_ok_def)
next
  case (Cons e m)
  have "\<forall>x \<in> fst ` set m. fst e < x" using Cons.prems by (auto simp: bt_ok_def)
  with Cons bt_insert_keys[of k v m] show ?case by (fastforce simp: bt_ok_def)
qed

lemma bt_get_absent: "\<forall>x \<in> fst ` set m. k < x \<Longrightarrow> map_of m (k::'k::linorder) = None"
  by (metis less_irrefl map_of_eq_None_iff)

lemma bt_get_insert_list:
  "bt_ok m \<Longrightarrow> map_of (bt_insert k' v m) k = (if k = k' then Some v else map_of m k)"
proof (induction m)
  case Nil
  show ?case by simp
next
  case (Cons e m)
  then show ?case by (cases e) (auto simp: bt_ok_def)
qed

lemma bt_remove_get: "map_of (bt_remove k' m) k = (if k = k' then None else map_of m k)"
  unfolding bt_remove_def by (induction m) auto

interpretation bt: ordered_map "[] :: ('k::linorder, 'v) btree" bt_get bt_insert bt_remove
    "\<lambda>m. m" bt_ok
proof unfold_locales
  fix m :: "('k, 'v) btree" and k k' v
  show "bt_ok ([] :: ('k, 'v) btree)" by (simp add: bt_ok_def)
  show "bt_get k ([] :: ('k, 'v) btree) = None" by (simp add: bt_get_def)
  show "map_of m k = bt_get k m" by (simp add: bt_get_def)
  show "bt_get k (bt_remove k' m) = (if k = k' then None else bt_get k m)"
    by (simp add: bt_get_def bt_remove_get)
  assume m: "bt_ok m"
  show "bt_ok (bt_insert k v m)" using m by (rule bt_insert_ok)
  show "bt_ok (bt_remove k m)"
    using m by (simp add: bt_ok_def bt_remove_def sorted_wrt_map sorted_wrt_filter)
  show "bt_get k (bt_insert k' v m) = (if k = k' then Some v else bt_get k m)"
    using m by (simp add: bt_get_def bt_get_insert_list)
  show "sorted_wrt (<) (map fst m)" using m by (simp add: bt_ok_def)
qed

lemma bt_keys_modify [simp]: "map fst (bt_modify k f m) = map fst m"
  by (induction m) (auto simp: bt_modify_def)

lemma bt_modify_ok [simp]: "bt_ok (bt_modify k f m) = bt_ok m"
  by (simp add: bt_ok_def)

lemma bt_get_modify:
  "bt_get k (bt_modify k' f m) = (if k = k' then map_option f (bt_get k m) else bt_get k m)"
  unfolding bt_get_def bt_modify_def by (induction m) auto

lemma bt_get_modify_same [simp]: "bt_get k (bt_modify k f m) = map_option f (bt_get k m)"
  by (simp add: bt_get_modify)

lemma bt_get_modify_other [simp]: "k \<noteq> k' \<Longrightarrow> bt_get k (bt_modify k' f m) = bt_get k m"
  by (simp add: bt_get_modify)

lemma bt_modify_id: "bt_get k m = None \<Longrightarrow> bt_modify k f m = m"
  unfolding bt_get_def bt_modify_def by (induction m) (auto split: if_splits)

lemma bt_modify_modify: "bt_modify k f (bt_modify k g m) = bt_modify k (f \<circ> g) m"
  by (induction m) (auto simp: bt_modify_def)

lemma bt_count_modify:
  assumes P: "\<And>v. P (k, f v) = P (k, v)"
  shows "length (filter P (bt_modify k f m)) = length (filter P m)"
proof (induction m)
  case Nil
  show ?case by (simp add: bt_modify_def)
next
  case (Cons e m)
  then show ?case using P[of "snd e"] by (cases e) (auto simp: bt_modify_def)
qed

end
