(* ===== verification/Json.thy ===== *)
theory Json
  imports Strings Btree
begin

text \<open>
  JSON values as \<open>serde_json::Value\<close> and the canonical form of \<open>protocol.rs\<close>
  (\<open>canonicalize\<close>, \<open>canonical_json\<close>, \<open>canonical_json_bytes\<close>). An object is the list of its
  members in iteration order; \<open>Map::insert\<close> is \<open>BTreeMap::insert\<close> (serde_json is built without
  \<open>preserve_order\<close>). The compact text of a value is \<open>serde_json\<close>'s: \<open>render\<close> is an argument of the functions that use it, an error
  being \<open>serde_json::Error\<close>. \<close>

datatype json =
    JNull
  | JBool bool
  | JNumber int
  | JFloat string
  | JString string
  | JArray "json list"
  | JObject "(string \<times> json) list"

type_synonym renderer = "json \<Rightarrow> string + string"

section \<open>Canonical form\<close>

text \<open>
  The members re-inserted in the byte order of their keys: \<open>keys.sort_by\<close>, then
  \<open>sorted.insert(key, canonicalize(&object[key]))\<close>.
\<close>

definition sort_object :: "(string \<times> 'v) list \<Rightarrow> (string \<times> 'v) list" where
  "sort_object obj =
     foldl (\<lambda>m k. case map_of obj k of Some v \<Rightarrow> bt_insert k v m | None \<Rightarrow> m) []
       (sort (map fst obj))"

primrec canonicalize :: "json \<Rightarrow> json" where
  "canonicalize JNull = JNull"
| "canonicalize (JBool b) = JBool b"
| "canonicalize (JNumber n) = JNumber n"
| "canonicalize (JFloat s) = JFloat s"
| "canonicalize (JString s) = JString s"
| "canonicalize (JArray xs) = JArray (map canonicalize xs)"
| "canonicalize (JObject obj) = JObject (sort_object (map (map_prod id canonicalize) obj))"

definition canonical_json :: "renderer \<Rightarrow> json \<Rightarrow> string + string" where
  "canonical_json render v = render (canonicalize v)"

definition canonical_json_bytes :: "renderer \<Rightarrow> json \<Rightarrow> string + string" where
  "canonical_json_bytes render v = render (canonicalize v)"

definition canonicalize_json :: "json \<Rightarrow> json" where
  "canonicalize_json v = canonicalize v"

definition canonical_result_bytes :: "renderer \<Rightarrow> json \<Rightarrow> string + nat" where
  "canonical_result_bytes render v =
     and_then (canonical_json_bytes render v) (\<lambda>bytes. Inr (length bytes))"

text \<open>A \<open>Map\<close> has distinct keys, at every depth.\<close>

primrec json_wf :: "json \<Rightarrow> bool" where
  "json_wf JNull = True"
| "json_wf (JBool b) = True"
| "json_wf (JNumber n) = True"
| "json_wf (JFloat s) = True"
| "json_wf (JString s) = True"
| "json_wf (JArray xs) = list_all id (map json_wf xs)"
| "json_wf (JObject obj) =
     (distinct (map fst obj) \<and> list_all snd (map (map_prod id json_wf) obj))"

primrec json_sorted :: "json \<Rightarrow> bool" where
  "json_sorted JNull = True"
| "json_sorted (JBool b) = True"
| "json_sorted (JNumber n) = True"
| "json_sorted (JFloat s) = True"
| "json_sorted (JString s) = True"
| "json_sorted (JArray xs) = list_all id (map json_sorted xs)"
| "json_sorted (JObject obj) =
     (sorted_wrt (<) (map fst obj) \<and> list_all snd (map (map_prod id json_sorted) obj))"

definition json_get :: "string \<Rightarrow> json \<Rightarrow> json option" where
  "json_get k v = (case v of JObject obj \<Rightarrow> map_of obj k | _ \<Rightarrow> None)"

lemma bt_insert_last: "\<forall>x \<in> fst ` set m. x < k \<Longrightarrow> bt_insert k v m = m @ [(k, v)]"
  by (induction m) auto

text \<open>Keys inserted in ascending order are appended.\<close>

lemma foldl_bt_insert_ascending:
  assumes "sorted_wrt (<) ks" and "\<forall>k \<in> set ks. map_of obj k \<noteq> None"
    and "\<forall>x \<in> fst ` set m. \<forall>k \<in> set ks. x < k"
  shows "foldl (\<lambda>m k. case map_of obj k of Some v \<Rightarrow> bt_insert k v m | None \<Rightarrow> m) m ks
       = m @ map (\<lambda>k. (k, the (map_of obj k))) ks"
  using assms
proof (induction ks arbitrary: m)
  case Nil
  show ?case by simp
next
  case (Cons k ks)
  then obtain v where v: "map_of obj k = Some v" by auto
  have "\<forall>x \<in> fst ` set m. x < k" using Cons.prems(3) by simp
  then have "bt_insert k v m = m @ [(k, v)]" by (rule bt_insert_last)
  moreover have "\<forall>x \<in> fst ` set (m @ [(k, v)]). \<forall>k \<in> set ks. x < k"
    using Cons.prems(1,3) by auto
  ultimately show ?case using Cons.IH[of "m @ [(k, v)]"] Cons.prems v by simp
qed

lemma sort_object_eq:
  assumes d: "distinct (map fst obj)"
  shows "sort_object obj = map (\<lambda>k. (k, the (map_of obj k))) (sort (map fst obj))"
proof -
  have s: "sorted_wrt (<) (sort (map fst obj))" using d by (simp add: strict_sorted_iff)
  have "\<forall>k \<in> set (sort (map fst obj)). map_of obj k \<noteq> None"
    by (simp add: map_of_eq_None_iff)
  from foldl_bt_insert_ascending[OF s this, of "[]"] show ?thesis
    unfolding sort_object_def by simp
qed

lemma sort_object_keys:
  assumes "distinct (map fst obj)"
  shows "map fst (sort_object obj) = sort (map fst obj)"
  using assms by (simp add: sort_object_eq comp_def)

lemma map_of_pairs: "k \<in> set ks \<Longrightarrow> map_of (map (\<lambda>k. (k, f k)) ks) k = Some (f k)"
  by (induction ks) auto

lemma sort_object_get:
  assumes d: "distinct (map fst obj)"
  shows "map_of (sort_object obj) k = map_of obj k"
proof (cases "map_of obj k")
  case None
  then have "k \<notin> set (map fst (sort_object obj))"
    unfolding sort_object_keys[OF d] by (simp add: map_of_eq_None_iff)
  then have "map_of (sort_object obj) k = None" by (simp add: map_of_eq_None_iff)
  with None show ?thesis by simp
next
  case (Some v)
  from map_of_SomeD[OF this] have "k \<in> set (sort (map fst obj))" by force
  then show ?thesis
    unfolding sort_object_eq[OF d] using Some by (simp add: map_of_pairs)
qed

lemma sort_object_distinct: "distinct (map fst obj) \<Longrightarrow> distinct (map fst (sort_object obj))"
  by (simp add: sort_object_keys)

lemma sort_object_sorted: "distinct (map fst obj) \<Longrightarrow> sorted_wrt (<) (map fst (sort_object obj))"
  by (simp add: sort_object_keys strict_sorted_iff)

text \<open>What sorting does to the members of an object.\<close>

lemma map_fst_map_prod [simp]: "map fst (map (map_prod id f) xs) = map fst xs"
  by (induction xs) auto

lemma sort_object_values: "distinct (map fst obj) \<Longrightarrow> set (sort_object obj) = set obj"
  using set_map_of_compr[of "sort_object obj"] set_map_of_compr[of obj]
  by (simp only: sort_object_distinct sort_object_get)

text \<open>Two objects with the same members iterate the same way once their keys are sorted.\<close>

lemma sort_object_unique:
  assumes "distinct (map fst a)" "distinct (map fst b)" "set a = set b"
  shows "sort_object a = sort_object b"
proof -
  have "sort (map fst a) = sort (map fst b)"
    using assms by (intro sorted_distinct_set_unique) simp_all
  moreover have "map_of a = map_of b" using assms by (simp add: map_of_inject_set)
  ultimately show ?thesis using assms by (simp add: sort_object_eq)
qed

lemma sort_object_idem:
  "distinct (map fst obj) \<Longrightarrow> sort_object (sort_object obj) = sort_object obj"
  by (rule sort_object_unique) (simp_all add: sort_object_distinct sort_object_values)

text \<open>Sorting commutes with a map over the values.\<close>

lemma map_of_map_prod: "map_of (map (map_prod id f) xs) k = map_option f (map_of xs k)"
  by (induction xs) auto

lemma sort_object_sorted_id:
  assumes "sorted_wrt (<) (map fst obj)"
  shows "sort_object obj = obj"
proof -
  have d: "distinct (map fst obj)" and s: "sort (map fst obj) = map fst obj"
    using assms by (simp_all add: strict_sorted_iff sorted_sort_id)
  have "(fst x, the (map_of obj (fst x))) = x" if "x \<in> set obj" for x
    using map_of_is_SomeI[OF d, of "fst x" "snd x"] that by simp
  then show ?thesis using d s by (simp add: sort_object_eq comp_def map_idI)
qed

text \<open>Structural induction, with the members of an object as pairs.\<close>

lemma json_members_induct [case_names JNull JBool JNumber JFloat JString JArray JObject]:
  assumes "P JNull" "\<And>b. P (JBool b)" "\<And>n. P (JNumber n)" "\<And>s. P (JFloat s)"
    "\<And>s. P (JString s)" "\<And>xs. (\<And>x. x \<in> set xs \<Longrightarrow> P x) \<Longrightarrow> P (JArray xs)"
    "\<And>obj. (\<And>k v. (k, v) \<in> set obj \<Longrightarrow> P v) \<Longrightarrow> P (JObject obj)"
  shows "P v"
proof (induction v rule: json.induct)
  case (JObject obj)
  have "P u" if "(k, u) \<in> set obj" for k u using JObject[OF that, of u] by simp
  then show ?case by (rule assms(7))
qed (use assms in blast)+

lemma json_wf_array: "json_wf (JArray xs) \<longleftrightarrow> (\<forall>x \<in> set xs. json_wf x)"
  by (simp add: list_all_iff)

lemma json_wf_object:
  "json_wf (JObject obj) \<longleftrightarrow> distinct (map fst obj) \<and> (\<forall>(k, v) \<in> set obj. json_wf v)"
  by (auto simp: list_all_iff)

lemma json_sorted_array: "json_sorted (JArray xs) \<longleftrightarrow> (\<forall>x \<in> set xs. json_sorted x)"
  by (simp add: list_all_iff)

lemma json_sorted_object:
  "json_sorted (JObject obj) \<longleftrightarrow>
     sorted_wrt (<) (map fst obj) \<and> (\<forall>(k, v) \<in> set obj. json_sorted v)"
  by (auto simp: list_all_iff)

lemma canonicalize_object_values:
  assumes "distinct (map fst obj)"
  shows "set (sort_object (map (map_prod id canonicalize) obj)) = map_prod id canonicalize ` set obj"
  using sort_object_values[of "map (map_prod id canonicalize) obj"] assms by simp

declare json_wf.simps(6,7) [simp del] json_sorted.simps(6,7) [simp del]

lemma canonicalize_wf: "json_wf v \<Longrightarrow> json_wf (canonicalize v)"
proof (induction v rule: json_members_induct)
  case (JArray xs)
  then show ?case by (simp add: json_wf_array)
next
  case (JObject obj)
  then have d: "distinct (map fst obj)" by (simp add: json_wf_object)
  then have "distinct (map fst (sort_object (map (map_prod id canonicalize) obj)))"
    by (simp add: sort_object_distinct)
  moreover have "json_wf (canonicalize u)" if "(k, u) \<in> set obj" for k u
    using JObject.IH[OF that] JObject.prems that by (auto simp: json_wf_object)
  ultimately show ?case
    using d by (auto simp: json_wf_object canonicalize_object_values)
qed simp_all

lemma canonicalize_sorted: "json_wf v \<Longrightarrow> json_sorted (canonicalize v)"
proof (induction v rule: json_members_induct)
  case (JArray xs)
  then show ?case by (simp add: json_wf_array json_sorted_array)
next
  case (JObject obj)
  then have d: "distinct (map fst obj)" by (simp add: json_wf_object)
  then have "sorted_wrt (<) (map fst (sort_object (map (map_prod id canonicalize) obj)))"
    by (simp add: sort_object_sorted)
  moreover have "json_sorted (canonicalize u)" if "(k, u) \<in> set obj" for k u
    using JObject.IH[OF that] JObject.prems that by (auto simp: json_wf_object)
  ultimately show ?case
    using d by (auto simp: json_sorted_object canonicalize_object_values)
qed simp_all

lemma canonicalize_sorted_id: "json_sorted v \<Longrightarrow> canonicalize v = v"
proof (induction v rule: json_members_induct)
  case (JArray xs)
  then show ?case by (simp add: json_sorted_array map_idI)
next
  case (JObject obj)
  then have s: "sorted_wrt (<) (map fst obj)" by (simp add: json_sorted_object)
  have "canonicalize u = u" if "(k, u) \<in> set obj" for k u
    using JObject.IH[OF that] JObject.prems that by (auto simp: json_sorted_object)
  then have "map_prod id canonicalize x = x" if "x \<in> set obj" for x
    using that by (cases x) simp
  then have "map (map_prod id canonicalize) obj = obj" by (simp add: map_idI)
  with s show ?case by (simp add: sort_object_sorted_id)
qed simp_all

text \<open>Equality of JSON values up to the order of the members of their objects.\<close>

inductive same_json :: "json \<Rightarrow> json \<Rightarrow> bool" where
  same_null: "same_json JNull JNull"
| same_bool: "same_json (JBool b) (JBool b)"
| same_number: "same_json (JNumber n) (JNumber n)"
| same_float: "same_json (JFloat s) (JFloat s)"
| same_string: "same_json (JString s) (JString s)"
| same_array: "list_all2 same_json xs ys \<Longrightarrow> same_json (JArray xs) (JArray ys)"
| same_object: "(\<And>k. rel_option same_json (map_of a k) (map_of b k)) \<Longrightarrow>
    same_json (JObject a) (JObject b)"

inductive_simps same_json_simps:
  "same_json JNull v" "same_json (JBool b) v" "same_json (JNumber n) v" "same_json (JFloat s) v"
  "same_json (JString s) v" "same_json (JArray xs) v" "same_json (JObject a) v"

lemma same_array_canonicalize:
  "list_all2 (\<lambda>x y. same_json x y \<and> canonicalize x = canonicalize y) xs ys \<Longrightarrow>
     map canonicalize xs = map canonicalize ys"
  by (induction xs ys rule: list_all2_induct) auto

lemma object_set_map_of:
  assumes "distinct (map fst a)" "distinct (map fst b)" "map_of a = map_of b"
  shows "set a = set b"
  using set_map_of_compr[OF assms(1)] set_map_of_compr[OF assms(2)] assms(3) by simp

lemma same_json_imp_canonicalize:
  "same_json a b \<Longrightarrow> json_wf a \<Longrightarrow> json_wf b \<Longrightarrow> canonicalize a = canonicalize b"
proof (induction rule: same_json.induct)
  case (same_array xs ys)
  then have "list_all2 (\<lambda>x y. canonicalize x = canonicalize y) xs ys"
    by (simp add: json_wf_array list_all2_conv_all_nth)
  then have "map canonicalize xs = map canonicalize ys"
    by (simp add: list_all2_conv_all_nth list_eq_iff_nth_eq)
  then show ?case by simp
next
  case (same_object a b)
  let ?c = "map (map_prod id canonicalize)"
  from same_object.prems have d: "distinct (map fst (?c a))" "distinct (map fst (?c b))"
    by (simp_all add: json_wf_object)
  have "map_of (?c a) k = map_of (?c b) k" for k
    using same_object.IH[of k] same_object.prems
    by (cases "map_of a k"; cases "map_of b k")
       (auto simp: map_of_map_prod json_wf_object dest!: map_of_SomeD)
  then have "map_of (?c a) = map_of (?c b)" by (rule ext)
  from object_set_map_of[OF d this] d show ?case by (simp add: sort_object_unique)
qed simp_all

lemma canonicalize_imp_same_json:
  "json_wf a \<Longrightarrow> json_wf b \<Longrightarrow> canonicalize a = canonicalize b \<Longrightarrow> same_json a b"
proof (induction a arbitrary: b rule: json_members_induct)
  case (JArray xs)
  from JArray.prems(3) obtain ys where b: "b = JArray ys" by (cases b) simp_all
  with JArray.prems have "map canonicalize xs = map canonicalize ys" by simp
  then have "length xs = length ys \<and> (\<forall>i < length xs. canonicalize (xs ! i) = canonicalize (ys ! i))"
    by (metis length_map nth_map)
  with JArray b have "list_all2 same_json xs ys"
    by (simp add: list_all2_conv_all_nth json_wf_array)
  with b show ?case by (simp add: same_json.intros)
next
  case (JObject obj)
  from JObject.prems(3) obtain obj' where b: "b = JObject obj'" by (cases b) simp_all
  let ?c = "map (map_prod id canonicalize)"
  from JObject.prems b have d: "distinct (map fst (?c obj))" "distinct (map fst (?c obj'))"
    by (simp_all add: json_wf_object)
  from JObject.prems b have "sort_object (?c obj) = sort_object (?c obj')" by simp
  then have eq: "map_option canonicalize (map_of obj k) = map_option canonicalize (map_of obj' k)" for k
    using sort_object_get[OF d(1), of k] sort_object_get[OF d(2), of k]
    by (simp add: map_of_map_prod)
  have "rel_option same_json (map_of obj k) (map_of obj' k)" for k
  proof (cases "map_of obj k")
    case None
    with eq[of k] show ?thesis by simp
  next
    case (Some v)
    with eq[of k] obtain v' where v': "map_of obj' k = Some v'" "canonicalize v = canonicalize v'"
      by (cases "map_of obj' k") simp_all
    moreover have "json_wf v" "json_wf v'"
      using map_of_SomeD[OF Some] map_of_SomeD[OF v'(1)] JObject.prems(1,2) b
      by (auto simp: json_wf_object)
    ultimately have "same_json v v'"
      using JObject.IH[OF map_of_SomeD[OF Some]] by blast
    with v' have "map_of obj' k = Some v'" "same_json v v'" by simp_all
    then show ?thesis using Some by simp
  qed
  with b show ?case by (simp add: same_json.intros)
next
  case JNull then show ?case by (cases b) (simp_all add: same_json.intros)
next
  case (JBool x) then show ?case by (cases b) (simp_all add: same_json.intros)
next
  case (JNumber x) then show ?case by (cases b) (simp_all add: same_json.intros)
next
  case (JFloat x) then show ?case by (cases b) (simp_all add: same_json.intros)
next
  case (JString x) then show ?case by (cases b) (simp_all add: same_json.intros)
qed

section \<open>Properties\<close>

text \<open>
  C38. Canonicalisation is canonical: two well-formed values have the same canonical form exactly
  when they are equal up to the order of their object members at every depth, array order and
  scalars being kept.
\<close>

theorem canonicalize_eq_iff_same:
  assumes "json_wf a" "json_wf b"
  shows "canonicalize a = canonicalize b \<longleftrightarrow> same_json a b"
  using assms same_json_imp_canonicalize canonicalize_imp_same_json by blast

theorem canonicalize_eq_iff_same_witness:
  "canonicalize (JObject [(''b'', JNull), (''a'', JArray [JBool True])])
     = canonicalize (JObject [(''a'', JArray [JBool True]), (''b'', JNull)]) \<longleftrightarrow>
   same_json (JObject [(''b'', JNull), (''a'', JArray [JBool True])])
     (JObject [(''a'', JArray [JBool True]), (''b'', JNull)])"
  by (rule canonicalize_eq_iff_same) (simp_all add: json_wf_object json_wf_array)

text \<open>
  A canonical value lists the members of every object in strictly ascending byte order of
  their keys, and canonicalising it again changes nothing.
\<close>

theorem canonicalize_sorted_idempotent:
  assumes "json_wf v"
  shows "json_sorted (canonicalize_json v) \<and>
    canonicalize_json (canonicalize_json v) = canonicalize_json v"
  using assms by (simp add: canonicalize_json_def canonicalize_sorted canonicalize_sorted_id)

theorem canonicalize_sorted_idempotent_witness:
  "json_sorted (canonicalize_json (JObject [(''b'', JNull), (''a'', JBool True)])) \<and>
   canonicalize_json (canonicalize_json (JObject [(''b'', JNull), (''a'', JBool True)]))
     = canonicalize_json (JObject [(''b'', JNull), (''a'', JBool True)])"
  by (rule canonicalize_sorted_idempotent) (simp add: json_wf_object)

end
