(* ===== verification/Codec.thy ===== *)
theory Codec
  imports Json Strings
begin

text \<open>
  Encoding to and decoding from JSON values. The first group are the helpers of
  \<open>protocol.rs\<close> (\<open>exact_object_keys\<close>, \<open>allowed_object_keys\<close>, \<open>required_value\<close>,
  \<open>decode_value\<close>). The second group is what \<open>derive(Serialize, Deserialize)\<close> makes of the
  field types and of structs with \<open>deny_unknown_fields\<close>: an object of exactly known members or
  an array of the fields in order, an enum as its name. The text of serde's own errors is not
  modelled: it is \<open>DeSerde\<close>.

  The locale \<open>json_codec\<close> is the round-trip contract of a type; lists, options and the public
  types of the protocol are interpretations of it.
\<close>

datatype decode_error = DeText string | DeField string decode_error | DeSerde

type_synonym 'a decoder = "json \<Rightarrow> decode_error + 'a"
type_synonym json_object = "(string \<times> json) list"

section \<open>Hand-written decoding\<close>

definition allowed_object_keys :: "json_object \<Rightarrow> string list \<Rightarrow> decode_error + unit" where
  "allowed_object_keys object allowed =
     (case find (\<lambda>key. key \<notin> set allowed) (map fst object) of
        Some key \<Rightarrow> Err (DeText (''unknown field `'' @ key @ ''`''))
      | None \<Rightarrow> Ok ())"

definition required_value :: "json_object \<Rightarrow> string \<Rightarrow> decode_error + json" where
  "required_value object key =
     ok_or (DeText (''missing field `'' @ key @ ''`'')) (map_of object key)"

definition require_keys :: "json_object \<Rightarrow> string list \<Rightarrow> decode_error + unit" where
  "require_keys object keys =
     (case find (\<lambda>key. map_of object key = None) keys of
        Some key \<Rightarrow> Err (DeText (''missing field `'' @ key @ ''`''))
      | None \<Rightarrow> Ok ())"

definition exact_object_keys :: "json_object \<Rightarrow> string list \<Rightarrow> decode_error + unit" where
  "exact_object_keys object required =
     and_then (require_keys object required) (\<lambda>_. allowed_object_keys object required)"

text \<open>\<open>decode_value::<T>(object, key)\<close>, with the decoder of \<open>T\<close> as an argument.\<close>

definition decode_value :: "'a decoder \<Rightarrow> json_object \<Rightarrow> string \<Rightarrow> decode_error + 'a" where
  "decode_value dec object key =
     and_then (required_value object key) (\<lambda>v. map_err (DeField key) (dec v))"

text \<open>\<open>value.as_object().ok_or_else(...)\<close>\<close>

definition as_object :: "string \<Rightarrow> json \<Rightarrow> decode_error + json_object" where
  "as_object message v = (case v of JObject obj \<Rightarrow> Ok obj | _ \<Rightarrow> Err (DeText message))"

section \<open>Derived decoding\<close>

definition de_string :: "string decoder" where
  "de_string v = (case v of JString s \<Rightarrow> Ok s | _ \<Rightarrow> Err DeSerde)"

definition de_bool :: "bool decoder" where
  "de_bool v = (case v of JBool b \<Rightarrow> Ok b | _ \<Rightarrow> Err DeSerde)"

definition de_uint :: "'n::len word decoder" where
  "de_uint v = (case v of
     JNumber n \<Rightarrow> if 0 \<le> n \<and> n < 2 ^ LENGTH('n) then Ok (word_of_int n) else Err DeSerde
   | _ \<Rightarrow> Err DeSerde)"

definition de_option :: "'a decoder \<Rightarrow> 'a option decoder" where
  "de_option dec v = (case v of JNull \<Rightarrow> Ok None | _ \<Rightarrow> and_then (dec v) (\<lambda>a. Ok (Some a)))"

definition de_list :: "'a decoder \<Rightarrow> 'a list decoder" where
  "de_list dec v = (case v of JArray xs \<Rightarrow> map_result dec xs | _ \<Rightarrow> Err DeSerde)"

text \<open>A unit variant: its name, or \<open>{name: null}\<close>.\<close>

definition de_enum :: "(string \<times> 'a) list \<Rightarrow> 'a decoder" where
  "de_enum variants v = (case v of
     JString s \<Rightarrow> ok_or DeSerde (map_of variants s)
   | JObject [(s, JNull)] \<Rightarrow> ok_or DeSerde (map_of variants s)
   | _ \<Rightarrow> Err DeSerde)"

text \<open>
  The members of a struct with the fields \<open>names\<close>, the first \<open>required\<close> of them without a
  \<open>serde(default)\<close>: an array gives them in order.
\<close>

definition de_struct :: "nat \<Rightarrow> string list \<Rightarrow> json_object decoder" where
  "de_struct required names v = (case v of
     JObject obj \<Rightarrow> if fst ` set obj \<subseteq> set names then Ok obj else Err DeSerde
   | JArray xs \<Rightarrow>
       if required \<le> length xs \<and> length xs \<le> length names then Ok (zip names xs) else Err DeSerde
   | _ \<Rightarrow> Err DeSerde)"

definition de_field :: "'a decoder \<Rightarrow> json_object \<Rightarrow> string \<Rightarrow> decode_error + 'a" where
  "de_field dec obj name = (case map_of obj name of None \<Rightarrow> Err DeSerde | Some v \<Rightarrow> dec v)"

text \<open>A missing \<open>Option\<close> member is \<open>None\<close>; a missing \<open>serde(default)\<close> member is the default.\<close>

definition de_field_or :: "'a \<Rightarrow> 'a decoder \<Rightarrow> json_object \<Rightarrow> string \<Rightarrow> decode_error + 'a" where
  "de_field_or d dec obj name = (case map_of obj name of None \<Rightarrow> Ok d | Some v \<Rightarrow> dec v)"

section \<open>Derived encoding\<close>

definition en_uint :: "'n::len word \<Rightarrow> json" where
  "en_uint n = JNumber (uint n)"

definition en_option :: "('a \<Rightarrow> json) \<Rightarrow> 'a option \<Rightarrow> json" where
  "en_option enc x = (case x of None \<Rightarrow> JNull | Some a \<Rightarrow> enc a)"

definition en_list :: "('a \<Rightarrow> json) \<Rightarrow> 'a list \<Rightarrow> json" where
  "en_list enc xs = JArray (map enc xs)"

lemmas codec_defs = de_string_def de_bool_def de_uint_def de_enum_def de_struct_def de_field_def
  de_field_or_def en_uint_def

lemma find_holds: "find P xs = Some x \<Longrightarrow> x \<in> set xs \<and> P x"
  by (induction xs) (auto split: if_splits)

lemma require_keys_Ok [simp]:
  "require_keys obj keys = Ok u \<longleftrightarrow> set keys \<subseteq> fst ` set obj"
  by (auto simp: require_keys_def find_None_iff map_of_eq_None_iff split: option.split
      dest: find_holds)

lemma allowed_object_keys_Ok [simp]:
  "allowed_object_keys obj allowed = Ok u \<longleftrightarrow> fst ` set obj \<subseteq> set allowed"
proof (cases "find (\<lambda>key. key \<notin> set allowed) (map fst obj)")
  case None
  then have "fst ` set obj \<subseteq> set allowed" by (auto simp: find_None_iff)
  with None show ?thesis by (simp add: allowed_object_keys_def)
next
  case (Some key)
  from find_holds[OF this] have "key \<in> fst ` set obj" "key \<notin> set allowed" by simp_all
  with Some show ?thesis by (auto simp: allowed_object_keys_def)
qed

lemma exact_object_keys_Ok [simp]:
  "exact_object_keys obj keys = Ok u \<longleftrightarrow> fst ` set obj = set keys"
  by (auto simp: exact_object_keys_def)

lemma decode_value_Ok [simp]:
  "decode_value dec obj key = Ok a \<longleftrightarrow> (\<exists>v. map_of obj key = Some v \<and> dec v = Ok a)"
  by (simp add: decode_value_def required_value_def)

lemma as_object_Ok [simp]: "as_object message v = Ok obj \<longleftrightarrow> v = JObject obj"
  by (cases v) (simp_all add: as_object_def)

section \<open>The round-trip contract\<close>

locale json_codec =
  fixes enc :: "'a \<Rightarrow> json" and dec :: "'a decoder" and valid :: "'a \<Rightarrow> bool"
  assumes dec_enc: "valid a \<Longrightarrow> dec (enc a) = Ok a"
begin

lemma enc_inject: "valid a \<Longrightarrow> valid b \<Longrightarrow> enc a = enc b \<longleftrightarrow> a = b"
  using dec_enc by (metis Inr_inject)

lemma list_round_trip: "list_all valid xs \<Longrightarrow> de_list dec (en_list enc xs) = Ok xs"
  unfolding de_list_def en_list_def by (simp add: list_all_iff map_result_map_Ok dec_enc)

end

text \<open>A type whose encoding is never \<open>null\<close> can be optional.\<close>

locale nonnull_codec = json_codec +
  assumes enc_not_null: "enc a \<noteq> JNull"
begin

lemma option_round_trip: "pred_option valid x \<Longrightarrow> de_option dec (en_option enc x) = Ok x"
proof (cases x)
  case None
  then show ?thesis by (simp add: de_option_def en_option_def)
next
  case (Some a)
  assume "pred_option valid x"
  with Some have "dec (enc a) = Ok a" by (simp add: dec_enc)
  with Some enc_not_null[of a] show ?thesis
    by (cases "enc a") (simp_all add: de_option_def en_option_def)
qed

end

interpretation string_codec: nonnull_codec JString de_string "\<lambda>_. True"
  by unfold_locales (simp_all add: de_string_def)

interpretation bool_codec: nonnull_codec JBool de_bool "\<lambda>_. True"
  by unfold_locales (simp_all add: de_bool_def)

interpretation uint_codec: nonnull_codec "en_uint :: 'n::len word \<Rightarrow> json" de_uint "\<lambda>_. True"
  by unfold_locales (simp_all add: de_uint_def en_uint_def)

text \<open>An enum whose variant names are distinct.\<close>

lemma de_enum_round_trip:
  assumes "distinct (map fst variants)" and "(name, a) \<in> set variants"
  shows "de_enum variants (JString name) = Ok a"
  using assms by (simp add: de_enum_def)

end
