(* ===== verification/Errors.thy ===== *)
theory Errors
  imports Codec
begin

text \<open>
  The closed error vocabulary of \<open>protocol.rs\<close>: \<open>ErrorCode\<close> with its wire names and static
  messages, \<open>CoreError\<close>, \<open>ValidationError\<close> with the conversion between them, and
  \<open>ErrorPayload\<close> with its hand-written serialisation. Constructors of \<open>ErrorCode\<close> keep the
  source's names; those of \<open>ValidationError\<close> carry the prefix \<open>Ve\<close>.
\<close>

datatype error_code =
    UnsupportedServer
  | HandleUnknown
  | HandleLimit
  | DatabaseUnknown
  | DatabaseMismatch
  | ConfigError
  | QueueFull
  | ServerStopping
  | SchemaRequired
  | SchemaLimit
  | TxAlreadyOpen
  | NoTxOpen
  | TxFailed
  | ActiveTransaction
  | InvalidInput
  | DatabaseError
  | ResultLimit
  | CopyUnsupported
  | Cancelled
  | DeadlineExceeded
  | ConnectionLost
  | CommitOutcomeUnknown
  | CleanupUncertain
  | Internal

text \<open>\<open>ErrorCode::ALL\<close>, the wire code and the message of each.\<close>

definition all_error_codes :: "error_code list" where
  "all_error_codes = [UnsupportedServer, HandleUnknown, HandleLimit, DatabaseUnknown,
     DatabaseMismatch, ConfigError, QueueFull, ServerStopping,
     SchemaRequired, SchemaLimit, TxAlreadyOpen, NoTxOpen,
     TxFailed, ActiveTransaction, InvalidInput, DatabaseError,
     ResultLimit, CopyUnsupported, Cancelled, DeadlineExceeded,
     ConnectionLost, CommitOutcomeUnknown, CleanupUncertain, Internal]"

fun code :: "error_code \<Rightarrow> string" where
  "code UnsupportedServer = ''UNSUPPORTED_SERVER''"
| "code HandleUnknown = ''HANDLE_UNKNOWN''"
| "code HandleLimit = ''HANDLE_LIMIT''"
| "code DatabaseUnknown = ''DATABASE_UNKNOWN''"
| "code DatabaseMismatch = ''DATABASE_MISMATCH''"
| "code ConfigError = ''CONFIG_ERROR''"
| "code QueueFull = ''QUEUE_FULL''"
| "code ServerStopping = ''SERVER_STOPPING''"
| "code SchemaRequired = ''SCHEMA_REQUIRED''"
| "code SchemaLimit = ''SCHEMA_LIMIT''"
| "code TxAlreadyOpen = ''TX_ALREADY_OPEN''"
| "code NoTxOpen = ''NO_TX_OPEN''"
| "code TxFailed = ''TX_FAILED''"
| "code ActiveTransaction = ''ACTIVE_TRANSACTION''"
| "code InvalidInput = ''INVALID_INPUT''"
| "code DatabaseError = ''DATABASE_ERROR''"
| "code ResultLimit = ''RESULT_LIMIT''"
| "code CopyUnsupported = ''COPY_UNSUPPORTED''"
| "code Cancelled = ''CANCELLED''"
| "code DeadlineExceeded = ''DEADLINE_EXCEEDED''"
| "code ConnectionLost = ''CONNECTION_LOST''"
| "code CommitOutcomeUnknown = ''COMMIT_OUTCOME_UNKNOWN''"
| "code CleanupUncertain = ''CLEANUP_UNCERTAIN''"
| "code Internal = ''INTERNAL''"

fun message :: "error_code \<Rightarrow> string" where
  "message UnsupportedServer = ''PostgreSQL server 12 or newer is required.''"
| "message HandleUnknown = ''Unknown handle.''"
| "message HandleLimit = ''Handle limit reached.''"
| "message DatabaseUnknown = ''Database is not configured.''"
| "message DatabaseMismatch = ''Connected database does not match configuration.''"
| "message ConfigError = ''Invalid server configuration.''"
| "message QueueFull = ''Request queue is full.''"
| "message ServerStopping = ''Server is stopping.''"
| "message SchemaRequired = ''Inspect schema before opening a transaction.''"
| "message SchemaLimit = ''Schema response exceeds configured limits.''"
| "message TxAlreadyOpen = ''A transaction is already open.''"
| "message NoTxOpen = ''No transaction is open.''"
| "message TxFailed = ''Transaction failed; roll back before continuing.''"
| "message ActiveTransaction = ''Resolve the transaction before closing this handle.''"
| "message InvalidInput = ''Invalid query or parameters.''"
| "message DatabaseError = ''PostgreSQL rejected the operation.''"
| "message ResultLimit =
     ''Result exceeds configured limits; execution may have taken effect.''"
| "message CopyUnsupported = ''COPY streaming is unsupported; connection disposed.''"
| "message Cancelled = ''Request cancelled; execution may have taken effect.''"
| "message DeadlineExceeded =
     ''Request deadline exceeded; execution may have taken effect.''"
| "message ConnectionLost = ''Connection lost; operation outcome may be unknown.''"
| "message CommitOutcomeUnknown =
     ''Commit outcome is unknown; do not retry automatically.''"
| "message CleanupUncertain = ''Cleanup could not be verified.''"
| "message Internal = ''Internal adapter failure.''"

record core_error =
  ce_code :: error_code
  ce_outcome_unknown :: bool

definition core_error :: "error_code \<Rightarrow> core_error" where
  "core_error c = \<lparr>ce_code = c, ce_outcome_unknown = False\<rparr>"

definition core_error_unknown :: "error_code \<Rightarrow> core_error" where
  "core_error_unknown c = \<lparr>ce_code = c, ce_outcome_unknown = True\<rparr>"

datatype validation_error =
    VeInvalidEnvelope
  | VeInconsistentState
  | VeInvalidMove
  | VeStaticErrorMessage
  | VeInvalidSqlState
  | VeEmbeddedNul
  | VeInvalidQuery
  | VeParameterCountLimit
  | VeParameterByteLimit
  | VeInvalidAffectedRows
  | VeInvalidResultShape
  | VeResultLimit
  | VeSchemaLimit
  | VeSerialization string

text \<open>\<open>Display\<close> of a validation error.\<close>

fun validation_text :: "validation_error \<Rightarrow> string" where
  "validation_text VeInvalidEnvelope =
     ''invalid envelope''"
| "validation_text VeInconsistentState =
     ''inconsistent handle state''"
| "validation_text VeInvalidMove =
     ''invalid lifecycle move''"
| "validation_text VeStaticErrorMessage =
     ''error message is not the checked-in static template''"
| "validation_text VeInvalidSqlState =
     ''SQLSTATE must be exactly five ASCII alphanumeric characters''"
| "validation_text VeEmbeddedNul =
     ''parameter contains an embedded NUL''"
| "validation_text VeInvalidQuery =
     ''query must contain non-empty UTF-8 SQL within the configured byte limit''"
| "validation_text VeParameterCountLimit =
     ''parameter count exceeds the configured limit''"
| "validation_text VeParameterByteLimit =
     ''parameter byte total exceeds the configured limit''"
| "validation_text VeInvalidAffectedRows =
     ''result affected_rows is not decimal text''"
| "validation_text VeInvalidResultShape =
     ''result rows do not match the column count''"
| "validation_text VeResultLimit =
     ''result exceeds configured limits''"
| "validation_text VeSchemaLimit =
     ''schema response exceeds configured limits''"
| "validation_text (VeSerialization e) = ''JSON serialization failed: '' @ e"

definition core_error_of_validation :: "validation_error \<Rightarrow> core_error" where
  "core_error_of_validation e = core_error (case e of
     VeSchemaLimit \<Rightarrow> SchemaLimit
   | VeParameterCountLimit \<Rightarrow> ResultLimit
   | VeParameterByteLimit \<Rightarrow> ResultLimit
   | VeResultLimit \<Rightarrow> ResultLimit
   | _ \<Rightarrow> InvalidInput)"

section \<open>Wire form of a code\<close>

definition en_error_code :: "error_code \<Rightarrow> json" where
  "en_error_code c = JString (code c)"

definition de_error_code :: "error_code decoder" where
  "de_error_code = de_enum (map (\<lambda>c. (code c, c)) all_error_codes)"

lemma all_error_codes_complete [simp]: "c \<in> set all_error_codes"
  by (cases c) (simp_all add: all_error_codes_def)

lemma distinct_codes: "distinct (map code all_error_codes)"
  by (simp add: all_error_codes_def)

interpretation error_code_codec: nonnull_codec en_error_code de_error_code "\<lambda>_. True"
proof unfold_locales
  fix c :: error_code
  show "de_error_code (en_error_code c) = Ok c"
    unfolding de_error_code_def en_error_code_def
    by (rule de_enum_round_trip) (simp_all add: comp_def distinct_codes)
qed (simp add: en_error_code_def)

section \<open>ErrorPayload\<close>

datatype transaction_outcome = OutcomeUnknown

record error_payload =
  ep_code :: error_code
  ep_message :: string
  ep_sqlstate :: "string option"
  ep_transaction_outcome :: "transaction_outcome option"

definition validate_sqlstate :: "string option \<Rightarrow> validation_error + unit" where
  "validate_sqlstate value = (case value of
     None \<Rightarrow> Ok ()
   | Some state \<Rightarrow>
       if length state \<noteq> 5 \<or> \<not> list_all is_ascii_alphanumeric state
       then Err VeInvalidSqlState else Ok ())"

definition error_payload :: "error_code \<Rightarrow> error_payload" where
  "error_payload c = \<lparr>ep_code = c, ep_message = message c, ep_sqlstate = None,
     ep_transaction_outcome = None\<rparr>"

definition try_with_sqlstate ::
  "string option \<Rightarrow> error_payload \<Rightarrow> validation_error + error_payload" where
  "try_with_sqlstate sqlstate p =
     (let p = p\<lparr>ep_sqlstate := sqlstate\<rparr>
      in and_then (validate_sqlstate (ep_sqlstate p)) (\<lambda>_. Ok p))"

definition with_unknown_outcome :: "error_payload \<Rightarrow> error_payload" where
  "with_unknown_outcome p = p\<lparr>ep_transaction_outcome := Some OutcomeUnknown\<rparr>"

definition is_outcome_unknown :: "error_payload \<Rightarrow> bool" where
  "is_outcome_unknown p \<longleftrightarrow> ep_transaction_outcome p = Some OutcomeUnknown"

definition error_payload_validate :: "error_payload \<Rightarrow> validation_error + unit" where
  "error_payload_validate p =
     (if ep_message p \<noteq> message (ep_code p) then Err VeStaticErrorMessage
      else validate_sqlstate (ep_sqlstate p))"

definition en_outcome :: "transaction_outcome \<Rightarrow> json" where
  "en_outcome x = JString ''unknown''"

definition de_outcome :: "transaction_outcome decoder" where
  "de_outcome = de_enum [(''unknown'', OutcomeUnknown)]"

interpretation outcome_codec: nonnull_codec en_outcome de_outcome "\<lambda>_. True"
proof unfold_locales
  fix x :: transaction_outcome
  show "de_outcome (en_outcome x) = Ok x"
    by (cases x) (simp add: de_outcome_def en_outcome_def de_enum_def)
qed (simp add: en_outcome_def)

definition en_error_payload :: "error_payload \<Rightarrow> json" where
  "en_error_payload p = JObject [
     (''code'', en_error_code (ep_code p)),
     (''message'', JString (message (ep_code p))),
     (''sqlstate'', en_option JString (ep_sqlstate p)),
     (''transaction_outcome'', en_option en_outcome (ep_transaction_outcome p))]"

definition de_error_payload :: "error_payload decoder" where
  "de_error_payload v =
     and_then (as_object ''error payload must be an object'' v) (\<lambda>object.
     and_then (exact_object_keys object
       [''code'', ''message'', ''sqlstate'', ''transaction_outcome'']) (\<lambda>_.
     and_then (decode_value de_error_code object ''code'') (\<lambda>c.
     and_then (decode_value de_string object ''message'') (\<lambda>msg.
     and_then (decode_value (de_option de_string) object ''sqlstate'') (\<lambda>sqlstate.
     and_then (decode_value (de_option de_outcome) object ''transaction_outcome'') (\<lambda>outcome.
     if msg \<noteq> message c
     then Err (DeText ''error message does not match its static code template'')
     else and_then (map_err (\<lambda>e. DeText (validation_text e)) (validate_sqlstate sqlstate)) (\<lambda>_.
          Ok \<lparr>ep_code = c, ep_message = msg, ep_sqlstate = sqlstate,
              ep_transaction_outcome = outcome\<rparr>)))))))"

definition payload_ok :: "error_payload \<Rightarrow> bool" where
  "payload_ok p \<longleftrightarrow> is_ok (error_payload_validate p)"

interpretation payload_codec: nonnull_codec en_error_payload de_error_payload payload_ok
proof unfold_locales
  fix p
  assume "payload_ok p"
  then have p: "ep_message p = message (ep_code p)" "validate_sqlstate (ep_sqlstate p) = Ok ()"
    by (auto simp: payload_ok_def error_payload_validate_def is_ok_iff split: if_splits)
  have "de_option de_string (en_option JString (ep_sqlstate p)) = Ok (ep_sqlstate p)"
    by (rule string_codec.option_round_trip) (simp add: option.pred_True)
  moreover have "de_option de_outcome (en_option en_outcome (ep_transaction_outcome p))
      = Ok (ep_transaction_outcome p)"
    by (rule outcome_codec.option_round_trip) (simp add: option.pred_True)
  ultimately show "de_error_payload (en_error_payload p) = Ok p"
    using p error_code_codec.dec_enc[of "ep_code p"] string_codec.dec_enc[of "ep_message p"]
    by (simp add: de_error_payload_def en_error_payload_def as_object_def exact_object_keys_def
        require_keys_def allowed_object_keys_def decode_value_def required_value_def)
qed (simp add: en_error_payload_def)

lemma payload_ok_iff:
  "payload_ok p \<longleftrightarrow> ep_message p = message (ep_code p) \<and> is_ok (validate_sqlstate (ep_sqlstate p))"
  by (simp add: payload_ok_def error_payload_validate_def)

lemma error_payload_ok [simp]: "payload_ok (error_payload c)"
  by (simp add: payload_ok_iff error_payload_def validate_sqlstate_def)

lemma with_unknown_outcome_ok [simp]: "payload_ok (with_unknown_outcome p) = payload_ok p"
  by (simp add: payload_ok_iff with_unknown_outcome_def)

lemma try_with_sqlstate_ok: "try_with_sqlstate s p = Ok q \<Longrightarrow> payload_ok p \<Longrightarrow> payload_ok q"
  by (auto simp: try_with_sqlstate_def Let_def payload_ok_iff)

lemma de_error_payload_ok:
  assumes "de_error_payload v = Ok p"
  shows "payload_ok p"
proof -
  from assms obtain c msg s x where
    c: "(if msg \<noteq> message c
      then Err (DeText ''error message does not match its static code template'')
      else and_then (map_err (\<lambda>e. DeText (validation_text e)) (validate_sqlstate s)) (\<lambda>_.
           Ok \<lparr>ep_code = c, ep_message = msg, ep_sqlstate = s, ep_transaction_outcome = x\<rparr>)) = Ok p"
    unfolding de_error_payload_def and_then_Ok_iff by blast
  then show ?thesis
    by (cases "msg = message c") (auto simp: payload_ok_iff is_ok_iff)
qed

section \<open>Properties\<close>

text \<open>
  The error vocabulary is closed and unambiguous on the wire: all 24 codes are listed, their
  wire codes are pairwise distinct, and decoding a wire code gives the code back.
\<close>

theorem error_codes_closed:
  "length all_error_codes = 24 \<and> distinct all_error_codes \<and>
   distinct (map code all_error_codes) \<and> (\<forall>c. c \<in> set all_error_codes) \<and>
   (\<forall>c. de_error_code (en_error_code c) = Ok c)"
proof (intro conjI allI)
  show "distinct all_error_codes" using distinct_codes by (simp add: distinct_map)
  show "length all_error_codes = 24" by (simp add: all_error_codes_def)
qed (simp_all add: distinct_codes error_code_codec.dec_enc)

text \<open>
  Whatever JSON is decoded as an error payload, a success is a valid payload: its message is
  the static text of its code and its SQLSTATE, when present, is five ASCII alphanumerics.
\<close>

theorem decoded_error_payload_valid:
  "pred_option payload_ok
     (case de_error_payload v of Inl _ \<Rightarrow> None | Inr p \<Rightarrow> Some p)"
proof (cases "de_error_payload v")
  case (Inr p)
  then show ?thesis by (simp add: de_error_payload_ok)
qed simp

end
