(* ===== verification/Handle_State.thy ===== *)
theory Handle_State
  imports Errors
begin

text \<open>
  \<open>HandleState\<close>, \<open>Move\<close> and the lifecycle guidance of \<open>protocol.rs\<close>: the snapshot a worker
  publishes of its handle, its invariant (\<open>HandleState::validate\<close>), and \<open>moves_for_state\<close>, the
  tools the envelope recommends in that state.
\<close>

datatype connection_status = CsOk | CsBad | CsClosed
datatype transaction_status = TsIdle | TsActive | TsInTransaction | TsInError | TsUnknown

fun ts_open :: "transaction_status \<Rightarrow> bool option" where
  "ts_open TsIdle = Some False"
| "ts_open TsInTransaction = Some True"
| "ts_open TsInError = Some True"
| "ts_open TsActive = None"
| "ts_open TsUnknown = None"

definition is_idle :: "transaction_status \<Rightarrow> bool" where
  "is_idle ts \<longleftrightarrow> ts = TsIdle"

definition is_transaction_open :: "transaction_status \<Rightarrow> bool" where
  "is_transaction_open ts \<longleftrightarrow> ts = TsInTransaction \<or> ts = TsInError"

record handle_state =
  hs_handle :: string
  hs_database :: string
  hs_connection :: connection_status
  hs_transaction :: transaction_status
  hs_open :: "bool option"
  hs_busy :: bool
  hs_schema_observed :: bool

definition handle_state_new ::
  "string \<Rightarrow> string \<Rightarrow> connection_status \<Rightarrow> transaction_status \<Rightarrow> bool \<Rightarrow> bool \<Rightarrow> handle_state" where
  "handle_state_new handle database cs ts busy schema_observed = \<lparr>
     hs_handle = handle, hs_database = database, hs_connection = cs, hs_transaction = ts,
     hs_open = ts_open ts, hs_busy = busy, hs_schema_observed = schema_observed\<rparr>"

definition handle_state_idle :: "string \<Rightarrow> string \<Rightarrow> bool \<Rightarrow> handle_state" where
  "handle_state_idle handle database schema_observed =
     handle_state_new handle database CsOk TsIdle False schema_observed"

definition handle_state_closed :: "string \<Rightarrow> string \<Rightarrow> handle_state" where
  "handle_state_closed handle database = \<lparr>
     hs_handle = handle, hs_database = database, hs_connection = CsClosed,
     hs_transaction = TsUnknown, hs_open = None, hs_busy = False, hs_schema_observed = False\<rparr>"

definition handle_state_validate :: "handle_state \<Rightarrow> validation_error + unit" where
  "handle_state_validate s =
     (if hs_open s \<noteq> ts_open (hs_transaction s) then Err VeInconsistentState
      else if hs_connection s = CsClosed \<and>
        (hs_transaction s \<noteq> TsUnknown \<or> hs_open s \<noteq> None \<or> hs_busy s \<or> hs_schema_observed s)
      then Err VeInconsistentState
      else Ok ())"

definition state_ok :: "handle_state \<Rightarrow> bool" where
  "state_ok s \<longleftrightarrow> is_ok (handle_state_validate s)"

lemma handle_state_validate_Ok [simp]: "handle_state_validate s = Ok u \<longleftrightarrow> state_ok s"
  by (simp add: state_ok_def is_ok_iff)

lemma state_ok_iff:
  "state_ok s \<longleftrightarrow> hs_open s = ts_open (hs_transaction s) \<and>
     (hs_connection s = CsClosed \<longrightarrow>
        hs_transaction s = TsUnknown \<and> \<not> hs_busy s \<and> \<not> hs_schema_observed s)"
  by (auto simp: state_ok_def handle_state_validate_def)

lemma handle_state_new_ok [simp]:
  "cs \<noteq> CsClosed \<Longrightarrow> state_ok (handle_state_new h d cs ts b so)"
  by (simp add: state_ok_iff handle_state_new_def)

lemma handle_state_idle_ok [simp]: "state_ok (handle_state_idle h d so)"
  by (simp add: handle_state_idle_def)

lemma handle_state_closed_ok [simp]: "state_ok (handle_state_closed h d)"
  by (simp add: state_ok_iff handle_state_closed_def)

section \<open>Moves\<close>

record move =
  mv_tool :: string
  mv_arguments :: json
  mv_guidance :: string

definition move_validate :: "move \<Rightarrow> validation_error + unit" where
  "move_validate m = (case mv_arguments m of
     JObject object \<Rightarrow>
       if mv_tool m = [] \<or> mv_guidance m = [] then Err VeInvalidMove
       else if list_ex (\<lambda>key. key \<noteq> ''handle'') (map fst object) \<or>
         (mv_tool m \<noteq> ''list_handles'' \<and> mv_tool m \<noteq> ''open_database'' \<and>
          (case map_of object ''handle'' of Some (JString _) \<Rightarrow> False | _ \<Rightarrow> True))
       then Err VeInvalidMove
       else Ok ()
   | _ \<Rightarrow> Err VeInvalidMove)"

definition for_handle :: "string \<Rightarrow> string \<Rightarrow> string \<Rightarrow> move" where
  "for_handle tool handle guidance = \<lparr>mv_tool = tool,
     mv_arguments = JObject [(''handle'', JString handle)], mv_guidance = guidance\<rparr>"

definition process_move :: "string \<Rightarrow> string \<Rightarrow> move" where
  "process_move tool guidance =
     \<lparr>mv_tool = tool, mv_arguments = JObject [], mv_guidance = guidance\<rparr>"

definition handle_argument :: "move \<Rightarrow> string option" where
  "handle_argument m = (case json_get ''handle'' (mv_arguments m) of
     Some (JString s) \<Rightarrow> Some s | _ \<Rightarrow> None)"

definition query_guidance :: string where
  "query_guidance = ''Provide SQL and parameters; do not replay a failed statement blindly.''"
definition schema_guidance :: string where
  "schema_guidance = ''Inspect schema before opening a transaction.''"
definition open_read_guidance :: string where
  "open_read_guidance = ''Start a PostgreSQL read-only transaction.''"
definition open_write_guidance :: string where
  "open_write_guidance = ''Start a PostgreSQL read-write transaction.''"
definition commit_guidance :: string where
  "commit_guidance = ''Commit the current transaction.''"
definition rollback_guidance :: string where
  "rollback_guidance = ''Roll back the current transaction.''"
definition close_guidance :: string where
  "close_guidance = ''Dispose this handle locally.''"
definition inerror_rollback_guidance :: string where
  "inerror_rollback_guidance = ''Transaction failed; roll back before continuing.''"
definition unknown_close_guidance :: string where
  "unknown_close_guidance =
     ''Connection unusable; dispose locally. Transaction outcome may be unknown.''"

lemmas guidance_defs = query_guidance_def schema_guidance_def open_read_guidance_def
  open_write_guidance_def commit_guidance_def rollback_guidance_def close_guidance_def
  inerror_rollback_guidance_def unknown_close_guidance_def

definition moves_for_state :: "handle_state \<Rightarrow> bool \<Rightarrow> validation_error + move list" where
  "moves_for_state s close_refusal =
     and_then (handle_state_validate s) (\<lambda>_.
     let h = hs_handle s in
     if hs_connection s = CsClosed then Ok []
     else if hs_connection s = CsBad \<or> hs_transaction s = TsUnknown then
       Ok [for_handle ''close_database'' h unknown_close_guidance]
     else if hs_busy s \<or> hs_transaction s = TsActive then Ok []
     else case hs_transaction s of
       TsInError \<Rightarrow> Ok [for_handle ''rollback'' h inerror_rollback_guidance]
     | TsInTransaction \<Rightarrow>
         if close_refusal then
           Ok [for_handle ''commit'' h commit_guidance,
               for_handle ''rollback'' h rollback_guidance]
         else
           Ok [for_handle ''query'' h query_guidance,
               for_handle ''commit'' h commit_guidance,
               for_handle ''rollback'' h rollback_guidance]
     | TsIdle \<Rightarrow>
         if hs_schema_observed s then
           Ok [for_handle ''open_read'' h open_read_guidance,
               for_handle ''open_write'' h open_write_guidance,
               for_handle ''get_schema'' h schema_guidance,
               for_handle ''close_database'' h close_guidance]
         else
           Ok [for_handle ''get_schema'' h schema_guidance,
               for_handle ''close_database'' h close_guidance]
     | _ \<Rightarrow> Ok [])"

definition unwrap_or_default :: "'e + 'a list \<Rightarrow> 'a list" where
  "unwrap_or_default r = (case r of Inl _ \<Rightarrow> [] | Inr xs \<Rightarrow> xs)"

definition next_moves :: "handle_state \<Rightarrow> move list" where
  "next_moves s = unwrap_or_default (moves_for_state s False)"

definition close_refusal_moves :: "handle_state \<Rightarrow> move list" where
  "close_refusal_moves s = unwrap_or_default (moves_for_state s True)"

definition process_moves :: "move list" where
  "process_moves = []"

lemma for_handle_valid: "tool \<noteq> [] \<Longrightarrow> guidance \<noteq> [] \<Longrightarrow> move_validate (for_handle tool h guidance) = Ok ()"
  by (simp add: move_validate_def for_handle_def)

lemma for_handle_argument [simp]: "handle_argument (for_handle tool h guidance) = Some h"
  by (simp add: handle_argument_def for_handle_def json_get_def)

lemma for_handle_tool [simp]: "mv_tool (for_handle tool h guidance) = tool"
  by (simp add: for_handle_def)

text \<open>Every recommended move is a move on the state's own handle, with a tool and guidance.\<close>

definition is_handle_move :: "string \<Rightarrow> move \<Rightarrow> bool" where
  "is_handle_move h m \<longleftrightarrow>
     m = for_handle (mv_tool m) h (mv_guidance m) \<and> mv_tool m \<noteq> [] \<and> mv_guidance m \<noteq> []"

lemma is_handle_move_for_handle [simp]:
  "is_handle_move h (for_handle tool h guidance) \<longleftrightarrow> tool \<noteq> [] \<and> guidance \<noteq> []"
  by (simp add: is_handle_move_def for_handle_def)

lemma is_handle_move_valid: "is_handle_move h m \<Longrightarrow> move_validate m = Ok ()"
  by (metis for_handle_valid is_handle_move_def)

lemma moves_for_state_shape:
  "moves_for_state s refusal = Ok ms \<Longrightarrow> list_all (is_handle_move (hs_handle s)) ms"
  by (auto simp: moves_for_state_def Let_def guidance_defs split: if_splits transaction_status.splits)

lemma next_moves_shape: "list_all (is_handle_move (hs_handle s)) (next_moves s)"
  using moves_for_state_shape[of s False]
  by (cases "moves_for_state s False") (simp_all add: next_moves_def unwrap_or_default_def)

lemma next_moves_valid: "m \<in> set (next_moves s) \<Longrightarrow> move_validate m = Ok ()"
  using next_moves_shape[of s] by (auto simp: list_all_iff intro: is_handle_move_valid)

lemma next_moves_inconsistent: "\<not> state_ok s \<Longrightarrow> next_moves s = []"
  by (auto simp: next_moves_def unwrap_or_default_def moves_for_state_def state_ok_def not_is_ok_iff)

section \<open>Wire form\<close>

definition connection_names :: "(string \<times> connection_status) list" where
  "connection_names = [(''ok'', CsOk), (''bad'', CsBad), (''closed'', CsClosed)]"

definition transaction_names :: "(string \<times> transaction_status) list" where
  "transaction_names = [(''idle'', TsIdle), (''active'', TsActive),
     (''in_transaction'', TsInTransaction), (''in_error'', TsInError), (''unknown'', TsUnknown)]"

text \<open>The name of a variant.\<close>

definition name_of :: "(string \<times> 'a) list \<Rightarrow> 'a \<Rightarrow> string" where
  "name_of variants a =
     (case find (\<lambda>e. snd e = a) variants of Some e \<Rightarrow> fst e | None \<Rightarrow> [])"

definition en_enum :: "(string \<times> 'a) list \<Rightarrow> 'a \<Rightarrow> json" where
  "en_enum variants a = JString (name_of variants a)"

lemma en_enum_round_trip:
  assumes "distinct (map fst variants)" and "a \<in> snd ` set variants"
  shows "de_enum variants (en_enum variants a) = Ok a"
proof (cases "find (\<lambda>e. snd e = a) variants")
  case None
  with assms(2) show ?thesis by (auto simp: find_None_iff)
next
  case (Some e)
  with find_holds[OF Some] assms(1) show ?thesis
    unfolding en_enum_def name_of_def by (cases e) (auto intro: de_enum_round_trip)
qed

definition en_handle_state :: "handle_state \<Rightarrow> json" where
  "en_handle_state s = JObject [
     (''handle'', JString (hs_handle s)),
     (''database'', JString (hs_database s)),
     (''connection_status'', en_enum connection_names (hs_connection s)),
     (''transaction_status'', en_enum transaction_names (hs_transaction s)),
     (''transaction_open'', en_option JBool (hs_open s)),
     (''busy'', JBool (hs_busy s)),
     (''schema_observed'', JBool (hs_schema_observed s))]"

definition de_handle_state :: "handle_state decoder" where
  "de_handle_state v =
     and_then (de_struct 7 [''handle'', ''database'', ''connection_status'',
       ''transaction_status'', ''transaction_open'', ''busy'', ''schema_observed''] v) (\<lambda>obj.
     and_then (de_field de_string obj ''handle'') (\<lambda>h.
     and_then (de_field de_string obj ''database'') (\<lambda>d.
     and_then (de_field (de_enum connection_names) obj ''connection_status'') (\<lambda>cs.
     and_then (de_field (de_enum transaction_names) obj ''transaction_status'') (\<lambda>ts.
     and_then (de_field_or None (de_option de_bool) obj ''transaction_open'') (\<lambda>open.
     and_then (de_field de_bool obj ''busy'') (\<lambda>busy.
     and_then (de_field de_bool obj ''schema_observed'') (\<lambda>so.
     Ok \<lparr>hs_handle = h, hs_database = d, hs_connection = cs, hs_transaction = ts,
         hs_open = open, hs_busy = busy, hs_schema_observed = so\<rparr>))))))))"

lemma connection_round_trip [simp]:
  "de_enum connection_names (en_enum connection_names c) = Ok c"
  by (rule en_enum_round_trip) (cases c; simp add: connection_names_def)+

lemma transaction_round_trip [simp]:
  "de_enum transaction_names (en_enum transaction_names t) = Ok t"
  by (rule en_enum_round_trip) (cases t; simp add: transaction_names_def)+

interpretation state_codec: nonnull_codec en_handle_state de_handle_state "\<lambda>_. True"
proof unfold_locales
  fix s :: handle_state
  have "de_option de_bool (en_option JBool (hs_open s)) = Ok (hs_open s)"
    by (rule bool_codec.option_round_trip) (simp add: option.pred_True)
  then show "de_handle_state (en_handle_state s) = Ok s"
    by (simp add: de_handle_state_def en_handle_state_def de_struct_def de_field_def
        de_field_or_def string_codec.dec_enc bool_codec.dec_enc)
qed (simp add: en_handle_state_def)

definition en_move :: "move \<Rightarrow> json" where
  "en_move m = JObject [(''tool'', JString (mv_tool m)), (''arguments'', mv_arguments m),
     (''guidance'', JString (mv_guidance m))]"

definition de_move :: "move decoder" where
  "de_move v =
     and_then (de_struct 3 [''tool'', ''arguments'', ''guidance''] v) (\<lambda>obj.
     and_then (de_field de_string obj ''tool'') (\<lambda>tool.
     and_then (de_field Ok obj ''arguments'') (\<lambda>arguments.
     and_then (de_field de_string obj ''guidance'') (\<lambda>guidance.
     Ok \<lparr>mv_tool = tool, mv_arguments = arguments, mv_guidance = guidance\<rparr>))))"

interpretation move_codec: nonnull_codec en_move de_move "\<lambda>_. True"
  by unfold_locales
    (simp_all add: de_move_def en_move_def de_struct_def de_field_def string_codec.dec_enc)

end
