(* ===== verification/Envelope.thy ===== *)
theory Envelope
  imports Handle_State
begin

text \<open>
  The version-1 envelope of \<open>protocol.rs\<close>: its constructors, \<open>validate\<close>, the hand-written
  serialisation and deserialisation, and \<open>handle_state_envelope\<close> and \<open>error_envelope\<close>, the two
  ways the tools build one. The type of the result is a parameter with its encoder and decoder.
\<close>

definition envelope_version :: "8 word" where
  "envelope_version = 1"

record 'r envelope =
  env_version :: "8 word"
  env_handle_state :: "handle_state option"
  env_next_moves :: "move list"
  env_result :: "'r option"
  env_error :: "error_payload option"

definition envelope_success :: "handle_state option \<Rightarrow> move list \<Rightarrow> 'r \<Rightarrow> 'r envelope" where
  "envelope_success hs moves r = \<lparr>env_version = envelope_version, env_handle_state = hs,
     env_next_moves = moves, env_result = Some r, env_error = None\<rparr>"

definition envelope_failure ::
  "handle_state option \<Rightarrow> move list \<Rightarrow> error_payload \<Rightarrow> 'r envelope" where
  "envelope_failure hs moves e = \<lparr>env_version = envelope_version, env_handle_state = hs,
     env_next_moves = moves, env_result = None, env_error = Some e\<rparr>"

definition envelope_is_error :: "'r envelope \<Rightarrow> bool" where
  "envelope_is_error e \<longleftrightarrow> env_error e \<noteq> None"

definition when_some :: "('a \<Rightarrow> 'e + unit) \<Rightarrow> 'a option \<Rightarrow> 'e + unit" where
  "when_some f x = (case x of None \<Rightarrow> Ok () | Some a \<Rightarrow> f a)"

definition envelope_validate :: "'r envelope \<Rightarrow> validation_error + unit" where
  "envelope_validate e =
     (if env_version e \<noteq> envelope_version \<or> (env_result e \<noteq> None) = (env_error e \<noteq> None)
      then Err VeInvalidEnvelope
      else
        and_then (when_some handle_state_validate (env_handle_state e)) (\<lambda>_.
        and_then (for_each (\<lambda>m _. move_validate m) (env_next_moves e) ()) (\<lambda>_.
        when_some error_payload_validate (env_error e))))"

definition envelope_ok :: "'r envelope \<Rightarrow> bool" where
  "envelope_ok e \<longleftrightarrow> is_ok (envelope_validate e)"

definition handle_state_envelope :: "handle_state option \<Rightarrow> 'r \<Rightarrow> 'r envelope" where
  "handle_state_envelope hs r =
     envelope_success hs (case hs of None \<Rightarrow> process_moves | Some s \<Rightarrow> next_moves s) r"

definition error_envelope_with_sqlstate ::
  "handle_state option \<Rightarrow> core_error \<Rightarrow> bool \<Rightarrow> string option \<Rightarrow> 'r envelope" where
  "error_envelope_with_sqlstate hs error outcome_unknown sqlstate =
     (let payload = (case try_with_sqlstate sqlstate (error_payload (ce_code error)) of
            Inr p \<Rightarrow> p | Inl _ \<Rightarrow> error_payload (ce_code error));
          payload = (if outcome_unknown \<or> ce_outcome_unknown error
            then with_unknown_outcome payload else payload);
          moves = (case hs of None \<Rightarrow> process_moves | Some s \<Rightarrow> next_moves s)
      in envelope_failure hs moves payload)"

definition error_envelope :: "handle_state option \<Rightarrow> core_error \<Rightarrow> bool \<Rightarrow> 'r envelope" where
  "error_envelope hs error outcome_unknown =
     error_envelope_with_sqlstate hs error outcome_unknown None"

section \<open>Wire form\<close>

definition en_envelope :: "('r \<Rightarrow> json) \<Rightarrow> 'r envelope \<Rightarrow> validation_error + json" where
  "en_envelope enc e =
     and_then (envelope_validate e) (\<lambda>_.
     Ok (JObject (
       [(''envelope_version'', en_uint (env_version e)),
        (''handle_state'', en_option en_handle_state (env_handle_state e)),
        (''next_moves'', en_list en_move (env_next_moves e))] @
       (case env_result e of
          Some r \<Rightarrow> [(''result'', enc r)]
        | None \<Rightarrow> (case env_error e of
            Some p \<Rightarrow> [(''error'', en_error_payload p)] | None \<Rightarrow> [])))))"

definition is_some_not_null :: "json option \<Rightarrow> bool" where
  "is_some_not_null x \<longleftrightarrow> x \<noteq> None \<and> x \<noteq> Some JNull"

definition validated :: "'r envelope \<Rightarrow> decode_error + 'r envelope" where
  "validated e =
     and_then (map_err (\<lambda>v. DeText (validation_text v)) (envelope_validate e)) (\<lambda>_. Ok e)"

definition de_envelope :: "'r decoder \<Rightarrow> 'r envelope decoder" where
  "de_envelope dec value =
     and_then (as_object ''envelope must be an object'' value) (\<lambda>object.
     and_then (require_keys object [''envelope_version'', ''handle_state'', ''next_moves'']) (\<lambda>_.
     and_then (allowed_object_keys object
       [''envelope_version'', ''handle_state'', ''next_moves'', ''result'', ''error'']) (\<lambda>_.
     and_then (decode_value de_uint object ''envelope_version'') (\<lambda>version.
     and_then (decode_value (de_option de_handle_state) object ''handle_state'') (\<lambda>hs.
     and_then (decode_value (de_list de_move) object ''next_moves'') (\<lambda>moves.
     let result_value = map_of object ''result''; error_value = map_of object ''error'' in
     if is_some_not_null result_value \<and> \<not> is_some_not_null error_value then
       and_then (dec (the result_value)) (\<lambda>r.
       validated \<lparr>env_version = version, env_handle_state = hs, env_next_moves = moves,
         env_result = Some r, env_error = None\<rparr>)
     else if \<not> is_some_not_null result_value \<and> is_some_not_null error_value then
       and_then (de_error_payload (the error_value)) (\<lambda>p.
       validated \<lparr>env_version = version, env_handle_state = hs, env_next_moves = moves,
         env_result = None, env_error = Some p\<rparr>)
     else Err (DeText ''envelope must contain exactly one result or error'')))))))"

section \<open>Lemmas\<close>

lemma for_each_unit_Ok [simp]:
  "for_each (\<lambda>m _. f m) xs () = Ok u \<longleftrightarrow> (\<forall>x \<in> set xs. f x = Ok ())"
  by (induction xs) auto

lemma when_some_Ok [simp]: "when_some f x = Ok u \<longleftrightarrow> pred_option (\<lambda>a. f a = Ok ()) x"
  by (cases x) (simp_all add: when_some_def)

lemma error_payload_validate_Ok [simp]: "error_payload_validate p = Ok u \<longleftrightarrow> payload_ok p"
  by (simp add: payload_ok_def is_ok_iff)

lemma envelope_ok_iff:
  "envelope_ok e \<longleftrightarrow> env_version e = envelope_version \<and>
     (env_result e \<noteq> None) \<noteq> (env_error e \<noteq> None) \<and>
     pred_option state_ok (env_handle_state e) \<and>
     (\<forall>m \<in> set (env_next_moves e). move_validate m = Ok ()) \<and>
     pred_option payload_ok (env_error e)"
  by (auto simp: envelope_ok_def is_ok_iff envelope_validate_def)

lemma envelope_validate_Ok [simp]: "envelope_validate e = Ok u \<longleftrightarrow> envelope_ok e"
  by (simp add: envelope_ok_def is_ok_iff)

lemma validated_Ok [simp]: "validated e = Ok f \<longleftrightarrow> envelope_ok e \<and> f = e"
  by (auto simp: validated_def)

text \<open>Envelopes the tools build are valid when the snapshot they carry is.\<close>

lemma handle_state_envelope_ok: "pred_option state_ok hs \<Longrightarrow> envelope_ok (handle_state_envelope hs r)"
  by (auto simp: envelope_ok_iff handle_state_envelope_def envelope_success_def process_moves_def
      next_moves_valid split: option.splits)

lemma sqlstate_fallback_ok:
  "payload_ok (case try_with_sqlstate s (error_payload c) of Inr p \<Rightarrow> p | Inl _ \<Rightarrow> error_payload c)"
  by (auto intro: try_with_sqlstate_ok split: sum.split)

lemma error_envelope_ok:
  "pred_option state_ok hs \<Longrightarrow> envelope_ok (error_envelope_with_sqlstate hs error u sqlstate)"
  using sqlstate_fallback_ok[where s = sqlstate and c = "ce_code error"]
  by (auto simp: envelope_ok_iff error_envelope_with_sqlstate_def envelope_failure_def Let_def
      process_moves_def next_moves_valid split: option.splits)

lemma en_error_payload_not_null: "en_error_payload p \<noteq> JNull"
  by (rule payload_codec.enc_not_null)

lemma envelope_round_trip_lemma:
  assumes codec: "\<And>r. env_result e = Some r \<Longrightarrow> dec (enc r) = Ok r \<and> enc r \<noteq> JNull"
    and en: "en_envelope enc e = Ok v"
  shows "de_envelope dec v = Ok e"
proof -
  from en have ok: "envelope_ok e" by (auto simp: en_envelope_def)
  have hs: "de_option de_handle_state (en_option en_handle_state (env_handle_state e))
      = Ok (env_handle_state e)"
    by (rule state_codec.option_round_trip) (simp add: option.pred_True)
  have mv: "de_list de_move (en_list en_move (env_next_moves e)) = Ok (env_next_moves e)"
    by (rule move_codec.list_round_trip) (simp add: list.pred_True)
  note parts = de_envelope_def hs mv uint_codec.dec_enc is_some_not_null_def
  have eta: "\<lparr>env_version = env_version e, env_handle_state = env_handle_state e,
      env_next_moves = env_next_moves e, env_result = x, env_error = y\<rparr> = e"
    if "env_result e = x" "env_error e = y" for x y
    using that by (cases e) simp
  show ?thesis
  proof (cases "env_result e")
    case (Some r)
    with ok have none: "env_error e = None" by (auto simp: envelope_ok_iff)
    with Some en ok codec[OF Some] show ?thesis
      by (auto simp: en_envelope_def parts eta[OF Some none])
  next
    case None
    with ok obtain p where p: "env_error e = Some p" "payload_ok p"
      by (auto simp: envelope_ok_iff)
    from p(2) have "de_error_payload (en_error_payload p) = Ok p" by (rule payload_codec.dec_enc)
    with None p en ok en_error_payload_not_null[of p] show ?thesis
      by (auto simp: en_envelope_def parts eta[OF None p(1)])
  qed
qed

section \<open>Properties\<close>



text \<open>
  The serialised form cannot carry a \<open>null\<close> result: a successful envelope whose result
  encodes to \<open>null\<close> serialises, and no decoder accepts what was written.
\<close>

theorem envelope_null_result_not_decoded:
  assumes "enc r = JNull" and "pred_option state_ok hs"
  shows "\<exists>v. en_envelope enc (handle_state_envelope hs r) = Ok v \<and> \<not> is_ok (de_envelope dec v)"
proof -
  from assms(2) have "envelope_validate (handle_state_envelope hs r) = Ok ()"
    by (simp add: handle_state_envelope_ok)
  with assms(1) show ?thesis
    by (auto simp: en_envelope_def de_envelope_def as_object_def is_some_not_null_def
        handle_state_envelope_def envelope_success_def Let_def is_ok_iff)
qed

theorem envelope_null_result_not_decoded_witness:
  "\<exists>v. en_envelope id (handle_state_envelope None JNull) = Ok v \<and> \<not> is_ok (de_envelope Ok v)"
  by (rule envelope_null_result_not_decoded) simp_all

text \<open>
  Every envelope the tool layer builds, success or error, validates when its snapshot
  satisfies the state invariant: exactly one of result and error, executable moves only, the
  static error message, and no malformed SQLSTATE whatever the backend reported.
\<close>

theorem built_envelopes_validate:
  assumes "pred_option state_ok hs"
  shows "envelope_ok (handle_state_envelope hs r) \<and>
    envelope_ok (error_envelope_with_sqlstate hs error unknown sqlstate)"
  using assms by (simp add: handle_state_envelope_ok error_envelope_ok)

theorem built_envelopes_validate_witness:
  "envelope_ok (handle_state_envelope (Some (handle_state_idle ''h'' ''d'' True)) ()) \<and>
   envelope_ok (error_envelope_with_sqlstate (Some (handle_state_idle ''h'' ''d'' True))
     (core_error DatabaseError) False (Some ''bad sqlstate'') :: unit envelope)"
  by (rule built_envelopes_validate) simp

end
