(* ===== verification/Config.thy ===== *)
theory Config
  imports Btree Strings
begin

text \<open>
  \<open>postgres-mcp-core/src/config.rs\<close>: the configuration record and its ranges, layered
  overrides (\<open>[defaults]\<close>, the flat legacy keys, one profile), validation, and the policy
  of a profile document. TOML parsing is the \<open>toml\<close> crate's: the functions that parse take
  the parsed document (or its failure) as an argument.
\<close>

section \<open>Constants\<close>

definition DEFAULT_MAX_HANDLES :: usize where "DEFAULT_MAX_HANDLES = 16"
definition DEFAULT_OUTSTANDING_REQUESTS :: usize where "DEFAULT_OUTSTANDING_REQUESTS = 32"
definition DEFAULT_SQL_BYTES :: usize where "DEFAULT_SQL_BYTES = 65536"
definition DEFAULT_PARAMETERS :: usize where "DEFAULT_PARAMETERS = 256"
definition DEFAULT_PARAMETER_BYTES :: usize where "DEFAULT_PARAMETER_BYTES = 1048576"
definition DEFAULT_RESULT_ROWS :: usize where "DEFAULT_RESULT_ROWS = 1000"
definition DEFAULT_COLUMNS :: usize where "DEFAULT_COLUMNS = 256"
definition DEFAULT_CELL_BYTES :: usize where "DEFAULT_CELL_BYTES = 1048576"
definition DEFAULT_RESULT_JSON_BYTES :: usize where "DEFAULT_RESULT_JSON_BYTES = 8388608"
definition DEFAULT_REQUEST_TIMEOUT_SECONDS :: nat where "DEFAULT_REQUEST_TIMEOUT_SECONDS = 30"
definition DEFAULT_CONNECTION_TIMEOUT_SECONDS :: nat where
  "DEFAULT_CONNECTION_TIMEOUT_SECONDS = 10"
definition DEFAULT_CANCEL_DRAIN_GRACE_SECONDS :: nat where
  "DEFAULT_CANCEL_DRAIN_GRACE_SECONDS = 5"
definition DEFAULT_SHUTDOWN_TOTAL_SECONDS :: nat where "DEFAULT_SHUTDOWN_TOTAL_SECONDS = 10"

definition MAX_HANDLES_RANGE :: "usize \<times> usize" where "MAX_HANDLES_RANGE = (1, 128)"
definition OUTSTANDING_REQUESTS_RANGE :: "usize \<times> usize" where
  "OUTSTANDING_REQUESTS_RANGE = (1, 1024)"
definition SQL_BYTES_RANGE :: "usize \<times> usize" where "SQL_BYTES_RANGE = (1, 1048576)"
definition PARAMETERS_RANGE :: "usize \<times> usize" where "PARAMETERS_RANGE = (0, 65535)"
definition PARAMETER_BYTES_RANGE :: "usize \<times> usize" where "PARAMETER_BYTES_RANGE = (0, 16777216)"
definition RESULT_ROWS_RANGE :: "usize \<times> usize" where "RESULT_ROWS_RANGE = (1, 100000)"
definition COLUMNS_RANGE :: "usize \<times> usize" where "COLUMNS_RANGE = (1, 1600)"
definition CELL_BYTES_RANGE :: "usize \<times> usize" where "CELL_BYTES_RANGE = (1, 16777216)"
definition RESULT_JSON_BYTES_RANGE :: "usize \<times> usize" where
  "RESULT_JSON_BYTES_RANGE = (1024, 67108864)"
definition TIMEOUT_SECONDS_RANGE :: "nat \<times> nat" where "TIMEOUT_SECONDS_RANGE = (1, 300)"

lemmas config_constants =
  DEFAULT_MAX_HANDLES_def DEFAULT_OUTSTANDING_REQUESTS_def DEFAULT_SQL_BYTES_def
  DEFAULT_PARAMETERS_def DEFAULT_PARAMETER_BYTES_def DEFAULT_RESULT_ROWS_def
  DEFAULT_COLUMNS_def DEFAULT_CELL_BYTES_def DEFAULT_RESULT_JSON_BYTES_def
  DEFAULT_REQUEST_TIMEOUT_SECONDS_def DEFAULT_CONNECTION_TIMEOUT_SECONDS_def
  DEFAULT_CANCEL_DRAIN_GRACE_SECONDS_def DEFAULT_SHUTDOWN_TOTAL_SECONDS_def
  MAX_HANDLES_RANGE_def OUTSTANDING_REQUESTS_RANGE_def SQL_BYTES_RANGE_def
  PARAMETERS_RANGE_def PARAMETER_BYTES_RANGE_def RESULT_ROWS_RANGE_def COLUMNS_RANGE_def
  CELL_BYTES_RANGE_def RESULT_JSON_BYTES_RANGE_def TIMEOUT_SECONDS_RANGE_def

section \<open>Records\<close>

record config =
  max_handles :: usize
  outstanding_requests :: usize
  sql_bytes :: usize
  parameters :: usize
  parameter_bytes :: usize
  result_rows :: usize
  columns :: usize
  cell_bytes :: usize
  result_json_bytes :: usize
  request_timeout_seconds :: nat
  connection_timeout_seconds :: nat
  cancel_drain_grace_seconds :: nat
  shutdown_total_seconds :: nat

record config_overrides =
  ov_max_handles :: "usize option"
  ov_outstanding_requests :: "usize option"
  ov_sql_bytes :: "usize option"
  ov_parameters :: "usize option"
  ov_parameter_bytes :: "usize option"
  ov_result_rows :: "usize option"
  ov_columns :: "usize option"
  ov_cell_bytes :: "usize option"
  ov_result_json_bytes :: "usize option"
  ov_request_timeout_seconds :: "nat option"
  ov_connection_timeout_seconds :: "nat option"
  ov_cancel_drain_grace_seconds :: "nat option"
  ov_shutdown_total_seconds :: "nat option"

record profile =
  pr_dsn :: string
  pr_overrides :: config_overrides

record config_file =
  cf_defaults :: config_overrides
  cf_profiles :: "(string, profile) btree"
  cf_legacy :: config_overrides

datatype config_error =
    IoError
  | ParseError
  | InvalidField string nat nat nat  \<comment> \<open>field, minimum, maximum, value\<close>
  | UnknownProfile
  | DsnCommand
  | EmptyDsn
  | InvalidDsnOutput
  | DsnTimeout

definition no_overrides :: config_overrides where
  "no_overrides = \<lparr>ov_max_handles = None, ov_outstanding_requests = None, ov_sql_bytes = None,
     ov_parameters = None, ov_parameter_bytes = None, ov_result_rows = None, ov_columns = None,
     ov_cell_bytes = None, ov_result_json_bytes = None, ov_request_timeout_seconds = None,
     ov_connection_timeout_seconds = None, ov_cancel_drain_grace_seconds = None,
     ov_shutdown_total_seconds = None\<rparr>"

section \<open>Layering\<close>

text \<open>\<open>Option::or\<close>\<close>

definition opt_or :: "'a option \<Rightarrow> 'a option \<Rightarrow> 'a option" where
  "opt_or a b = (case a of None \<Rightarrow> b | Some x \<Rightarrow> Some x)"

definition merge :: "config_overrides \<Rightarrow> config_overrides \<Rightarrow> config_overrides" where
  "merge self higher = \<lparr>
     ov_max_handles = opt_or (ov_max_handles higher) (ov_max_handles self),
     ov_outstanding_requests = opt_or (ov_outstanding_requests higher) (ov_outstanding_requests self),
     ov_sql_bytes = opt_or (ov_sql_bytes higher) (ov_sql_bytes self),
     ov_parameters = opt_or (ov_parameters higher) (ov_parameters self),
     ov_parameter_bytes = opt_or (ov_parameter_bytes higher) (ov_parameter_bytes self),
     ov_result_rows = opt_or (ov_result_rows higher) (ov_result_rows self),
     ov_columns = opt_or (ov_columns higher) (ov_columns self),
     ov_cell_bytes = opt_or (ov_cell_bytes higher) (ov_cell_bytes self),
     ov_result_json_bytes = opt_or (ov_result_json_bytes higher) (ov_result_json_bytes self),
     ov_request_timeout_seconds =
       opt_or (ov_request_timeout_seconds higher) (ov_request_timeout_seconds self),
     ov_connection_timeout_seconds =
       opt_or (ov_connection_timeout_seconds higher) (ov_connection_timeout_seconds self),
     ov_cancel_drain_grace_seconds =
       opt_or (ov_cancel_drain_grace_seconds higher) (ov_cancel_drain_grace_seconds self),
     ov_shutdown_total_seconds =
       opt_or (ov_shutdown_total_seconds higher) (ov_shutdown_total_seconds self)\<rparr>"

definition default_unchecked :: config where
  "default_unchecked = \<lparr>
     max_handles = DEFAULT_MAX_HANDLES,
     outstanding_requests = DEFAULT_OUTSTANDING_REQUESTS,
     sql_bytes = DEFAULT_SQL_BYTES,
     parameters = DEFAULT_PARAMETERS,
     parameter_bytes = DEFAULT_PARAMETER_BYTES,
     result_rows = DEFAULT_RESULT_ROWS,
     columns = DEFAULT_COLUMNS,
     cell_bytes = DEFAULT_CELL_BYTES,
     result_json_bytes = DEFAULT_RESULT_JSON_BYTES,
     request_timeout_seconds = DEFAULT_REQUEST_TIMEOUT_SECONDS,
     connection_timeout_seconds = DEFAULT_CONNECTION_TIMEOUT_SECONDS,
     cancel_drain_grace_seconds = DEFAULT_CANCEL_DRAIN_GRACE_SECONDS,
     shutdown_total_seconds = DEFAULT_SHUTDOWN_TOTAL_SECONDS\<rparr>"

text \<open>\<open>if let Some(v) = o.f { self.f = v; }\<close>\<close>

definition set_if :: "'a \<Rightarrow> 'a option \<Rightarrow> 'a" where
  "set_if old o' = (case o' of None \<Rightarrow> old | Some v \<Rightarrow> v)"

definition apply_overrides :: "config \<Rightarrow> config_overrides \<Rightarrow> config" where
  "apply_overrides c ov = \<lparr>
     max_handles = set_if (max_handles c) (ov_max_handles ov),
     outstanding_requests = set_if (outstanding_requests c) (ov_outstanding_requests ov),
     sql_bytes = set_if (sql_bytes c) (ov_sql_bytes ov),
     parameters = set_if (parameters c) (ov_parameters ov),
     parameter_bytes = set_if (parameter_bytes c) (ov_parameter_bytes ov),
     result_rows = set_if (result_rows c) (ov_result_rows ov),
     columns = set_if (columns c) (ov_columns ov),
     cell_bytes = set_if (cell_bytes c) (ov_cell_bytes ov),
     result_json_bytes = set_if (result_json_bytes c) (ov_result_json_bytes ov),
     request_timeout_seconds = set_if (request_timeout_seconds c) (ov_request_timeout_seconds ov),
     connection_timeout_seconds =
       set_if (connection_timeout_seconds c) (ov_connection_timeout_seconds ov),
     cancel_drain_grace_seconds =
       set_if (cancel_drain_grace_seconds c) (ov_cancel_drain_grace_seconds ov),
     shutdown_total_seconds = set_if (shutdown_total_seconds c) (ov_shutdown_total_seconds ov)\<rparr>"

definition into_config :: "config_overrides \<Rightarrow> config" where
  "into_config ov = apply_overrides default_unchecked ov"

definition config_default :: config where
  "config_default = into_config no_overrides"

definition overrides_from_config :: "config \<Rightarrow> config_overrides" where
  "overrides_from_config c = \<lparr>
     ov_max_handles = Some (max_handles c),
     ov_outstanding_requests = Some (outstanding_requests c),
     ov_sql_bytes = Some (sql_bytes c),
     ov_parameters = Some (parameters c),
     ov_parameter_bytes = Some (parameter_bytes c),
     ov_result_rows = Some (result_rows c),
     ov_columns = Some (columns c),
     ov_cell_bytes = Some (cell_bytes c),
     ov_result_json_bytes = Some (result_json_bytes c),
     ov_request_timeout_seconds = Some (request_timeout_seconds c),
     ov_connection_timeout_seconds = Some (connection_timeout_seconds c),
     ov_cancel_drain_grace_seconds = Some (cancel_drain_grace_seconds c),
     ov_shutdown_total_seconds = Some (shutdown_total_seconds c)\<rparr>"

section \<open>Validation\<close>

definition validate_usize :: "string \<Rightarrow> usize \<Rightarrow> usize \<times> usize \<Rightarrow> config_error + unit" where
  "validate_usize field v rng =
     (if fst rng \<le> v \<and> v \<le> snd rng then Inr ()
      else Inl (InvalidField field (fst rng) (snd rng) v))"

definition validate_u64 :: "string \<Rightarrow> nat \<Rightarrow> nat \<times> nat \<Rightarrow> config_error + unit" where
  "validate_u64 field v rng =
     (if fst rng \<le> v \<and> v \<le> snd rng then Inr ()
      else Inl (InvalidField field (fst rng) (snd rng) v))"

definition validate :: "config \<Rightarrow> config_error + unit" where
  "validate c =
     and_then (validate_usize ''max_handles'' (max_handles c) MAX_HANDLES_RANGE) (\<lambda>_.
     and_then (validate_usize ''outstanding_requests'' (outstanding_requests c)
                 OUTSTANDING_REQUESTS_RANGE) (\<lambda>_.
     and_then (validate_usize ''sql_bytes'' (sql_bytes c) SQL_BYTES_RANGE) (\<lambda>_.
     and_then (validate_usize ''parameters'' (parameters c) PARAMETERS_RANGE) (\<lambda>_.
     and_then (validate_usize ''parameter_bytes'' (parameter_bytes c) PARAMETER_BYTES_RANGE) (\<lambda>_.
     and_then (validate_usize ''result_rows'' (result_rows c) RESULT_ROWS_RANGE) (\<lambda>_.
     and_then (validate_usize ''columns'' (columns c) COLUMNS_RANGE) (\<lambda>_.
     and_then (validate_usize ''cell_bytes'' (cell_bytes c) CELL_BYTES_RANGE) (\<lambda>_.
     and_then (validate_usize ''result_json_bytes'' (result_json_bytes c)
                 RESULT_JSON_BYTES_RANGE) (\<lambda>_.
     and_then (validate_u64 ''request_timeout_seconds'' (request_timeout_seconds c)
                 TIMEOUT_SECONDS_RANGE) (\<lambda>_.
     and_then (validate_u64 ''connection_timeout_seconds'' (connection_timeout_seconds c)
                 TIMEOUT_SECONDS_RANGE) (\<lambda>_.
     and_then (validate_u64 ''cancel_drain_grace_seconds'' (cancel_drain_grace_seconds c)
                 TIMEOUT_SECONDS_RANGE) (\<lambda>_.
     and_then (validate_u64 ''shutdown_total_seconds'' (shutdown_total_seconds c)
                 TIMEOUT_SECONDS_RANGE) (\<lambda>_. Inr ())))))))))))))"

text \<open>Durations, in milliseconds.\<close>

definition from_secs :: "nat \<Rightarrow> nat" where "from_secs s = 1000 * s"

definition request_timeout :: "config \<Rightarrow> nat" where
  "request_timeout c = from_secs (request_timeout_seconds c)"
definition connection_timeout :: "config \<Rightarrow> nat" where
  "connection_timeout c = from_secs (connection_timeout_seconds c)"
definition cancel_drain_grace :: "config \<Rightarrow> nat" where
  "cancel_drain_grace c = from_secs (cancel_drain_grace_seconds c)"
definition shutdown_total :: "config \<Rightarrow> nat" where
  "shutdown_total c = from_secs (shutdown_total_seconds c)"

text \<open>
  \<open>Config::from_toml\<close>; \<open>parse\<close> is \<open>toml::from_str\<close>, \<open>None\<close> its error. \<open>from_path\<close> reads
  the file first, \<open>read\<close> being \<open>fs::read_to_string\<close>.
\<close>

definition config_from_toml ::
    "(string \<Rightarrow> config_overrides option) \<Rightarrow> string \<Rightarrow> config_error + config" where
  "config_from_toml parse source =
     and_then (ok_or ParseError (parse source)) (\<lambda>ov.
       let c = apply_overrides config_default ov
       in and_then (validate c) (\<lambda>_. Inr c))"

definition config_from_path ::
    "(string \<Rightarrow> config_overrides option) \<Rightarrow> (string \<Rightarrow> string option) \<Rightarrow> string
      \<Rightarrow> config_error + config" where
  "config_from_path parse read path =
     and_then (ok_or IoError (read path)) (config_from_toml parse)"

section \<open>Profile documents\<close>

definition base_config :: "config_file \<Rightarrow> config" where
  "base_config f = into_config (merge (cf_defaults f) (cf_legacy f))"

definition file_validate :: "config_file \<Rightarrow> config_error + unit" where
  "file_validate f =
     (let base = into_config (merge (cf_defaults f) (cf_legacy f))
      in and_then (validate base) (\<lambda>_.
           let base_ov = overrides_from_config base
           in for_each (\<lambda>p _. validate (into_config (merge (pr_overrides p) base_ov)))
                (bt_values (cf_profiles f)) ()))"

definition file_from_toml ::
    "(string \<Rightarrow> config_file option) \<Rightarrow> string \<Rightarrow> config_error + config_file" where
  "file_from_toml parse source =
     and_then (ok_or ParseError (parse source)) (\<lambda>f.
       and_then (file_validate f) (\<lambda>_. Inr f))"

text \<open>
  \<open>is_profile_document\<close>: \<open>parse\<close> is \<open>toml::from_str::<toml::Value>\<close>, giving the keys of the
  document when it is a table.
\<close>

definition is_profile_document ::
    "(string \<Rightarrow> string list option option) \<Rightarrow> string \<Rightarrow> config_error + bool" where
  "is_profile_document parse source =
     and_then (ok_or ParseError (parse source)) (\<lambda>v.
     and_then (ok_or DsnCommand v) (\<lambda>keys.
       Inr (''profiles'' \<in> set keys \<or> ''defaults'' \<in> set keys)))"

definition profile_config_for_profile :: "config_file \<Rightarrow> profile \<Rightarrow> config_error + config" where
  "profile_config_for_profile f p =
     (let c = into_config (merge (merge (cf_defaults f) (cf_legacy f)) (pr_overrides p))
      in and_then (validate c) (\<lambda>_. Inr c))"

definition profile_config :: "config_file \<Rightarrow> string \<Rightarrow> config_error + config" where
  "profile_config f name =
     and_then (ok_or UnknownProfile (bt_get name (cf_profiles f))) (\<lambda>p.
       let base = merge (cf_defaults f) (cf_legacy f); c = into_config (merge base (pr_overrides p))
       in and_then (validate c) (\<lambda>_. Inr c))"

text \<open>\<open>filter_map(|p| f(p).ok())\<close> and \<open>max()\<close>\<close>

definition ok_values :: "('e + 'a) list \<Rightarrow> 'a list" where
  "ok_values rs = List.map_filter (\<lambda>r. case r of Inl _ \<Rightarrow> None | Inr a \<Rightarrow> Some a) rs"

definition list_max :: "nat list \<Rightarrow> nat option" where
  "list_max xs = (case xs of [] \<Rightarrow> None | x # r \<Rightarrow> Some (foldl max x r))"

definition file_shutdown_total :: "config_file \<Rightarrow> nat" where
  "file_shutdown_total f =
     (case list_max (map shutdown_total
              (ok_values (map (profile_config_for_profile f) (bt_values (cf_profiles f))))) of
        None \<Rightarrow> shutdown_total (base_config f)
      | Some t \<Rightarrow> t)"


section \<open>Ranges\<close>

definition config_in_range :: "config \<Rightarrow> bool" where
  "config_in_range c \<longleftrightarrow>
     1 \<le> max_handles c \<and> max_handles c \<le> 128
   \<and> 1 \<le> outstanding_requests c \<and> outstanding_requests c \<le> 1024
   \<and> 1 \<le> sql_bytes c \<and> sql_bytes c \<le> 1048576
   \<and> parameters c \<le> 65535
   \<and> parameter_bytes c \<le> 16777216
   \<and> 1 \<le> result_rows c \<and> result_rows c \<le> 100000
   \<and> 1 \<le> columns c \<and> columns c \<le> 1600
   \<and> 1 \<le> cell_bytes c \<and> cell_bytes c \<le> 16777216
   \<and> 1024 \<le> result_json_bytes c \<and> result_json_bytes c \<le> 67108864
   \<and> 1 \<le> request_timeout_seconds c \<and> request_timeout_seconds c \<le> 300
   \<and> 1 \<le> connection_timeout_seconds c \<and> connection_timeout_seconds c \<le> 300
   \<and> 1 \<le> cancel_drain_grace_seconds c \<and> cancel_drain_grace_seconds c \<le> 300
   \<and> 1 \<le> shutdown_total_seconds c \<and> shutdown_total_seconds c \<le> 300"

lemma validate_field_Ok [simp]:
  "validate_usize f v r = Inr u \<longleftrightarrow> fst r \<le> v \<and> v \<le> snd r"
  "validate_u64 f v r = Inr u \<longleftrightarrow> fst r \<le> v \<and> v \<le> snd r"
  by (simp_all add: validate_usize_def validate_u64_def)

lemma validate_Ok_iff: "validate c = Inr u \<longleftrightarrow> config_in_range c"
  by (simp add: validate_def config_in_range_def config_constants conj_ac)

lemma config_default_eq: "config_default = default_unchecked"
  by (simp add: config_default_def into_config_def apply_overrides_def no_overrides_def
      set_if_def)

lemma config_default_in_range: "config_in_range config_default"
  by (simp add: config_default_eq default_unchecked_def config_in_range_def config_constants)

lemma in_range_below_usize: "config_in_range c \<Longrightarrow> parameter_bytes c + 16777216 \<le> usize_max"
  by (simp add: config_in_range_def usize_max_def)

section \<open>Algebra of the layers\<close>

lemma opt_or_assoc: "opt_or (opt_or a b) c = opt_or a (opt_or b c)"
  by (cases a) (simp_all add: opt_or_def)

lemma opt_or_simps [simp]:
  "opt_or None b = b" "opt_or a None = a" "opt_or (Some x) b = Some x"
  by (cases a; simp add: opt_or_def)+

lemma set_if_simps [simp]: "set_if a None = a" "set_if a (Some x) = x"
  by (simp_all add: set_if_def)

lemma set_if_opt_or: "set_if c (opt_or b a) = set_if (set_if c a) b"
  by (cases b) simp_all

lemma apply_overrides_merge:
  "apply_overrides c (merge lower higher) = apply_overrides (apply_overrides c lower) higher"
  by (simp add: apply_overrides_def merge_def set_if_opt_or)

lemma merge_assoc: "merge (merge a b) c = merge a (merge b c)"
  by (simp add: merge_def opt_or_assoc)

lemma merge_no_overrides [simp]: "merge a no_overrides = a" "merge no_overrides a = a"
  by (simp_all add: merge_def no_overrides_def)

lemma apply_overrides_from_config [simp]: "apply_overrides c (overrides_from_config d) = d"
  by (simp add: apply_overrides_def overrides_from_config_def)

lemma into_config_merge_full [simp]:
  "into_config (merge p (overrides_from_config b)) = b"
  by (simp add: into_config_def apply_overrides_merge)

lemma for_each_const_Ok: "(\<And>x. x \<in> set xs \<Longrightarrow> f x () = Inr ()) \<Longrightarrow> for_each f xs () = Inr ()"
  by (induction xs) simp_all

lemma profile_config_eq:
  "profile_config f name =
     and_then (ok_or UnknownProfile (bt_get name (cf_profiles f))) (profile_config_for_profile f)"
  by (cases "bt_get name (cf_profiles f)")
     (simp_all add: profile_config_def profile_config_for_profile_def Let_def)

lemma profile_config_for_profile_Ok:
  "profile_config_for_profile f p = Inr c \<longleftrightarrow>
     c = into_config (merge (merge (cf_defaults f) (cf_legacy f)) (pr_overrides p))
   \<and> config_in_range c"
  by (auto simp: profile_config_for_profile_def Let_def validate_Ok_iff)

section \<open>Properties\<close>

text \<open>
  C34. A configuration passes \<open>Config::validate\<close> exactly when every field lies in its
  documented range; the loader \<open>Config::from_toml\<close> returns only such configurations, with the
  parsed overrides applied to the built-in defaults, which are themselves in range.
\<close>

theorem config_from_toml_in_range:
  "config_from_toml parse source = Inr c \<longleftrightarrow>
     (\<exists>ov. parse source = Some ov \<and> c = apply_overrides default_unchecked ov
        \<and> config_in_range c)"
  by (auto simp: config_from_toml_def Let_def validate_Ok_iff config_default_eq)

text \<open>
  A validation failure names a field of the configuration whose value is outside the
  range the error reports.
\<close>

theorem validate_error_is_out_of_range:
  assumes "validate c = Inl e"
  shows "\<exists>field lo hi v. e = InvalidField field lo hi v \<and> (v < lo \<or> hi < v)"
  using assms
  by (auto simp: validate_def and_then_Err_iff validate_usize_def validate_u64_def
      split: if_splits)

theorem validate_error_is_out_of_range_witness:
  "\<exists>field lo hi v. InvalidField ''max_handles'' 1 128 129 = InvalidField field lo hi v
     \<and> (v < lo \<or> hi < (v::nat))"
proof -
  have "validate (config_default\<lparr>max_handles := 129\<rparr>) = Inl (InvalidField ''max_handles'' 1 128 129)"
    by (simp add: validate_def validate_usize_def MAX_HANDLES_RANGE_def)
  then show ?thesis by (rule validate_error_is_out_of_range)
qed

text \<open>
  C33. Precedence of the layers: a profile's configuration is the built-in defaults,
  overridden by \<open>[defaults]\<close>, then by the flat legacy keys, then by the profile, and it is
  returned only when it is in range; an unknown profile is the error \<open>UnknownProfile\<close>.
\<close>

theorem profile_config_layers:
  "profile_config f name = Inr c \<longleftrightarrow>
     (\<exists>p. bt_get name (cf_profiles f) = Some p
        \<and> c = apply_overrides (apply_overrides (apply_overrides default_unchecked
                 (cf_defaults f)) (cf_legacy f)) (pr_overrides p)
        \<and> config_in_range c)"
  by (auto simp: profile_config_eq profile_config_for_profile_Ok into_config_def
      apply_overrides_merge)

text \<open>
  \<open>ConfigFile::validate\<close> never looks at a profile's own overrides: it merges them
  \<open>below\<close> the complete base configuration (\<open>p.overrides.merge(&base)\<close>, where the argument
  wins), so validating a document is validating its base alone. An out-of-range profile value
  is accepted at startup and rejected only when the profile is opened.
\<close>

theorem file_validate_ignores_profiles: "file_validate f = validate (base_config f)"
proof (cases "validate (base_config f)")
  case (Inr u)
  then show ?thesis
    by (simp add: file_validate_def base_config_def for_each_const_Ok)
next
  case (Inl e)
  then show ?thesis by (simp add: file_validate_def base_config_def)
qed

lemma foldl_max_ge: "(m::nat) \<le> foldl max m xs \<and> (\<forall>x \<in> set xs. x \<le> foldl max m xs)"
proof (induction xs arbitrary: m)
  case (Cons x xs)
  have "max m x \<le> foldl max (max m x) xs" "\<forall>y \<in> set xs. y \<le> foldl max (max m x) xs"
    using Cons[of "max m x"] by blast+
  then show ?case by simp
qed simp

lemma foldl_max_mem: "foldl max (m::nat) xs \<in> insert m (set xs)"
proof (induction xs arbitrary: m)
  case (Cons x xs)
  show ?case using Cons[of "max m x"] by (auto simp: max_def split: if_splits)
qed simp

lemma list_max_Some:
  "list_max xs = Some m \<Longrightarrow> m \<in> set xs \<and> (\<forall>x \<in> set xs. x \<le> m)"
  using foldl_max_ge foldl_max_mem by (fastforce simp: list_max_def split: list.splits)

lemma mem_ok_values: "a \<in> set (ok_values rs) \<longleftrightarrow> Inr a \<in> set rs"
  by (induction rs) (auto simp: ok_values_def List.map_filter_simps split: sum.splits)

lemma list_max_None [simp]: "list_max xs = None \<longleftrightarrow> xs = []"
  by (simp add: list_max_def split: list.splits)

text \<open>
  The process-wide shutdown budget of a profile document is at least the
  \<open>shutdown_total\<close> of every profile that can be opened.
\<close>

theorem file_shutdown_total_covers_profiles:
  assumes "bt_ok (cf_profiles f)" and "profile_config f name = Inr c"
  shows "shutdown_total c \<le> file_shutdown_total f"
proof -
  let ?oks = "ok_values (map (profile_config_for_profile f) (bt_values (cf_profiles f)))"
  from assms(2) obtain p where p: "bt_get name (cf_profiles f) = Some p"
    "profile_config_for_profile f p = Inr c" by (auto simp: profile_config_eq)
  from p(1) have "p \<in> set (bt_values (cf_profiles f))"
    by (force simp: bt_get_def bt_values_def dest: map_of_SomeD)
  with p(2) have c: "c \<in> set ?oks" unfolding mem_ok_values by force
  show ?thesis
  proof (cases "list_max (map shutdown_total ?oks)")
    case None
    with c show ?thesis by auto
  next
    case (Some m)
    with c show ?thesis by (auto simp: file_shutdown_total_def dest: list_max_Some)
  qed
qed

definition sample_profiles :: config_file where
  "sample_profiles = \<lparr>cf_defaults = no_overrides\<lparr>ov_max_handles := Some 8\<rparr>,
     cf_profiles = [(''local'', \<lparr>pr_dsn = ''true'',
        pr_overrides = no_overrides\<lparr>ov_shutdown_total_seconds := Some 20\<rparr>\<rparr>)],
     cf_legacy = no_overrides\<rparr>"

theorem file_shutdown_total_covers_profiles_witness:
  "shutdown_total (config_default\<lparr>max_handles := 8, shutdown_total_seconds := 20\<rparr>)
     \<le> file_shutdown_total sample_profiles"
proof (rule file_shutdown_total_covers_profiles [where name = "''local''"])
  show "bt_ok (cf_profiles sample_profiles)" by (simp add: sample_profiles_def bt_ok_def)
  show "profile_config sample_profiles ''local''
      = Inr (config_default\<lparr>max_handles := 8, shutdown_total_seconds := 20\<rparr>)"
    by (simp add: profile_config_layers sample_profiles_def bt_get_def config_default_eq
        apply_overrides_def no_overrides_def default_unchecked_def config_in_range_def
        config_constants)
qed

end
