(* ===== verification/Payloads.thy ===== *)
theory Payloads
  imports Envelope Config
begin

text \<open>
  The request and result types of \<open>protocol.rs\<close>: \<open>Parameter\<close> and \<open>QueryRequest\<close> with their
  limits, \<open>QueryResult\<close> and \<open>SchemaResult\<close> with the budgets they are validated against, and
  their JSON forms. \<open>render\<close>, the text serde_json writes for a canonical value, is an argument
  of the functions that measure it.
\<close>

section \<open>Parameters and queries\<close>

record parameter =
  pm_type_oid :: "32 word option"
  pm_value :: "string option"

definition nul :: char where "nul = CHR 0x00"

definition parameter_validate :: "parameter \<Rightarrow> validation_error + unit" where
  "parameter_validate p =
     (if (case pm_value p of Some value \<Rightarrow> contains_char value nul | None \<Rightarrow> False)
      then Err VeEmbeddedNul else Ok ())"

definition parameter_new :: "32 word option \<Rightarrow> string option \<Rightarrow> validation_error + parameter" where
  "parameter_new oid value =
     (let p = \<lparr>pm_type_oid = oid, pm_value = value\<rparr>
      in and_then (parameter_validate p) (\<lambda>_. Ok p))"

definition value_bytes :: "parameter \<Rightarrow> usize" where
  "value_bytes p = (case pm_value p of None \<Rightarrow> 0 | Some v \<Rightarrow> length v)"

definition en_parameter :: "parameter \<Rightarrow> json" where
  "en_parameter p = JObject [(''type_oid'', en_option en_uint (pm_type_oid p)),
     (''value'', en_option JString (pm_value p))]"

definition de_parameter :: "parameter decoder" where
  "de_parameter v =
     and_then (as_object ''parameter must be an object'' v) (\<lambda>object.
     and_then (exact_object_keys object [''type_oid'', ''value'']) (\<lambda>_.
     and_then (decode_value (de_option de_uint) object ''type_oid'') (\<lambda>oid.
     and_then (decode_value (de_option de_string) object ''value'') (\<lambda>value.
     let p = \<lparr>pm_type_oid = oid, pm_value = value\<rparr> in
     and_then (map_err (\<lambda>e. DeText (validation_text e)) (parameter_validate p)) (\<lambda>_. Ok p)))))"

record query_request =
  qr_sql :: string
  qr_parameters :: "parameter list"

definition add_parameter_bytes ::
  "usize \<Rightarrow> parameter \<Rightarrow> usize \<Rightarrow> validation_error + usize" where
  "add_parameter_bytes limit p acc =
     and_then (parameter_validate p) (\<lambda>_.
     and_then (ok_or VeParameterByteLimit (checked_add acc (value_bytes p))) (\<lambda>acc.
     if limit < acc then Err VeParameterByteLimit else Ok acc))"

definition validate_with_limits ::
  "usize \<Rightarrow> usize \<Rightarrow> usize \<Rightarrow> query_request \<Rightarrow> validation_error + unit" where
  "validate_with_limits max_sql max_count max_bytes q =
     (if is_blank (qr_sql q) \<or> contains_char (qr_sql q) nul \<or> max_sql < length (qr_sql q)
      then Err VeInvalidQuery
      else if max_count < length (qr_parameters q) then Err VeParameterCountLimit
      else and_then (for_each (add_parameter_bytes max_bytes) (qr_parameters q) 0) (\<lambda>_. Ok ()))"

text \<open>\<open>QueryRequest::parameter_bytes\<close>: the same total without the limit.\<close>

definition request_parameter_bytes :: "query_request \<Rightarrow> validation_error + usize" where
  "request_parameter_bytes q = for_each (\<lambda>p total.
     and_then (parameter_validate p) (\<lambda>_.
     ok_or VeParameterByteLimit (checked_add total (value_bytes p)))) (qr_parameters q) 0"

definition query_request_validate :: "config \<Rightarrow> query_request \<Rightarrow> validation_error + unit" where
  "query_request_validate c q =
     validate_with_limits (sql_bytes c) (parameters c) (parameter_bytes c) q"

definition de_query_request :: "query_request decoder" where
  "de_query_request v =
     and_then (de_struct 1 [''sql'', ''parameters''] v) (\<lambda>obj.
     and_then (de_field de_string obj ''sql'') (\<lambda>sql.
     and_then (de_field_or [] (de_list de_parameter) obj ''parameters'') (\<lambda>ps.
     Ok \<lparr>qr_sql = sql, qr_parameters = ps\<rparr>)))"

section \<open>Query results\<close>

record result_column =
  rc_name :: string
  rc_type_oid :: "32 word"

record query_result =
  q_columns :: "result_column list"
  q_rows :: "string option list list"
  q_command_tag :: string
  q_affected_rows :: "string option"

definition check_cell :: "usize \<Rightarrow> string \<Rightarrow> validation_error + unit" where
  "check_cell limit value = (if limit < length value then Err VeResultLimit else Ok ())"

definition is_decimal_or_none :: "string option \<Rightarrow> bool" where
  "is_decimal_or_none value = (case value of None \<Rightarrow> True | Some v \<Rightarrow> is_decimal_text v)"

definition en_result_column :: "result_column \<Rightarrow> json" where
  "en_result_column c = JObject [(''name'', JString (rc_name c)),
     (''type_oid'', en_uint (rc_type_oid c)), (''format'', JString ''text'')]"

definition en_query_result :: "query_result \<Rightarrow> json" where
  "en_query_result r = JObject [
     (''columns'', en_list en_result_column (q_columns r)),
     (''rows'', en_list (en_list (en_option JString)) (q_rows r)),
     (''command_tag'', JString (q_command_tag r)),
     (''affected_rows'', en_option JString (q_affected_rows r))]"

definition check_json_budget ::
  "renderer \<Rightarrow> usize \<Rightarrow> validation_error \<Rightarrow> json \<Rightarrow> validation_error + unit" where
  "check_json_budget render limit e v =
     and_then (map_err VeSerialization (canonical_json_bytes render v)) (\<lambda>bytes.
     if limit < length bytes then Err e else Ok ())"

definition check_row :: "config \<Rightarrow> query_result \<Rightarrow> string option list \<Rightarrow> validation_error + unit" where
  "check_row c r row =
     (if length row \<noteq> length (q_columns r) then Err VeInvalidResultShape
      else for_each (\<lambda>cell _. when_some (check_cell (cell_bytes c)) cell) row ())"

definition query_result_validate ::
  "renderer \<Rightarrow> config \<Rightarrow> query_result \<Rightarrow> validation_error + unit" where
  "query_result_validate render c r =
     (if columns c < length (q_columns r) \<or> result_rows c < length (q_rows r)
      then Err VeResultLimit
      else if \<not> is_decimal_or_none (q_affected_rows r) then Err VeInvalidAffectedRows
      else
        and_then (for_each (\<lambda>col _. check_cell (cell_bytes c) (rc_name col)) (q_columns r) ()) (\<lambda>_.
        and_then (check_cell (cell_bytes c) (q_command_tag r)) (\<lambda>_.
        and_then (when_some (check_cell (cell_bytes c)) (q_affected_rows r)) (\<lambda>_.
        and_then (for_each (\<lambda>row _. check_row c r row) (q_rows r) ()) (\<lambda>_.
        check_json_budget render (result_json_bytes c) VeResultLimit (en_query_result r))))))"

section \<open>Schema results\<close>

datatype relation_kind = RkTable | RkPartitionedTable | RkView | RkMaterializedView | RkForeignTable
datatype identity_kind = IkNone | IkAlways | IkByDefault
datatype constraint_kind = CkPrimaryKey | CkUnique | CkForeignKey | CkCheck | CkExclusion

record schema_column =
  sc_name :: string
  sc_ordinal :: "32 word"
  sc_type_oid :: "32 word"
  sc_type_name :: string
  sc_nullable :: bool
  sc_default_expression :: "string option"
  sc_identity :: identity_kind
  sc_generated :: bool

record table_constraint =
  tc_name :: string
  tc_kind :: constraint_kind
  tc_definition :: string

record relation_info =
  rl_name :: string
  rl_kind :: relation_kind
  rl_columns :: "schema_column list"
  rl_constraints :: "table_constraint list"

record schema_info =
  si_name :: string
  si_relations :: "relation_info list"

type_synonym schema_result = "schema_info list"

definition relation_kind_names :: "(string \<times> relation_kind) list" where
  "relation_kind_names = [(''table'', RkTable), (''partitioned_table'', RkPartitionedTable),
     (''view'', RkView), (''materialized_view'', RkMaterializedView),
     (''foreign_table'', RkForeignTable)]"

definition identity_names :: "(string \<times> identity_kind) list" where
  "identity_names = [(''none'', IkNone), (''always'', IkAlways), (''by_default'', IkByDefault)]"

definition constraint_names :: "(string \<times> constraint_kind) list" where
  "constraint_names = [(''primary_key'', CkPrimaryKey), (''unique'', CkUnique),
     (''foreign_key'', CkForeignKey), (''check'', CkCheck), (''exclusion'', CkExclusion)]"

definition en_schema_column :: "schema_column \<Rightarrow> json" where
  "en_schema_column c = JObject [
     (''name'', JString (sc_name c)), (''ordinal'', en_uint (sc_ordinal c)),
     (''type_oid'', en_uint (sc_type_oid c)), (''type_name'', JString (sc_type_name c)),
     (''nullable'', JBool (sc_nullable c)),
     (''default_expression'', en_option JString (sc_default_expression c)),
     (''identity'', en_enum identity_names (sc_identity c)),
     (''generated'', JBool (sc_generated c))]"

definition en_constraint :: "table_constraint \<Rightarrow> json" where
  "en_constraint c = JObject [(''name'', JString (tc_name c)),
     (''kind'', en_enum constraint_names (tc_kind c)), (''definition'', JString (tc_definition c))]"

definition en_relation :: "relation_info \<Rightarrow> json" where
  "en_relation r = JObject [(''name'', JString (rl_name r)),
     (''kind'', en_enum relation_kind_names (rl_kind r)),
     (''columns'', en_list en_schema_column (rl_columns r)),
     (''constraints'', en_list en_constraint (rl_constraints r))]"

definition en_schema_info :: "schema_info \<Rightarrow> json" where
  "en_schema_info s = JObject [(''name'', JString (si_name s)),
     (''relations'', en_list en_relation (si_relations s))]"

definition en_schema_result :: "schema_result \<Rightarrow> json" where
  "en_schema_result r = JObject [(''schemas'', en_list en_schema_info r)]"

definition checked_unit :: "usize \<Rightarrow> validation_error + usize" where
  "checked_unit units = ok_or VeSchemaLimit (checked_add units 1)"

definition check_schema_cell :: "usize \<Rightarrow> string \<Rightarrow> validation_error + unit" where
  "check_schema_cell limit value = (if limit < length value then Err VeSchemaLimit else Ok ())"

definition validate_column :: "config \<Rightarrow> schema_column \<Rightarrow> usize \<Rightarrow> validation_error + usize" where
  "validate_column c col units =
     and_then (checked_unit units) (\<lambda>units.
     and_then (check_schema_cell (cell_bytes c) (sc_name col)) (\<lambda>_.
     and_then (check_schema_cell (cell_bytes c) (sc_type_name col)) (\<lambda>_.
     and_then (when_some (check_schema_cell (cell_bytes c)) (sc_default_expression col)) (\<lambda>_.
     Ok units))))"

definition validate_constraint ::
  "config \<Rightarrow> table_constraint \<Rightarrow> usize \<Rightarrow> validation_error + usize" where
  "validate_constraint c con units =
     and_then (checked_unit units) (\<lambda>units.
     and_then (check_schema_cell (cell_bytes c) (tc_name con)) (\<lambda>_.
     and_then (check_schema_cell (cell_bytes c) (tc_definition con)) (\<lambda>_.
     Ok units)))"

definition validate_relation :: "config \<Rightarrow> relation_info \<Rightarrow> usize \<Rightarrow> validation_error + usize" where
  "validate_relation c rel units =
     and_then (checked_unit units) (\<lambda>units.
     and_then (check_schema_cell (cell_bytes c) (rl_name rel)) (\<lambda>_.
     and_then (for_each (validate_column c) (rl_columns rel) units) (\<lambda>units.
     and_then (for_each (validate_constraint c) (rl_constraints rel) units) (\<lambda>units.
     if result_rows c < units then Err VeSchemaLimit else Ok units))))"

definition validate_schema :: "config \<Rightarrow> schema_info \<Rightarrow> usize \<Rightarrow> validation_error + usize" where
  "validate_schema c s units =
     and_then (checked_unit units) (\<lambda>units.
     and_then (check_schema_cell (cell_bytes c) (si_name s)) (\<lambda>_.
     if result_rows c < units then Err VeSchemaLimit
     else for_each (validate_relation c) (si_relations s) units))"

definition schema_result_validate ::
  "renderer \<Rightarrow> config \<Rightarrow> schema_result \<Rightarrow> validation_error + unit" where
  "schema_result_validate render c r =
     and_then (for_each (validate_schema c) r 0) (\<lambda>_.
     check_json_budget render (result_json_bytes c) VeSchemaLimit (en_schema_result r))"

section \<open>Lemmas on queries\<close>

lemma parameter_validate_Ok [simp]:
  "parameter_validate p = Ok u \<longleftrightarrow> pred_option (\<lambda>v. nul \<notin> set v) (pm_value p)"
  by (auto simp: parameter_validate_def contains_char_def split: option.split)

lemma add_parameter_bytes_Ok [simp]:
  "limit \<le> usize_max \<Longrightarrow> add_parameter_bytes limit p acc = Ok t \<longleftrightarrow>
     pred_option (\<lambda>v. nul \<notin> set v) (pm_value p) \<and> t = acc + value_bytes p \<and> t \<le> limit"
  by (auto simp: add_parameter_bytes_def)

lemma for_each_parameters:
  assumes "limit \<le> usize_max"
  shows "for_each (add_parameter_bytes limit) ps acc = Ok t \<longleftrightarrow>
    (\<forall>p \<in> set ps. pred_option (\<lambda>v. nul \<notin> set v) (pm_value p)) \<and>
    t = acc + sum_list (map value_bytes ps) \<and> (ps = [] \<or> t \<le> limit)"
proof (induction ps arbitrary: acc)
  case Nil
  show ?case using assms by auto
next
  case (Cons x xs)
  show ?case using assms by (auto simp: Cons.IH)
qed

lemma request_parameter_bytes_Ok:
  "request_parameter_bytes q = Ok t \<longleftrightarrow>
     (\<forall>p \<in> set (qr_parameters q). pred_option (\<lambda>v. nul \<notin> set v) (pm_value p)) \<and>
     t = sum_list (map value_bytes (qr_parameters q)) \<and> t \<le> usize_max"
proof -
  have "ok_or VeParameterByteLimit (checked_add total n) = and_then (ok_or VeParameterByteLimit (checked_add total n))
      (\<lambda>acc. if usize_max < acc then Err VeParameterByteLimit else Ok acc)" for total n
    by (simp add: checked_add_def)
  then have "request_parameter_bytes q = for_each (add_parameter_bytes usize_max) (qr_parameters q) 0"
    unfolding request_parameter_bytes_def add_parameter_bytes_def by metis
  then show ?thesis
    by (cases "qr_parameters q = []") (auto simp: for_each_parameters)
qed

interpretation parameter_codec: nonnull_codec en_parameter de_parameter
    "\<lambda>p. parameter_validate p = Ok ()"
proof unfold_locales
  fix p
  assume p: "parameter_validate p = Ok ()"
  have "de_option de_uint (en_option en_uint (pm_type_oid p)) = Ok (pm_type_oid p)"
    by (rule uint_codec.option_round_trip) (simp add: option.pred_True)
  moreover have "de_option de_string (en_option JString (pm_value p)) = Ok (pm_value p)"
    by (rule string_codec.option_round_trip) (simp add: option.pred_True)
  ultimately show "de_parameter (en_parameter p) = Ok p"
    using p by (auto simp: de_parameter_def en_parameter_def Let_def)
qed (simp add: en_parameter_def)

section \<open>Lemmas on results\<close>

lemma check_cell_Ok [simp]: "check_cell limit v = Ok u \<longleftrightarrow> length v \<le> limit"
  by (auto simp: check_cell_def)

lemma check_schema_cell_Ok [simp]: "check_schema_cell limit v = Ok u \<longleftrightarrow> length v \<le> limit"
  by (auto simp: check_schema_cell_def)

lemma check_json_budget_Ok:
  "check_json_budget render limit e v = Ok u \<longleftrightarrow>
     (\<exists>bytes. render (canonicalize v) = Ok bytes \<and> length bytes \<le> limit)"
  by (cases "render (canonicalize v)") (auto simp: check_json_budget_def canonical_json_bytes_def)

lemma checked_unit_Ok [simp]: "checked_unit u = Ok v \<longleftrightarrow> v = u + 1 \<and> u + 1 \<le> usize_max"
  by (auto simp: checked_unit_def)

lemma check_row_Ok [simp]:
  "check_row c r row = Ok u \<longleftrightarrow> length row = length (q_columns r) \<and>
     (\<forall>cell \<in> set row. pred_option (\<lambda>v. length v \<le> cell_bytes c) cell)"
  by (auto simp: check_row_def)

text \<open>Units: one per schema, relation, column and constraint.\<close>

definition relation_units :: "relation_info \<Rightarrow> nat" where
  "relation_units r = 1 + length (rl_columns r) + length (rl_constraints r)"

definition schema_units :: "schema_info \<Rightarrow> nat" where
  "schema_units s = 1 + sum_list (map relation_units (si_relations s))"

definition column_cells :: "schema_column \<Rightarrow> string set" where
  "column_cells c = {sc_name c, sc_type_name c} \<union> set_option (sc_default_expression c)"

definition relation_cells :: "relation_info \<Rightarrow> string set" where
  "relation_cells r = insert (rl_name r) (\<Union>(column_cells ` set (rl_columns r)) \<union>
     (\<Union>k \<in> set (rl_constraints r). {tc_name k, tc_definition k}))"

definition schema_cells :: "schema_info \<Rightarrow> string set" where
  "schema_cells s = insert (si_name s) (\<Union>(relation_cells ` set (si_relations s)))"

definition fits :: "config \<Rightarrow> string set \<Rightarrow> bool" where
  "fits c cells \<longleftrightarrow> (\<forall>v \<in> cells. length v \<le> cell_bytes c)"

lemma fits_simps [simp]:
  "fits c {}" "fits c (insert v S) \<longleftrightarrow> length v \<le> cell_bytes c \<and> fits c S"
  "fits c (S \<union> T) \<longleftrightarrow> fits c S \<and> fits c T" "fits c (\<Union>(f ` A)) \<longleftrightarrow> (\<forall>a \<in> A. fits c (f a))"
  by (auto simp: fits_def)

lemma validate_column_Ok [simp]:
  "validate_column c col u = Ok v \<longleftrightarrow> v = u + 1 \<and> v \<le> usize_max \<and> fits c (column_cells col)"
  by (cases "sc_default_expression col") (auto simp: validate_column_def column_cells_def)

lemma validate_constraint_Ok [simp]:
  "validate_constraint c k u = Ok v \<longleftrightarrow>
     v = u + 1 \<and> v \<le> usize_max \<and> fits c {tc_name k, tc_definition k}"
  by (auto simp: validate_constraint_def)

lemma for_each_columns:
  "for_each (validate_column c) cols u = Ok v \<longleftrightarrow>
     v = u + length cols \<and> (cols = [] \<or> v \<le> usize_max) \<and> (\<forall>x \<in> set cols. fits c (column_cells x))"
proof (induction cols arbitrary: u)
  case Nil
  show ?case by auto
next
  case (Cons x xs)
  show ?case by (auto simp: Cons.IH)
qed

lemma for_each_constraints:
  "for_each (validate_constraint c) ks u = Ok v \<longleftrightarrow>
     v = u + length ks \<and> (ks = [] \<or> v \<le> usize_max) \<and>
     (\<forall>k \<in> set ks. fits c {tc_name k, tc_definition k})"
proof (induction ks arbitrary: u)
  case Nil
  show ?case by auto
next
  case (Cons x xs)
  show ?case by (auto simp: Cons.IH)
qed

lemma validate_relation_Ok:
  assumes "result_rows c \<le> usize_max"
  shows "validate_relation c r u = Ok v \<longleftrightarrow>
    v = u + relation_units r \<and> v \<le> result_rows c \<and> fits c (relation_cells r)"
  using assms
  by (auto simp: validate_relation_def for_each_columns for_each_constraints relation_units_def
      relation_cells_def)

lemma for_each_relations:
  assumes "result_rows c \<le> usize_max" and "u \<le> result_rows c"
  shows "for_each (validate_relation c) rs u = Ok v \<longleftrightarrow>
    v = u + sum_list (map relation_units rs) \<and> v \<le> result_rows c \<and>
    (\<forall>r \<in> set rs. fits c (relation_cells r))"
  using assms(2)
  by (induction rs arbitrary: u) (auto simp: validate_relation_Ok[OF assms(1)])

lemma validate_schema_Ok:
  assumes "result_rows c \<le> usize_max"
  shows "validate_schema c s u = Ok v \<longleftrightarrow>
    v = u + schema_units s \<and> v \<le> result_rows c \<and> fits c (schema_cells s)"
  using assms for_each_relations[OF assms, of "u + 1" "si_relations s" v]
  by (auto simp: validate_schema_def schema_units_def schema_cells_def)

lemma for_each_schemas:
  assumes "result_rows c \<le> usize_max"
  shows "for_each (validate_schema c) ss u = Ok v \<longleftrightarrow>
    v = u + sum_list (map schema_units ss) \<and> (ss = [] \<or> v \<le> result_rows c) \<and>
    (\<forall>s \<in> set ss. fits c (schema_cells s))"
proof (induction ss arbitrary: u)
  case Nil
  show ?case by auto
next
  case (Cons x xs)
  show ?case by (auto simp: Cons.IH validate_schema_Ok[OF assms])
qed

text \<open>What a valid result is.\<close>

lemma query_result_validate_Ok:
  "query_result_validate render c r = Ok u \<longleftrightarrow>
    length (q_columns r) \<le> columns c \<and> length (q_rows r) \<le> result_rows c \<and>
    is_decimal_or_none (q_affected_rows r) \<and>
    list_all (\<lambda>col. length (rc_name col) \<le> cell_bytes c) (q_columns r) \<and>
    length (q_command_tag r) \<le> cell_bytes c \<and>
    pred_option (\<lambda>v. length v \<le> cell_bytes c) (q_affected_rows r) \<and>
    list_all (\<lambda>row. length row = length (q_columns r)) (q_rows r) \<and>
    list_all (list_all (pred_option (\<lambda>v. length v \<le> cell_bytes c))) (q_rows r) \<and>
    (\<exists>bytes. render (canonicalize (en_query_result r)) = Ok bytes \<and>
       length bytes \<le> result_json_bytes c)"
  by (auto simp: query_result_validate_def check_json_budget_Ok list_all_iff)

lemma schema_result_validate_Ok:
  assumes "result_rows c \<le> usize_max"
  shows "schema_result_validate render c r = Ok u \<longleftrightarrow>
    sum_list (map schema_units r) \<le> result_rows c \<and> list_all (\<lambda>s. fits c (schema_cells s)) r \<and>
    (\<exists>bytes. render (canonicalize (en_schema_result r)) = Ok bytes \<and>
       length bytes \<le> result_json_bytes c)"
  using for_each_schemas[OF assms, of r 0]
  by (auto simp: schema_result_validate_def check_json_budget_Ok list_all_iff)

section \<open>Properties\<close>

text \<open>
  A query request is accepted exactly when its SQL is not blank, has no NUL and fits, and its
  parameters are within the count, free of NUL, and within the byte budget in total; the checked
  additions never refuse a request that is within the budget.
\<close>

theorem query_request_validate_iff:
  assumes "parameter_bytes c \<le> usize_max"
  shows "query_request_validate c q = Ok () \<longleftrightarrow>
    \<not> is_blank (qr_sql q) \<and> nul \<notin> set (qr_sql q) \<and> length (qr_sql q) \<le> sql_bytes c \<and>
    length (qr_parameters q) \<le> parameters c \<and>
    list_all (\<lambda>p. pred_option (\<lambda>v. nul \<notin> set v) (pm_value p)) (qr_parameters q) \<and>
    sum_list (map value_bytes (qr_parameters q)) \<le> parameter_bytes c"
  using for_each_parameters[OF assms, of "qr_parameters q" 0]
  by (auto simp: query_request_validate_def validate_with_limits_def contains_char_def list_all_iff)

theorem query_request_validate_iff_witness:
  "query_request_validate config_default
     \<lparr>qr_sql = ''SELECT 1'', qr_parameters = [\<lparr>pm_type_oid = None, pm_value = Some ''a''\<rparr>]\<rparr> = Ok ()"
  by (subst query_request_validate_iff)
     (simp_all add: config_default_eq default_unchecked_def config_constants usize_max_def
       is_blank_def trim_def nul_def value_bytes_def, code_simp)

text \<open>
  A query result is accepted exactly when its columns, rows, names, tag, counts and cells are
  within the configured limits, every row has one cell per column, the affected-row count is
  decimal text, and the canonical JSON of the whole result is within the JSON budget.
\<close>

theorem query_result_validate_iff:
  "query_result_validate render c r = Ok () \<longleftrightarrow>
    length (q_columns r) \<le> columns c \<and> length (q_rows r) \<le> result_rows c \<and>
    is_decimal_or_none (q_affected_rows r) \<and>
    list_all (\<lambda>col. length (rc_name col) \<le> cell_bytes c) (q_columns r) \<and>
    length (q_command_tag r) \<le> cell_bytes c \<and>
    pred_option (\<lambda>v. length v \<le> cell_bytes c) (q_affected_rows r) \<and>
    list_all (\<lambda>row. length row = length (q_columns r)) (q_rows r) \<and>
    list_all (list_all (pred_option (\<lambda>v. length v \<le> cell_bytes c))) (q_rows r) \<and>
    (\<exists>bytes. render (canonicalize (en_query_result r)) = Ok bytes \<and>
       length bytes \<le> result_json_bytes c)"
  by (rule query_result_validate_Ok)

text \<open>
  A schema response is accepted exactly when its units (one per schema, relation, column and
  constraint) do not exceed the row limit, every name, type, default and definition fits in a
  cell, and its canonical JSON is within the budget: the early checks inside the loops refuse
  nothing the final count would accept, and the last one misses nothing.
\<close>

theorem schema_result_validate_iff:
  assumes "result_rows c \<le> usize_max"
  shows "schema_result_validate render c r = Ok () \<longleftrightarrow>
    sum_list (map schema_units r) \<le> result_rows c \<and> list_all (\<lambda>s. fits c (schema_cells s)) r \<and>
    (\<exists>bytes. render (canonicalize (en_schema_result r)) = Ok bytes \<and>
       length bytes \<le> result_json_bytes c)"
  using assms by (rule schema_result_validate_Ok)

theorem schema_result_validate_iff_witness:
  "schema_result_validate (\<lambda>_. Ok ''{}'') config_default [\<lparr>si_name = ''public'', si_relations = []\<rparr>]
     = Ok ()"
  by (subst schema_result_validate_iff)
     (simp_all add: config_default_eq default_unchecked_def config_constants usize_max_def
       schema_units_def schema_cells_def)

end
