(* ===== verification/Control.thy ===== *)
theory Control
  imports Prelude
begin

text \<open>
  Cancellation tokens, the clock and deadlines. The state \<open>'w\<close> is the world outside the
  modelled code (tokens other threads cancel, the monotonic clock, the processes, sockets and
  the C library the code calls); every read of it is a function that returns the value read
  and the next world, so that two reads may differ. Instants and durations are in
  milliseconds.

  \<open>request_context\<close> is \<open>RequestContext\<close> of \<open>worker.rs\<close>; \<open>poll_control\<close> is the trait
  \<open>PollControl\<close> of \<open>libpq.rs\<close> with its three implementations \<open>LibpqControl\<close>,
  \<open>NoClientCancelControl\<close> and \<open>FactoryControl\<close>.
\<close>

type_synonym ('a, 'w) reader = "'w \<Rightarrow> 'a \<times> 'w"

text \<open>\<open>f() || g()\<close>: \<open>g\<close> is read only when \<open>f\<close> is false.\<close>

definition or_read :: "(bool, 'w) reader \<Rightarrow> (bool, 'w) reader \<Rightarrow> (bool, 'w) reader" where
  "or_read f g w = (case f w of (b, w') \<Rightarrow> if b then (True, w') else g w')"

record 'w request_context =
  rc_cancelled :: "(bool, 'w) reader"  \<comment> \<open>\<open>cancellation.is_cancelled()\<close>\<close>
  rc_stopping :: "(bool, 'w) reader"   \<comment> \<open>\<open>shutdown.is_cancelled()\<close>\<close>
  rc_now :: "(nat, 'w) reader"         \<comment> \<open>\<open>Instant::now()\<close>\<close>
  rc_deadline :: nat
  rc_grace :: nat

definition past :: "(nat, 'w) reader \<Rightarrow> nat \<Rightarrow> (bool, 'w) reader" where
  "past now deadline w = (case now w of (t, w') \<Rightarrow> (deadline \<le> t, w'))"

definition expired :: "'w request_context \<Rightarrow> (bool, 'w) reader" where
  "expired ctx = past (rc_now ctx) (rc_deadline ctx)"

record 'w poll_control =
  pc_shutdown_requested :: "(bool, 'w) reader"
  pc_cancelled :: "(bool, 'w) reader"
  pc_cancel_drain_grace :: nat

definition libpq_control :: "'w request_context \<Rightarrow> 'w poll_control" where
  "libpq_control ctx = \<lparr>
     pc_shutdown_requested = rc_stopping ctx,
     pc_cancelled = or_read (rc_cancelled ctx) (expired ctx),
     pc_cancel_drain_grace = rc_grace ctx\<rparr>"

text \<open>For a dispatched commit or rollback: client cancellation is not observed.\<close>

definition no_client_cancel_control :: "'w request_context \<Rightarrow> 'w poll_control" where
  "no_client_cancel_control ctx = \<lparr>
     pc_shutdown_requested = rc_stopping ctx,
     pc_cancelled = (\<lambda>w. (False, w)),
     pc_cancel_drain_grace = rc_grace ctx\<rparr>"

definition factory_control :: "'w request_context \<Rightarrow> 'w poll_control" where
  "factory_control ctx = \<lparr>
     pc_shutdown_requested = rc_stopping ctx,
     pc_cancelled = or_read (rc_cancelled ctx) (expired ctx),
     pc_cancel_drain_grace = rc_grace ctx\<rparr>"

lemma or_read_False [simp]: "f w = (False, w') \<Longrightarrow> or_read f g w = g w'"
  by (simp add: or_read_def)

lemma or_read_True [simp]: "f w = (True, w') \<Longrightarrow> or_read f g w = (True, w')"
  by (simp add: or_read_def)

lemmas control_defs = libpq_control_def no_client_cancel_control_def factory_control_def


section \<open>Loops\<close>

text \<open>
  Rust's \<open>loop\<close>: the body either breaks with a result or continues with the next state. It
  may run forever, and the body itself may not return; both are \<open>None\<close>.
\<close>

datatype ('s, 'r) flow = Continue 's | Break 'r

partial_function (option) rust_loop :: "('s \<Rightarrow> ('s, 'r) flow option) \<Rightarrow> 's \<Rightarrow> 'r option" where
  "rust_loop body s =
     (case body s of
        None \<Rightarrow> None
      | Some f \<Rightarrow> (case f of Break r \<Rightarrow> Some r | Continue s' \<Rightarrow> rust_loop body s'))"

lemma rust_loop_Break: "body s = Some (Break r) \<Longrightarrow> rust_loop body s = Some r"
  by (subst rust_loop.simps) simp

lemma rust_loop_Continue: "body s = Some (Continue s') \<Longrightarrow> rust_loop body s = rust_loop body s'"
  by (subst rust_loop.simps) simp

text \<open>Partial correctness: an invariant of the body gives the postcondition at the break.\<close>

lemma rust_loop_invariant:
  assumes ret: "rust_loop body s = Some r" and init: "I s"
    and step: "\<And>s s'. I s \<Longrightarrow> body s = Some (Continue s') \<Longrightarrow> I s'"
    and exit: "\<And>s r. I s \<Longrightarrow> body s = Some (Break r) \<Longrightarrow> Q r"
  shows "Q r"
proof -
  have "b = body \<longrightarrow> I s \<longrightarrow> Q r" if "rust_loop b s = Some r" for b
  proof (rule rust_loop.raw_induct [where P = "\<lambda>b s r. b = body \<longrightarrow> I s \<longrightarrow> Q r", OF _ that])
    fix f b s r
    assume IH: "\<And>b s r. f b s = Some r \<Longrightarrow> b = body \<longrightarrow> I s \<longrightarrow> Q r"
      and eq: "(case b s of None \<Rightarrow> None
        | Some f' \<Rightarrow> (case f' of Break r \<Rightarrow> Some r | Continue s' \<Rightarrow> f b s')) = Some r"
    show "b = body \<longrightarrow> I s \<longrightarrow> Q r"
    proof (intro impI)
      assume b: "b = body" and I: "I s"
      from eq b show "Q r"
        by (auto split: option.splits flow.splits dest: exit[OF I] step[OF I] IH)
    qed
  qed
  with ret init show ?thesis by blast
qed

text \<open>Termination: a measure that every round decreases.\<close>

lemma rust_loop_returns:
  fixes m :: "'s \<Rightarrow> nat"
  assumes init: "I s"
    and body: "\<And>s. I s \<Longrightarrow> \<exists>f. body s = Some f"
    and step: "\<And>s s'. I s \<Longrightarrow> body s = Some (Continue s') \<Longrightarrow> I s' \<and> m s' < m s"
  shows "\<exists>r. rust_loop body s = Some r"
  using init
proof (induction "m s" arbitrary: s rule: less_induct)
  case less
  from body[OF less.prems] obtain f where f: "body s = Some f" by blast
  show ?case
  proof (cases f)
    case (Break r)
    with f show ?thesis by (auto intro: rust_loop_Break)
  next
    case (Continue s')
    with f step[OF less.prems] less.hyps have "\<exists>r. rust_loop body s' = Some r" by blast
    with f Continue show ?thesis by (simp add: rust_loop_Continue)
  qed
qed

end
