(* ===== verification/Libpq.thy ===== *)
theory Libpq
  imports Payloads Control
begin

text \<open>
  The parts of \<open>libpq.rs\<close> that make no system call: errors and statuses, the classification of
  command tags, the parsing of the connection string after libpq has split it into options, the
  parameter checks, and the collector that copies result rows within the retention budget. A
  \<open>PGresult\<close> is the record of what its accessors return; a C string is \<open>None\<close> for a null
  pointer. \<open>QueryParameter\<close>, \<open>Column\<close> and \<open>ResultSet\<close> have the fields of \<open>Parameter\<close>,
  \<open>ResultColumn\<close> and \<open>QueryResult\<close> and are modelled by the same records.
\<close>

section \<open>Errors\<close>

datatype error_class =
    AcConfig | AcInvalidInput | AcDatabase | AcDatabaseMismatch | AcConnectionLost
  | AcUnsupportedServer | AcResultLimit | AcCopyUnsupported | AcCancelled
  | AcDeadlineExceeded | AcServerStopping | AcInternal

fun class_code :: "error_class \<Rightarrow> string" where
  "class_code AcConfig = ''CONFIG_ERROR''"
| "class_code AcInvalidInput = ''INVALID_INPUT''"
| "class_code AcDatabase = ''DATABASE_ERROR''"
| "class_code AcDatabaseMismatch = ''DATABASE_MISMATCH''"
| "class_code AcConnectionLost = ''CONNECTION_LOST''"
| "class_code AcUnsupportedServer = ''UNSUPPORTED_SERVER''"
| "class_code AcResultLimit = ''RESULT_LIMIT''"
| "class_code AcCopyUnsupported = ''COPY_UNSUPPORTED''"
| "class_code AcCancelled = ''CANCELLED''"
| "class_code AcDeadlineExceeded = ''DEADLINE_EXCEEDED''"
| "class_code AcServerStopping = ''SERVER_STOPPING''"
| "class_code AcInternal = ''INTERNAL''"

fun class_message :: "error_class \<Rightarrow> string" where
  "class_message AcConfig = ''Invalid server configuration.''"
| "class_message AcInvalidInput = ''Invalid query or parameters.''"
| "class_message AcDatabase = ''PostgreSQL rejected the operation.''"
| "class_message AcDatabaseMismatch = ''Connected database does not match configuration.''"
| "class_message AcConnectionLost = ''Connection lost; operation outcome may be unknown.''"
| "class_message AcUnsupportedServer = ''PostgreSQL server 12 or newer is required.''"
| "class_message AcResultLimit = ''Result exceeds configured limits; execution may have taken effect.''"
| "class_message AcCopyUnsupported = ''COPY streaming is unsupported; connection disposed.''"
| "class_message AcCancelled = ''Request cancelled; execution may have taken effect.''"
| "class_message AcDeadlineExceeded = ''Request deadline exceeded; execution may have taken effect.''"
| "class_message AcServerStopping = ''Server is stopping.''"
| "class_message AcInternal = ''Internal adapter failure.''"

record adapter_error =
  ae_class :: error_class
  ae_sqlstate :: "string option"
  ae_outcome_unknown :: bool

definition adapter_error :: "error_class \<Rightarrow> adapter_error" where
  "adapter_error c = \<lparr>ae_class = c, ae_sqlstate = None, ae_outcome_unknown = False\<rparr>"

definition with_sqlstate :: "string option \<Rightarrow> adapter_error \<Rightarrow> adapter_error" where
  "with_sqlstate s e = e\<lparr>ae_sqlstate := s\<rparr>"

definition unknown :: "adapter_error \<Rightarrow> adapter_error" where
  "unknown e = e\<lparr>ae_outcome_unknown := True\<rparr>"

lemma adapter_error_sel [simp]:
  "ae_class (adapter_error c) = c" "ae_sqlstate (adapter_error c) = None"
  "\<not> ae_outcome_unknown (adapter_error c)"
  "ae_class (unknown e) = ae_class e" "ae_sqlstate (unknown e) = ae_sqlstate e"
  "ae_outcome_unknown (unknown e)"
  "ae_class (with_sqlstate s e) = ae_class e"
  "ae_outcome_unknown (with_sqlstate s e) = ae_outcome_unknown e"
  by (simp_all add: adapter_error_def unknown_def with_sqlstate_def)

datatype cancel_reason = ReasonShutdown | ReasonCancelled | ReasonDeadline

fun reason_error :: "cancel_reason \<Rightarrow> adapter_error" where
  "reason_error ReasonShutdown = adapter_error AcServerStopping"
| "reason_error ReasonCancelled = adapter_error AcCancelled"
| "reason_error ReasonDeadline = adapter_error AcDeadlineExceeded"

section \<open>Command tags\<close>

definition row_only_commands :: "string list" where
  "row_only_commands = [''SELECT'', ''INSERT'', ''UPDATE'', ''DELETE'', ''MERGE'', ''VALUES'',
     ''FETCH'', ''MOVE'', ''SET'', ''SHOW'', ''BEGIN'', ''COMMIT'', ''ROLLBACK'', ''ABORT'',
     ''END'', ''SAVEPOINT'', ''RELEASE'', ''DISCARD'', ''NOTIFY'', ''LISTEN'', ''UNLISTEN'']"

definition catalog_commands :: "string list" where
  "catalog_commands = [''CREATE'', ''ALTER'', ''DROP'', ''TRUNCATE'', ''REINDEX'', ''GRANT'',
     ''REVOKE'', ''COMMENT'', ''REFRESH'', ''SECURITY'', ''DO'', ''CALL'', ''EXECUTE'']"

definition direct_ddl_command_tag :: "string \<Rightarrow> bool" where
  "direct_ddl_command_tag tag =
     (let command = first_ascii_word tag in
      if command \<in> set row_only_commands then False
      else command \<in> set catalog_commands \<or> tag \<noteq> [])"

section \<open>Statuses\<close>

datatype pq_trans = PQTRANS_IDLE | PQTRANS_ACTIVE | PQTRANS_INTRANS | PQTRANS_INERROR | PQTRANS_UNKNOWN

fun map_transaction_status :: "pq_trans \<Rightarrow> transaction_status" where
  "map_transaction_status PQTRANS_IDLE = TsIdle"
| "map_transaction_status PQTRANS_ACTIVE = TsActive"
| "map_transaction_status PQTRANS_INTRANS = TsInTransaction"
| "map_transaction_status PQTRANS_INERROR = TsInError"
| "map_transaction_status PQTRANS_UNKNOWN = TsUnknown"

record status_snapshot =
  ss_connection :: connection_status
  ss_transaction :: transaction_status
  ss_busy :: bool

section \<open>C strings and connection strings\<close>

definition cstr_utf8 :: "string option \<Rightarrow> string option" where
  "cstr_utf8 p = (case p of None \<Rightarrow> None | Some s \<Rightarrow> if utf8_valid s then Some s else None)"

text \<open>\<open>CString::new\<close>\<close>

definition cstring_new :: "'e \<Rightarrow> string \<Rightarrow> 'e + string" where
  "cstring_new e s = (if contains_char s nul then Err e else Ok s)"

type_synonym conninfo_option = "string \<times> string option"  \<comment> \<open>keyword, value\<close>

record dsn =
  dsn_raw :: string
  dsn_database :: string

definition nested_connection_string :: "string \<Rightarrow> bool" where
  "nested_connection_string value =
     (let lower = to_ascii_lowercase value in
      starts_with lower ''postgres://'' \<or> starts_with lower ''postgresql://'' \<or>
      contains_char value CHR ''='' \<or> contains_char value (CHR 0x0A) \<or>
      contains_char value (CHR 0x0D))"

record dsn_scan =
  sc_database :: "string option"
  sc_saw_dbname :: bool
  sc_saw_service :: bool

definition scan_option :: "conninfo_option \<Rightarrow> dsn_scan \<Rightarrow> adapter_error + dsn_scan" where
  "scan_option opt s =
     and_then (ok_or (adapter_error AcConfig) (cstr_utf8 (Some (fst opt)))) (\<lambda>keyword.
     let s = (if eq_ignore_ascii_case keyword ''service'' \<and> snd opt \<noteq> None
              then s\<lparr>sc_saw_service := True\<rparr> else s)
     in if eq_ignore_ascii_case keyword ''dbname'' then
          let s = s\<lparr>sc_saw_dbname := True\<rparr>
          in Ok (case cstr_utf8 (snd opt) of
               Some value \<Rightarrow> if value \<noteq> [] then s\<lparr>sc_database := Some value\<rparr> else s
             | None \<Rightarrow> s)
        else Ok s)"

definition dsn_parse ::
  "(string \<Rightarrow> conninfo_option list option) \<Rightarrow> string \<Rightarrow> adapter_error + dsn" where
  "dsn_parse conninfo_parse value =
     and_then (cstring_new (adapter_error AcConfig) value) (\<lambda>raw.
     and_then (ok_or (adapter_error AcConfig) (conninfo_parse raw)) (\<lambda>options.
     and_then (for_each scan_option options
       \<lparr>sc_database = None, sc_saw_dbname = False, sc_saw_service = False\<rparr>) (\<lambda>s.
     if sc_saw_service s \<or> \<not> sc_saw_dbname s then Err (adapter_error AcConfig)
     else and_then (ok_or (adapter_error AcConfig) (sc_database s)) (\<lambda>database.
       if nested_connection_string database then Err (adapter_error AcConfig)
       else Ok \<lparr>dsn_raw = raw, dsn_database = database\<rparr>))))"

section \<open>Query limits and parameters\<close>

record query_limits =
  ql_sql_bytes :: usize
  ql_parameters :: usize
  ql_parameter_bytes :: usize
  ql_result_rows :: usize
  ql_columns :: usize
  ql_cell_bytes :: usize
  ql_result_json_bytes :: usize

definition unlimited :: "usize \<Rightarrow> query_limits" where
  "unlimited sql_len = \<lparr>ql_sql_bytes = sql_len, ql_parameters = usize_max,
     ql_parameter_bytes = usize_max, ql_result_rows = usize_max, ql_columns = usize_max,
     ql_cell_bytes = usize_max, ql_result_json_bytes = usize_max\<rparr>"

definition add_value_bytes :: "parameter \<Rightarrow> usize \<Rightarrow> adapter_error + usize" where
  "add_value_bytes p acc = (case pm_value p of
     None \<Rightarrow> Ok acc
   | Some value \<Rightarrow>
       if contains_char value nul then Err (adapter_error AcInvalidInput)
       else ok_or (adapter_error AcInvalidInput) (checked_add acc (length value)))"

definition validate_parameters :: "parameter list \<Rightarrow> query_limits \<Rightarrow> adapter_error + unit" where
  "validate_parameters ps limits =
     (if ql_parameters limits < length ps then Err (adapter_error AcInvalidInput)
      else and_then (for_each add_value_bytes ps 0) (\<lambda>acc.
        if ql_parameter_bytes limits < acc then Err (adapter_error AcInvalidInput) else Ok ()))"

text \<open>\<open>c_int::try_from(parameters.len())\<close>\<close>

definition c_int_of :: "usize \<Rightarrow> adapter_error + int" where
  "c_int_of n = (if n < 2 ^ 31 then Ok (int n) else Err (adapter_error AcInvalidInput))"

text \<open>The checks \<open>send_query\<close> makes before it touches the connection.\<close>

definition check_query_input ::
  "string \<Rightarrow> parameter list \<Rightarrow> query_limits \<Rightarrow> adapter_error + unit" where
  "check_query_input sql ps limits =
     (if sql = [] \<or> ql_sql_bytes limits < length sql \<or> contains_char sql nul
      then Err (adapter_error AcInvalidInput)
      else and_then (validate_parameters ps limits) (\<lambda>_.
        and_then (cstring_new (adapter_error AcInvalidInput) sql) (\<lambda>_.
        and_then (c_int_of (length ps)) (\<lambda>_. Ok ()))))"

section \<open>Results\<close>

datatype exec_status =
    PGRES_EMPTY_QUERY | PGRES_COMMAND_OK | PGRES_TUPLES_OK | PGRES_COPY_OUT | PGRES_COPY_IN
  | PGRES_BAD_RESPONSE | PGRES_NONFATAL_ERROR | PGRES_FATAL_ERROR | PGRES_COPY_BOTH
  | PGRES_SINGLE_TUPLE | PGRES_PIPELINE_SYNC | PGRES_PIPELINE_ABORTED | PGRES_TUPLES_CHUNK

record pg_result =
  pg_status :: exec_status
  pg_nfields :: int
  pg_ntuples :: int
  pg_fname :: "nat \<Rightarrow> string option"
  pg_ftype :: "nat \<Rightarrow> 32 word"
  pg_getisnull :: "nat \<Rightarrow> nat \<Rightarrow> bool"
  pg_getlength :: "nat \<Rightarrow> nat \<Rightarrow> int"
  pg_getvalue :: "nat \<Rightarrow> nat \<Rightarrow> string option"
  pg_cmd_status :: "string option"
  pg_cmd_tuples :: "string option"
  pg_sqlstate :: "string option"

definition result_sqlstate :: "pg_result \<Rightarrow> string option" where
  "result_sqlstate r = (case cstr_utf8 (pg_sqlstate r) of
     None \<Rightarrow> None
   | Some value \<Rightarrow>
       if length value = 5 \<and> list_all is_ascii_alphanumeric value then Some value else None)"

section \<open>The result collector\<close>

record collector =
  co_limits :: query_limits
  co_columns :: "result_column list"
  co_rows :: "string option list list"
  co_command_tag :: "string option"
  co_affected_rows :: "string option"

definition collector_new :: "query_limits \<Rightarrow> collector" where
  "collector_new limits = \<lparr>co_limits = limits, co_columns = [], co_rows = [],
     co_command_tag = None, co_affected_rows = None\<rparr>"

definition unwrap_text :: "string option \<Rightarrow> string" where
  "unwrap_text x = (case x of None \<Rightarrow> [] | Some s \<Rightarrow> s)"

text \<open>\<open>finish\<close>, and the public result \<open>ensure_candidate_fits\<close> validates.\<close>

definition finish :: "collector \<Rightarrow> query_result" where
  "finish c = \<lparr>q_columns = co_columns c, q_rows = co_rows c,
     q_command_tag = unwrap_text (co_command_tag c), q_affected_rows = co_affected_rows c\<rparr>"

definition limits_config :: "query_limits \<Rightarrow> config" where
  "limits_config limits = config_default\<lparr>
     result_json_bytes := ql_result_json_bytes limits,
     result_rows := ql_result_rows limits,
     columns := ql_columns limits,
     cell_bytes := ql_cell_bytes limits\<rparr>"

definition ensure_candidate_fits :: "renderer \<Rightarrow> collector \<Rightarrow> adapter_error + unit" where
  "ensure_candidate_fits render c =
     map_err (\<lambda>_. adapter_error AcResultLimit)
       (query_result_validate render (limits_config (co_limits c)) (finish c))"

text \<open>
  A method of \<open>&mut self\<close> that returns a \<open>Result\<close>: the state after an error is kept.
\<close>

type_synonym ('s, 'a) stateful = "'s \<Rightarrow> (adapter_error + 'a) \<times> 's"

fun for_each_m :: "('x \<Rightarrow> ('s, unit) stateful) \<Rightarrow> 'x list \<Rightarrow> ('s, unit) stateful" where
  "for_each_m f [] s = (Ok (), s)"
| "for_each_m f (x # xs) s =
     (case f x s of (Inl e, s') \<Rightarrow> (Err e, s') | (Inr _, s') \<Rightarrow> for_each_m f xs s')"

text \<open>The candidate \<open>c'\<close> is kept when it fits and undone to \<open>c\<close> otherwise.\<close>

definition keep_if_fits :: "renderer \<Rightarrow> collector \<Rightarrow> (collector, unit) stateful" where
  "keep_if_fits render c' c =
     (case ensure_candidate_fits render c' of Inl e \<Rightarrow> (Err e, c) | Inr _ \<Rightarrow> (Ok (), c'))"

definition push_column :: "renderer \<Rightarrow> pg_result \<Rightarrow> nat \<Rightarrow> (collector, unit) stateful" where
  "push_column render r field c =
     (case cstr_utf8 (pg_fname r field) of
        None \<Rightarrow> (Err (adapter_error AcDatabase), c)
      | Some name \<Rightarrow>
          keep_if_fits render
            (c\<lparr>co_columns := co_columns c @ [\<lparr>rc_name = name, rc_type_oid = pg_ftype r field\<rparr>]\<rparr>) c)"

definition copy_cell ::
  "query_limits \<Rightarrow> pg_result \<Rightarrow> nat \<Rightarrow> nat \<Rightarrow> adapter_error + string option" where
  "copy_cell limits r row field =
     (if pg_getisnull r row field then Ok None
      else if pg_getlength r row field < 0 then Err (adapter_error AcDatabase)
      else if int (ql_cell_bytes limits) < pg_getlength r row field
      then Err (adapter_error AcResultLimit)
      else case pg_getvalue r row field of
          None \<Rightarrow> Err (adapter_error AcDatabase)
        | Some p \<Rightarrow>
            let bytes = take (nat (pg_getlength r row field)) p
            in if utf8_valid bytes then Ok (Some bytes) else Err (adapter_error AcDatabase))"

definition push_row :: "renderer \<Rightarrow> pg_result \<Rightarrow> nat \<Rightarrow> nat \<Rightarrow> (collector, unit) stateful" where
  "push_row render r width row c =
     (if ql_result_rows (co_limits c) \<le> length (co_rows c)
      then (Err (adapter_error AcResultLimit), c)
      else case map_result (copy_cell (co_limits c) r row) [0..<width] of
          Inl e \<Rightarrow> (Err e, c)
        | Inr cells \<Rightarrow> keep_if_fits render (c\<lparr>co_rows := co_rows c @ [cells]\<rparr>) c)"

definition consume_rows :: "renderer \<Rightarrow> pg_result \<Rightarrow> (collector, unit) stateful" where
  "consume_rows render r c =
     (if pg_nfields r < 0 \<or> pg_ntuples r < 0 then (Err (adapter_error AcDatabase), c)
      else
        let width = nat (pg_nfields r); rows = nat (pg_ntuples r) in
        if ql_columns (co_limits c) < width then (Err (adapter_error AcResultLimit), c)
        else
          let (res, c') =
            (if co_columns c = [] \<and> 0 < width then for_each_m (push_column render r) [0..<width] c
             else if length (co_columns c) \<noteq> width then (Err (adapter_error AcDatabase), c)
             else (Ok (), c))
          in case res of
              Inl e \<Rightarrow> (Err e, c')
            | Inr _ \<Rightarrow> for_each_m (push_row render r width) [0..<rows] c')"

definition consume_command :: "renderer \<Rightarrow> pg_result \<Rightarrow> (collector, unit) stateful" where
  "consume_command render r c =
     (case cstr_utf8 (pg_cmd_status r) of
        None \<Rightarrow> (Err (adapter_error AcDatabase), c)
      | Some tag \<Rightarrow>
          (case keep_if_fits render (c\<lparr>co_command_tag := Some tag\<rparr>) c of
             (Inl e, c') \<Rightarrow> (Err e, c')
           | (Inr _, c') \<Rightarrow>
               (case cstr_utf8 (pg_cmd_tuples r) of
                  None \<Rightarrow> (Err (adapter_error AcDatabase), c')
                | Some affected \<Rightarrow>
                    if affected = [] then (Ok (), c')
                    else if \<not> list_all is_ascii_digit affected
                    then (Err (adapter_error AcDatabase), c')
                    else keep_if_fits render (c'\<lparr>co_affected_rows := Some affected\<rparr>) c')))"

definition consume_result :: "renderer \<Rightarrow> pg_result \<Rightarrow> (collector, unit) stateful" where
  "consume_result render r c =
     (case pg_status r of
        PGRES_SINGLE_TUPLE \<Rightarrow> consume_rows render r c
      | PGRES_TUPLES_CHUNK \<Rightarrow> consume_rows render r c
      | PGRES_TUPLES_OK \<Rightarrow>
          (case consume_rows render r c of
             (Inl e, c') \<Rightarrow> (Err e, c') | (Inr _, c') \<Rightarrow> consume_command render r c')
      | PGRES_COMMAND_OK \<Rightarrow> consume_command render r c
      | PGRES_COPY_IN \<Rightarrow> (Err (adapter_error AcCopyUnsupported), c)
      | PGRES_COPY_OUT \<Rightarrow> (Err (adapter_error AcCopyUnsupported), c)
      | PGRES_COPY_BOTH \<Rightarrow> (Err (adapter_error AcCopyUnsupported), c)
      | PGRES_FATAL_ERROR \<Rightarrow>
          (Err (with_sqlstate (result_sqlstate r) (adapter_error AcDatabase)), c)
      | PGRES_BAD_RESPONSE \<Rightarrow>
          (Err (with_sqlstate (result_sqlstate r) (adapter_error AcDatabase)), c)
      | PGRES_NONFATAL_ERROR \<Rightarrow>
          (Err (with_sqlstate (result_sqlstate r) (adapter_error AcDatabase)), c)
      | PGRES_EMPTY_QUERY \<Rightarrow> (Err (adapter_error AcInvalidInput), c)
      | _ \<Rightarrow> (Err (adapter_error AcDatabase), c))"

section \<open>Lemmas on connection strings\<close>

text \<open>The database names an option list gives, in order.\<close>

definition is_service :: "conninfo_option \<Rightarrow> bool" where
  "is_service opt \<longleftrightarrow> eq_ignore_ascii_case (fst opt) ''service'' \<and> snd opt \<noteq> None"

definition dbname_of :: "conninfo_option \<Rightarrow> string option" where
  "dbname_of opt =
     (if eq_ignore_ascii_case (fst opt) ''dbname'' then
        (case cstr_utf8 (snd opt) of Some v \<Rightarrow> if v = [] then None else Some v | None \<Rightarrow> None)
      else None)"

definition dbnames :: "conninfo_option list \<Rightarrow> string list" where
  "dbnames opts = List.map_filter dbname_of opts"

lemma cstr_utf8_Some [simp]: "cstr_utf8 (Some s) = (if utf8_valid s then Some s else None)"
  by (simp add: cstr_utf8_def)

lemma eq_ignore_case_lower: "eq_ignore_ascii_case a b \<longleftrightarrow> to_ascii_lowercase a = to_ascii_lowercase b"
  by (simp add: eq_ignore_ascii_case_def)

lemma not_dbname_service:
  "eq_ignore_ascii_case k ''dbname'' \<Longrightarrow> eq_ignore_ascii_case k ''service'' \<Longrightarrow> False"
proof -
  have "to_ascii_lowercase ''dbname'' \<noteq> to_ascii_lowercase ''service''" by code_simp
  then show "eq_ignore_ascii_case k ''dbname'' \<Longrightarrow> eq_ignore_ascii_case k ''service'' \<Longrightarrow> False"
    by (simp add: eq_ignore_case_lower)
qed

definition scan_after :: "dsn_scan \<Rightarrow> conninfo_option \<Rightarrow> dsn_scan" where
  "scan_after s opt = \<lparr>
     sc_database = (case dbname_of opt of Some v \<Rightarrow> Some v | None \<Rightarrow> sc_database s),
     sc_saw_dbname = (sc_saw_dbname s \<or> eq_ignore_ascii_case (fst opt) ''dbname''),
     sc_saw_service = (sc_saw_service s \<or> is_service opt)\<rparr>"

lemma scan_option_Ok [simp]:
  "scan_option opt s = Ok t \<longleftrightarrow> utf8_valid (fst opt) \<and> t = scan_after s opt"
  by (cases s; cases "cstr_utf8 (snd opt)")
     (auto simp: scan_option_def scan_after_def dbname_of_def is_service_def Let_def
       dest: not_dbname_service)

lemma for_each_scan:
  "for_each scan_option opts s = Ok t \<longleftrightarrow>
     list_all (\<lambda>opt. utf8_valid (fst opt)) opts \<and> t = foldl scan_after s opts"
proof (induction opts arbitrary: s)
  case Nil
  show ?case by auto
next
  case (Cons x xs)
  show ?case by (auto simp: Cons.IH)
qed

lemma scan_saw:
  "sc_saw_dbname (foldl scan_after s opts) \<longleftrightarrow>
     sc_saw_dbname s \<or> list_ex (\<lambda>opt. eq_ignore_ascii_case (fst opt) ''dbname'') opts"
  "sc_saw_service (foldl scan_after s opts) \<longleftrightarrow> sc_saw_service s \<or> list_ex is_service opts"
  by (induction opts arbitrary: s) (auto simp: scan_after_def)

lemma dbnames_Cons: "dbnames (opt # opts) =
    (case dbname_of opt of None \<Rightarrow> dbnames opts | Some v \<Rightarrow> v # dbnames opts)"
  by (simp add: dbnames_def List.map_filter_def split: option.split)

lemma scan_database:
  "sc_database (foldl scan_after s opts) =
     (if dbnames opts = [] then sc_database s else Some (last (dbnames opts)))"
proof (induction opts arbitrary: s)
  case Nil
  show ?case by (simp add: dbnames_def List.map_filter_def)
next
  case (Cons x xs)
  have "sc_database (scan_after s x) = (case dbname_of x of Some v \<Rightarrow> Some v | None \<Rightarrow> sc_database s)"
    by (simp add: scan_after_def)
  then show ?case by (simp add: Cons.IH dbnames_Cons split: option.split)
qed

lemma dbnames_saw:
  "dbnames opts \<noteq> [] \<Longrightarrow> list_ex (\<lambda>opt. eq_ignore_ascii_case (fst opt) ''dbname'') opts"
proof (induction opts)
  case Nil
  then show ?case by (simp add: dbnames_def List.map_filter_def)
next
  case (Cons x xs)
  then show ?case
    by (cases "eq_ignore_ascii_case (fst x) ''dbname''") (simp_all add: dbnames_Cons dbname_of_def)
qed

lemma cstring_new_Ok [simp]: "cstring_new e s = Ok t \<longleftrightarrow> nul \<notin> set s \<and> t = s"
  by (auto simp: cstring_new_def contains_char_def)

section \<open>Lemmas on parameters\<close>

lemma add_value_bytes_Ok [simp]:
  "add_value_bytes p acc = Ok t \<longleftrightarrow>
     pred_option (\<lambda>v. nul \<notin> set v) (pm_value p) \<and> t = acc + value_bytes p \<and>
     (pm_value p = None \<or> t \<le> usize_max)"
  by (cases "pm_value p") (auto simp: add_value_bytes_def value_bytes_def contains_char_def)

lemma for_each_value_bytes:
  assumes "acc + sum_list (map value_bytes ps) \<le> usize_max"
    and "\<forall>p \<in> set ps. pred_option (\<lambda>v. nul \<notin> set v) (pm_value p)"
  shows "for_each add_value_bytes ps acc = Ok (acc + sum_list (map value_bytes ps))"
  using assms
proof (induction ps arbitrary: acc)
  case Nil
  show ?case by simp
next
  case (Cons p ps)
  from Cons.prems have "add_value_bytes p acc = Ok (acc + value_bytes p)" by simp
  with Cons.IH[of "acc + value_bytes p"] Cons.prems show ?case by (simp add: add.assoc)
qed

section \<open>Lemmas on the collector\<close>

text \<open>What the collector holds is either nothing or a result that validates.\<close>

definition collector_ok :: "renderer \<Rightarrow> query_limits \<Rightarrow> collector \<Rightarrow> bool" where
  "collector_ok render limits c \<longleftrightarrow> co_limits c = limits \<and>
     (finish c = finish (collector_new limits) \<or>
      query_result_validate render (limits_config limits) (finish c) = Ok ())"

lemma collector_new_ok [simp]: "collector_ok render limits (collector_new limits)"
  by (simp add: collector_ok_def collector_new_def)

lemma keep_if_fits_ok:
  assumes "collector_ok render limits c" and "co_limits c' = limits"
  shows "collector_ok render limits (snd (keep_if_fits render c' c))"
  using assms
  by (cases "query_result_validate render (limits_config limits) (finish c')")
     (auto simp: keep_if_fits_def ensure_candidate_fits_def collector_ok_def)

lemma for_each_m_invariant:
  assumes "P s" and "\<And>x s. P s \<Longrightarrow> P (snd (f x s))"
  shows "P (snd (for_each_m f xs s))"
  using assms(1)
proof (induction xs arbitrary: s)
  case Nil
  then show ?case by simp
next
  case (Cons x xs)
  from assms(2)[OF Cons.prems, of x] show ?case
    by (cases "f x s"; cases "fst (f x s)") (auto intro: Cons.IH)
qed

lemma collector_ok_limits: "collector_ok render limits c \<Longrightarrow> co_limits c = limits"
  by (simp add: collector_ok_def)

lemma push_column_ok:
  "collector_ok render limits c \<Longrightarrow> collector_ok render limits (snd (push_column render r f c))"
  by (auto simp: push_column_def collector_ok_limits intro!: keep_if_fits_ok split: option.split)

lemma push_row_ok:
  "collector_ok render limits c \<Longrightarrow> collector_ok render limits (snd (push_row render r n row c))"
  by (auto simp: push_row_def collector_ok_limits intro!: keep_if_fits_ok split: sum.split)

lemma consume_rows_ok:
  assumes "collector_ok render limits c"
  shows "collector_ok render limits (snd (consume_rows render r c))"
proof -
  have cols: "collector_ok render limits (snd (for_each_m (push_column render r) xs c))" for xs
    using assms push_column_ok by (rule for_each_m_invariant)
  have rows: "collector_ok render limits (snd (for_each_m (push_row render r n) xs c'))"
    if "collector_ok render limits c'" for n xs c'
    using that push_row_ok by (rule for_each_m_invariant)
  show ?thesis
    using assms cols[of "[0..<nat (pg_nfields r)]"] rows
    by (auto simp: consume_rows_def Let_def split: prod.splits sum.splits)
qed

lemma consume_command_ok:
  assumes "collector_ok render limits c"
  shows "collector_ok render limits (snd (consume_command render r c))"
proof -
  have tag: "collector_ok render limits (snd (keep_if_fits render (c\<lparr>co_command_tag := t\<rparr>) c))" for t
    using assms by (rule keep_if_fits_ok) (simp add: collector_ok_limits[OF assms])
  have aff: "collector_ok render limits (snd (keep_if_fits render (c'\<lparr>co_affected_rows := a\<rparr>) c'))"
    if "collector_ok render limits c'" for a c'
    using that by (rule keep_if_fits_ok) (simp add: collector_ok_limits[OF that])
  show ?thesis
  proof (cases "cstr_utf8 (pg_cmd_status r)")
    case None
    with assms show ?thesis by (simp add: consume_command_def)
  next
    case (Some t)
    obtain res c' where k: "keep_if_fits render (c\<lparr>co_command_tag := Some t\<rparr>) c = (res, c')"
      by fastforce
    with tag[of "Some t"] have c': "collector_ok render limits c'" by simp
    show ?thesis
      using Some k c' aff[OF c'] by (auto simp: consume_command_def split: sum.split option.split)
  qed
qed

lemma consume_result_ok:
  assumes "collector_ok render limits c"
  shows "collector_ok render limits (snd (consume_result render r c))"
proof -
  obtain res c' where k: "consume_rows render r c = (res, c')" by fastforce
  with consume_rows_ok[OF assms, of r] have c': "collector_ok render limits c'" by simp
  show ?thesis
    using assms k c' consume_command_ok[OF assms, of r] consume_command_ok[OF c', of r]
    by (auto simp: consume_result_def split: exec_status.split sum.split)
qed

lemma collector_fold_ok:
  "collector_ok render limits c \<Longrightarrow>
     collector_ok render limits (foldl (\<lambda>c r. snd (consume_result render r c)) c rs)"
  by (induction rs arbitrary: c) (simp_all add: consume_result_ok)

text \<open>A COPY result, and only one, is refused as \<open>CopyUnsupported\<close>.\<close>

definition is_copy :: "pg_result \<Rightarrow> bool" where
  "is_copy r \<longleftrightarrow> pg_status r \<in> {PGRES_COPY_IN, PGRES_COPY_OUT, PGRES_COPY_BOTH}"

section \<open>Properties\<close>

text \<open>
  The classification of command tags is decided by the list of row-only commands alone: a
  tag invalidates the schema exactly when it is not empty and its first word is not on that
  list, so the list of catalog commands changes nothing (VACUUM or an unknown tag is dirty too).
\<close>

theorem direct_ddl_command_tag_iff:
  "direct_ddl_command_tag tag \<longleftrightarrow> tag \<noteq> [] \<and> first_ascii_word tag \<notin> set row_only_commands"
proof (cases "tag = []")
  case True
  then show ?thesis
    by (simp add: direct_ddl_command_tag_def catalog_commands_def first_ascii_word_def)
next
  case False
  then show ?thesis by (simp add: direct_ddl_command_tag_def Let_def)
qed

text \<open>
  C35. A connection string is accepted exactly when it has no NUL, libpq parses it, every keyword
  is UTF-8, no service is named, a database is named, and the last name given is not itself a
  connection string; the database is that last name and the string is kept unchanged.
\<close>

theorem dsn_parse_iff:
  "dsn_parse conninfo_parse value = Ok d \<longleftrightarrow>
    nul \<notin> set value \<and> dsn_raw d = value \<and>
    pred_option (\<lambda>opts. list_all (\<lambda>opt. utf8_valid (fst opt)) opts \<and> \<not> list_ex is_service opts \<and>
      dbnames opts \<noteq> [] \<and> dsn_database d = last (dbnames opts)) (conninfo_parse value) \<and>
    conninfo_parse value \<noteq> None \<and> \<not> nested_connection_string (dsn_database d)"
proof (cases "conninfo_parse value")
  case None
  then show ?thesis by (auto simp: dsn_parse_def)
next
  case (Some opts)
  then show ?thesis
    using dbnames_saw[of opts]
    by (cases d) (auto simp: dsn_parse_def for_each_scan scan_saw scan_database)
qed

text \<open>
  The collector never retains more than the budget: after any sequence of results, whether
  they were consumed or refused, the rows, columns and cells held are within the limits, and
  unless nothing is held the canonical JSON of what is held is within the JSON budget.
\<close>

theorem collector_within_budget:
  "let c = foldl (\<lambda>c r. snd (consume_result render r c)) (collector_new limits) rs in
    length (co_columns c) \<le> ql_columns limits \<and> length (co_rows c) \<le> ql_result_rows limits \<and>
    list_all (list_all (pred_option (\<lambda>v. length v \<le> ql_cell_bytes limits))) (co_rows c) \<and>
    list_all (\<lambda>row. length row = length (co_columns c)) (co_rows c) \<and>
    (finish c = finish (collector_new limits) \<or>
     (\<exists>bytes. render (canonicalize (en_query_result (finish c))) = Ok bytes \<and>
        length bytes \<le> ql_result_json_bytes limits))"
proof -
  let ?c = "foldl (\<lambda>c r. snd (consume_result render r c)) (collector_new limits) rs"
  have sel: "q_columns (finish c) = co_columns c" "q_rows (finish c) = co_rows c" for c
    by (simp_all add: finish_def)
  have "collector_ok render limits ?c" by (rule collector_fold_ok) simp
  then show ?thesis
  proof (cases "finish ?c = finish (collector_new limits)")
    case True
    with sel[of ?c] sel[of "collector_new limits"] show ?thesis
      by (simp add: collector_new_def)
  next
    case False
    with \<open>collector_ok render limits ?c\<close>
    have "query_result_validate render (limits_config limits) (finish ?c) = Ok ()"
      by (simp add: collector_ok_def)
    then show ?thesis
      by (simp add: query_result_validate_Ok sel limits_config_def)
  qed
qed

end
