(* ===== verification/Effect.thy ===== *)
theory Effect
  imports Control
begin

text \<open>
  Computations of a thread: a function of the state that may not return (\<open>None\<close>) and otherwise
  gives a \<open>Result\<close> and the next state, which is kept when the result is an error. \<open>post m Q s\<close>
  says that \<open>Q\<close> holds of the result and the state whenever \<open>m\<close> returns from \<open>s\<close>; its rules form
  the collection \<open>post_rules\<close>. \<open>returns m s\<close> is termination, proved separately.
\<close>

type_synonym ('s, 'e, 'a) eff = "'s \<Rightarrow> (('e + 'a) \<times> 's) option"

named_theorems post_rules \<open>postconditions of the computations\<close>

definition ret :: "'a \<Rightarrow> ('s, 'e, 'a) eff" where
  "ret a s = Some (Inr a, s)"

definition throw :: "'e \<Rightarrow> ('s, 'e, 'a) eff" where
  "throw e s = Some (Inl e, s)"

definition bind :: "('s, 'e, 'a) eff \<Rightarrow> ('a \<Rightarrow> ('s, 'e, 'b) eff) \<Rightarrow> ('s, 'e, 'b) eff" where
  "bind m f s = (case m s of
     None \<Rightarrow> None
   | Some (r, s') \<Rightarrow> (case r of Inl e \<Rightarrow> Some (Inl e, s') | Inr a \<Rightarrow> f a s'))"

text \<open>The \<open>Result\<close> itself, as a value.\<close>

definition attempt :: "('s, 'e, 'a) eff \<Rightarrow> ('s, 'f, 'e + 'a) eff" where
  "attempt m s = (case m s of None \<Rightarrow> None | Some (r, s') \<Rightarrow> Some (Inr r, s'))"

definition map_error :: "('e \<Rightarrow> 'f) \<Rightarrow> ('s, 'e, 'a) eff \<Rightarrow> ('s, 'f, 'a) eff" where
  "map_error f m s = (case m s of
     None \<Rightarrow> None
   | Some (r, s') \<Rightarrow> Some (case r of Inl e \<Rightarrow> Inl (f e) | Inr a \<Rightarrow> Inr a, s'))"

definition of_result :: "'e + 'a \<Rightarrow> ('s, 'e, 'a) eff" where
  "of_result r s = Some (r, s)"

definition get_state :: "('s, 'e, 's) eff" where
  "get_state s = Some (Inr s, s)"

definition modify :: "('s \<Rightarrow> 's) \<Rightarrow> ('s, 'e, unit) eff" where
  "modify f s = Some (Inr (), f s)"

text \<open>A reader of the world, the second component of the state.\<close>

definition rd :: "('a, 'w) reader \<Rightarrow> ('c \<times> 'w, 'e, 'a) eff" where
  "rd f s = (case f (snd s) of (a, w) \<Rightarrow> Some (Inr a, (fst s, w)))"

definition act :: "('w \<Rightarrow> 'w) \<Rightarrow> ('c \<times> 'w, 'e, unit) eff" where
  "act f s = Some (Inr (), (fst s, f (snd s)))"

text \<open>\<open>loop { ... }\<close> whose body may also leave with \<open>?\<close>.\<close>

definition loop_body ::
  "('x \<Rightarrow> ('s, 'e, ('x, 'r) flow) eff) \<Rightarrow> 'x \<times> 's \<Rightarrow> ('x \<times> 's, ('e + 'r) \<times> 's) flow option" where
  "loop_body f = (\<lambda>(x, s). case f x s of
     None \<Rightarrow> None
   | Some (r, s') \<Rightarrow> Some (case r of
       Inl e \<Rightarrow> Break (Inl e, s')
     | Inr (Continue x') \<Rightarrow> Continue (x', s')
     | Inr (Break a) \<Rightarrow> Break (Inr a, s')))"

definition eff_loop :: "('x \<Rightarrow> ('s, 'e, ('x, 'r) flow) eff) \<Rightarrow> 'x \<Rightarrow> ('s, 'e, 'r) eff" where
  "eff_loop f x s = rust_loop (loop_body f) (x, s)"

text \<open>Running a computation on a concrete state, by rewriting.\<close>

lemma eff_loop_Break: "f x s = Some (Inr (Break a), s') \<Longrightarrow> eff_loop f x s = Some (Inr a, s')"
  unfolding eff_loop_def by (rule rust_loop_Break) (simp add: loop_body_def)

lemma eff_loop_Err: "f x s = Some (Inl e, s') \<Longrightarrow> eff_loop f x s = Some (Inl e, s')"
  unfolding eff_loop_def by (rule rust_loop_Break) (simp add: loop_body_def)

lemma eff_loop_Continue:
  "f x s = Some (Inr (Continue x'), s') \<Longrightarrow> eff_loop f x s = eff_loop f x' s'"
  unfolding eff_loop_def by (rule rust_loop_Continue) (simp add: loop_body_def)

lemmas eff_run = ret_def throw_def bind_def attempt_def of_result_def get_state_def modify_def
  rd_def act_def map_error_def eff_loop_Break eff_loop_Err eff_loop_Continue

section \<open>Postconditions\<close>

definition post :: "('s, 'e, 'a) eff \<Rightarrow> ('e + 'a \<Rightarrow> 's \<Rightarrow> bool) \<Rightarrow> 's \<Rightarrow> bool" where
  "post m Q s \<longleftrightarrow> (case m s of None \<Rightarrow> True | Some (r, s') \<Rightarrow> Q r s')"

lemma postD: "post m Q s \<Longrightarrow> m s = Some (r, s') \<Longrightarrow> Q r s'"
  by (simp add: post_def)

lemma postI: "(\<And>r s'. m s = Some (r, s') \<Longrightarrow> Q r s') \<Longrightarrow> post m Q s"
  by (auto simp: post_def split: option.split)

lemma post_ret [simp, post_rules]: "post (ret a) Q s = Q (Inr a) s"
  by (simp add: post_def ret_def)

lemma post_throw [simp, post_rules]: "post (throw e) Q s = Q (Inl e) s"
  by (simp add: post_def throw_def)

lemma post_bind [simp, post_rules]:
  "post (bind m f) Q s =
     post m (\<lambda>r s'. case r of Inl e \<Rightarrow> Q (Inl e) s' | Inr a \<Rightarrow> post (f a) Q s') s"
  by (auto simp: post_def bind_def split: option.split sum.split)

lemma post_attempt [simp, post_rules]: "post (attempt m) Q s = post m (\<lambda>r. Q (Inr r)) s"
  by (auto simp: post_def attempt_def split: option.split)

lemma post_map_error [simp, post_rules]:
  "post (map_error f m) Q s =
     post m (\<lambda>r s'. Q (case r of Inl e \<Rightarrow> Inl (f e) | Inr a \<Rightarrow> Inr a) s') s"
  by (auto simp: post_def map_error_def split: option.split sum.split)

lemma post_of_result [simp, post_rules]: "post (of_result r) Q s = Q r s"
  by (simp add: post_def of_result_def)

lemma post_get_state [simp, post_rules]: "post get_state Q s = Q (Inr s) s"
  by (simp add: post_def get_state_def)

lemma post_modify [simp, post_rules]: "post (modify f) Q s = Q (Inr ()) (f s)"
  by (simp add: post_def modify_def)

lemma post_rd [simp, post_rules]:
  "post (rd f) Q (c, w) = Q (Inr (fst (f w))) (c, snd (f w))"
  by (simp add: post_def rd_def case_prod_beta)

lemma post_act [simp, post_rules]: "post (act f) Q (c, w) = Q (Inr ()) (c, f w)"
  by (simp add: post_def act_def)

lemma post_mono: "post m P s \<Longrightarrow> (\<And>r s'. P r s' \<Longrightarrow> Q r s') \<Longrightarrow> post m Q s"
  by (auto simp: post_def split: option.splits)

lemma post_conj: "post m P s \<Longrightarrow> post m Q s \<Longrightarrow> post m (\<lambda>r s'. P r s' \<and> Q r s') s"
  by (auto simp: post_def split: option.splits)

lemma post_True [simp]: "post m (\<lambda>_ _. True) s"
  by (auto simp: post_def split: option.split)

text \<open>The loop rule: an invariant of the round trips gives the postcondition.\<close>

lemma post_loop:
  assumes init: "I x s"
    and body: "\<And>x s. I x s \<Longrightarrow> post (f x) (\<lambda>r s'. case r of
        Inl e \<Rightarrow> Q (Inl e) s'
      | Inr (Continue x') \<Rightarrow> I x' s'
      | Inr (Break a) \<Rightarrow> Q (Inr a) s') s"
  shows "post (eff_loop f x) Q s"
proof (rule postI)
  fix r s'
  assume "eff_loop f x s = Some (r, s')"
  then have "rust_loop (loop_body f) (x, s) = Some (r, s')" by (simp add: eff_loop_def)
  then have "(\<lambda>rs. Q (fst rs) (snd rs)) (r, s')"
  proof (rule rust_loop_invariant[where I = "\<lambda>xs. I (fst xs) (snd xs)"])
    show "I (fst (x, s)) (snd (x, s))" using init by simp
  next
    fix xs xs'
    assume I: "I (fst xs) (snd xs)" and eq: "loop_body f xs = Some (Continue xs')"
    show "I (fst xs') (snd xs')"
      using body[OF I] eq
      by (auto simp: loop_body_def post_def split: option.splits sum.splits flow.splits prod.splits)
  next
    fix xs rs
    assume I: "I (fst xs) (snd xs)" and eq: "loop_body f xs = Some (Break rs)"
    show "Q (fst rs) (snd rs)"
      using body[OF I] eq
      by (auto simp: loop_body_def post_def split: option.splits sum.splits flow.splits prod.splits)
  qed
  then show "Q r s'" by simp
qed

section \<open>Termination\<close>

definition returns :: "('s, 'e, 'a) eff \<Rightarrow> 's \<Rightarrow> bool" where
  "returns m s \<longleftrightarrow> m s \<noteq> None"

lemma returns_simps [simp]:
  "returns (ret a) s" "returns (throw e) s" "returns (of_result r) s" "returns get_state s"
  "returns (modify f) s" "returns (rd g) s'" "returns (act h) s'"
  "returns (attempt m) s \<longleftrightarrow> returns m s"
  by (auto simp: returns_def ret_def throw_def of_result_def get_state_def modify_def rd_def act_def
      attempt_def split: option.split prod.split)

lemma returns_bind:
  "returns m s \<Longrightarrow> post m (\<lambda>r s'. case r of Inl e \<Rightarrow> True | Inr a \<Rightarrow> returns (f a) s') s \<Longrightarrow>
     returns (bind m f) s"
  by (auto simp: returns_def post_def bind_def split: option.splits sum.splits)

lemma returns_loop:
  fixes m :: "'x \<Rightarrow> 's \<Rightarrow> nat"
  assumes init: "I x s"
    and body: "\<And>x s. I x s \<Longrightarrow> returns (f x) s"
    and step: "\<And>x s. I x s \<Longrightarrow> post (f x) (\<lambda>r s'. case r of
        Inr (Continue x') \<Rightarrow> I x' s' \<and> m x' s' < m x s | _ \<Rightarrow> True) s"
  shows "returns (eff_loop f x) s"
proof -
  have "\<exists>r. rust_loop (loop_body f) (x, s) = Some r"
  proof (rule rust_loop_returns[where I = "\<lambda>xs. I (fst xs) (snd xs)" and m = "\<lambda>xs. m (fst xs) (snd xs)"])
    show "I (fst (x, s)) (snd (x, s))" using init by simp
  next
    fix xs
    assume "I (fst xs) (snd xs)"
    from body[OF this] show "\<exists>g. loop_body f xs = Some g"
      by (auto simp: returns_def loop_body_def case_prod_beta)
  next
    fix xs xs'
    assume I: "I (fst xs) (snd xs)" and eq: "loop_body f xs = Some (Continue xs')"
    from step[OF I] eq show "I (fst xs') (snd xs') \<and> m (fst xs') (snd xs') < m (fst xs) (snd xs)"
      by (auto simp: loop_body_def post_def split: option.splits sum.splits flow.splits prod.splits)
  qed
  then show ?thesis by (auto simp: returns_def eff_loop_def)
qed

end
