(* ===== verification/Adapter.thy ===== *)
theory Adapter
  imports Libpq Effect
begin

text \<open>
  The connection of \<open>libpq.rs\<close>: polling, connecting, sending, collecting, cancelling and
  draining. libpq and the operating system are the record \<open>libpq_env\<close> of the functions the code
  calls; each takes the world and returns its C result and the next world. A \<open>Connection\<close> is
  whether it still owns a \<open>PGconn\<close> (\<open>cn_alive\<close>) and its \<open>busy\<close> flag; dropping the owner calls
  \<open>PQfinish\<close>. Every polling loop may run as long as libpq makes it, so the operations are
  partial, and termination is proved from what the clock does.
\<close>

section \<open>libpq\<close>

datatype polling_status =
  POLLING_FAILED | POLLING_READING | POLLING_WRITING | POLLING_OK | POLLING_ACTIVE

text \<open>\<open>poll(2)\<close> of one descriptor: ready with or without an error event and readable or not,
  timed out, interrupted, or failed.\<close>

datatype poll_outcome = PollReady bool bool | PollTimeout | PollInterrupted | PollFailed

record 'w libpq_env =
  env_now :: "(nat, 'w) reader"
  os_poll :: "int \<Rightarrow> bool \<Rightarrow> bool \<Rightarrow> nat \<Rightarrow> (poll_outcome, 'w) reader"
  pq_connect_start :: "string \<Rightarrow> (bool, 'w) reader"
  pq_set_notice_processor :: "'w \<Rightarrow> 'w"
  pq_connect_poll :: "(polling_status, 'w) reader"
  pq_setnonblocking :: "(int, 'w) reader"
  pq_parameter_status :: "string \<Rightarrow> 'w \<Rightarrow> string option"
  pq_status_ok :: "'w \<Rightarrow> bool"
  pq_transaction_status :: "'w \<Rightarrow> pq_trans"
  pq_db :: "'w \<Rightarrow> string option"
  pq_server_version :: "'w \<Rightarrow> int"
  pq_socket :: "(int, 'w) reader"
  pq_send_query_params :: "string \<Rightarrow> 32 word list \<Rightarrow> string option list \<Rightarrow> (int, 'w) reader"
  pq_set_single_row_mode :: "(int, 'w) reader"
  pq_flush :: "(int, 'w) reader"
  pq_consume_input :: "(int, 'w) reader"
  pq_is_busy :: "(int, 'w) reader"
  pq_get_result :: "(pg_result option, 'w) reader"
  pq_clear :: "'w \<Rightarrow> 'w"
  pq_finish :: "'w \<Rightarrow> 'w"
  pq_cancel_create :: "(bool, 'w) reader"
  pq_cancel_start :: "(int, 'w) reader"
  pq_cancel_socket :: "(int, 'w) reader"
  pq_cancel_poll :: "(polling_status, 'w) reader"
  pq_cancel_finish :: "'w \<Rightarrow> 'w"

record connection =
  cn_alive :: bool
  cn_busy :: bool

type_synonym ('w, 'a) conn_op = "(connection \<times> 'w, adapter_error, 'a) eff"

text \<open>The error of a request whose completion was not established.\<close>

definition lost :: adapter_error where
  "lost = unknown (adapter_error AcConnectionLost)"

definition status :: "'w libpq_env \<Rightarrow> connection \<Rightarrow> 'w \<Rightarrow> status_snapshot" where
  "status env c w =
     (if cn_alive c then
        \<lparr>ss_connection = (if pq_status_ok env w then CsOk else CsBad),
         ss_transaction = map_transaction_status (pq_transaction_status env w),
         ss_busy = cn_busy c\<rparr>
      else \<lparr>ss_connection = CsClosed, ss_transaction = TsUnknown, ss_busy = False\<rparr>)"

text \<open>The accessors of a connection, whose owner may be gone.\<close>

definition database_name :: "'w libpq_env \<Rightarrow> connection \<Rightarrow> 'w \<Rightarrow> string option" where
  "database_name env c w = (if cn_alive c then cstr_utf8 (pq_db env w) else None)"

definition server_version :: "'w libpq_env \<Rightarrow> connection \<Rightarrow> 'w \<Rightarrow> int" where
  "server_version env c w = (if cn_alive c then pq_server_version env w else 0)"

definition set_busy :: "bool \<Rightarrow> ('w, unit) conn_op" where
  "set_busy b = modify (\<lambda>(c, w). (c\<lparr>cn_busy := b\<rparr>, w))"

text \<open>\<open>self.conn.take()\<close> drops the owner, which finishes the \<open>PGconn\<close> once.\<close>

definition dispose :: "'w libpq_env \<Rightarrow> ('w, unit) conn_op" where
  "dispose env = modify (\<lambda>(c, w).
     (\<lparr>cn_alive = False, cn_busy = False\<rparr>, if cn_alive c then pq_finish env w else w))"

definition is_alive :: "('w, bool) conn_op" where
  "is_alive = bind get_state (\<lambda>s. ret (cn_alive (fst s)))"

section \<open>Control and polling\<close>

definition check_control :: "'w libpq_env \<Rightarrow> 'w poll_control \<Rightarrow> nat \<Rightarrow> ('w, unit) conn_op" where
  "check_control env ctl deadline =
     bind (rd (pc_shutdown_requested ctl)) (\<lambda>b.
     if b then throw (adapter_error AcServerStopping)
     else bind (rd (pc_cancelled ctl)) (\<lambda>b.
       if b then throw (adapter_error AcCancelled)
       else bind (rd (past (env_now env) deadline)) (\<lambda>b.
         if b then throw (adapter_error AcDeadlineExceeded) else ret ())))"

definition poll_slice :: nat where "poll_slice = 25"

definition poll_fd_body ::
  "'w libpq_env \<Rightarrow> int \<Rightarrow> bool \<Rightarrow> bool \<Rightarrow> nat \<Rightarrow> unit \<Rightarrow> ('w, (unit, bool) flow) conn_op" where
  "poll_fd_body env fd read write deadline _ =
     bind (rd (env_now env)) (\<lambda>now.
     let remaining = deadline - now in
     if remaining = 0 then throw (unknown (adapter_error AcDeadlineExceeded))
     else
       let millis = max (min remaining poll_slice) 1 in
       bind (rd (os_poll env fd read write millis)) (\<lambda>outcome.
       case outcome of
         PollReady failed readable \<Rightarrow> if failed then throw lost else ret (Break readable)
       | PollTimeout \<Rightarrow>
           bind (rd (past (env_now env) deadline)) (\<lambda>b.
           if b then throw (unknown (adapter_error AcDeadlineExceeded)) else ret (Continue ()))
       | PollInterrupted \<Rightarrow> ret (Continue ())
       | PollFailed \<Rightarrow> throw lost))"

definition poll_fd ::
  "'w libpq_env \<Rightarrow> int \<Rightarrow> bool \<Rightarrow> bool \<Rightarrow> nat \<Rightarrow> ('w, bool) conn_op" where
  "poll_fd env fd read write deadline =
     (if fd < 0 \<or> (\<not> read \<and> \<not> write) then throw lost
      else eff_loop (poll_fd_body env fd read write deadline) ())"

definition wait_connection :: "'w libpq_env \<Rightarrow> bool \<Rightarrow> bool \<Rightarrow> nat \<Rightarrow> ('w, unit) conn_op" where
  "wait_connection env read write deadline =
     bind is_alive (\<lambda>alive.
     if \<not> alive then throw lost
     else bind (rd (pq_socket env)) (\<lambda>socket.
       if socket < 0 then throw lost
       else bind (poll_fd env socket read write deadline) (\<lambda>_. ret ())))"

section \<open>Draining\<close>

text \<open>\<open>PQgetResult\<close> until it returns null, clearing each result.\<close>

definition clear_results_body :: "'w libpq_env \<Rightarrow> unit \<Rightarrow> ('w, (unit, unit) flow) conn_op" where
  "clear_results_body env _ =
     bind (rd (pq_get_result env)) (\<lambda>result.
     case result of
       None \<Rightarrow> ret (Break ())
     | Some r \<Rightarrow> bind (act (pq_clear env)) (\<lambda>_. ret (Continue ())))"

definition drain_body :: "'w libpq_env \<Rightarrow> nat \<Rightarrow> unit \<Rightarrow> ('w, (unit, unit) flow) conn_op" where
  "drain_body env deadline _ =
     bind is_alive (\<lambda>alive.
     if \<not> alive then ret (Break ())
     else bind (rd (pq_consume_input env)) (\<lambda>r.
       if r = 0 then throw lost
       else bind (rd (pq_is_busy env)) (\<lambda>b.
         if b \<noteq> 0 then
           bind (rd (pq_socket env)) (\<lambda>socket.
           if socket < 0 then throw lost
           else bind (poll_fd env socket True False deadline) (\<lambda>_. ret (Continue ())))
         else bind (eff_loop (clear_results_body env) ()) (\<lambda>_. ret (Break ())))))"

definition drain_until_idle :: "'w libpq_env \<Rightarrow> nat \<Rightarrow> ('w, unit) conn_op" where
  "drain_until_idle env deadline = eff_loop (drain_body env deadline) ()"

section \<open>Cancelling\<close>

text \<open>\<open>drop(cancel); self.dispose(); return Err(reason.error().unknown())\<close>\<close>

definition abandon :: "'w libpq_env \<Rightarrow> cancel_reason \<Rightarrow> ('w, 'a) conn_op" where
  "abandon env reason = bind (dispose env) (\<lambda>_. throw (unknown (reason_error reason)))"

definition abandon_cancel :: "'w libpq_env \<Rightarrow> cancel_reason \<Rightarrow> ('w, 'a) conn_op" where
  "abandon_cancel env reason = bind (act (pq_cancel_finish env)) (\<lambda>_. abandon env reason)"

definition cancel_wait ::
  "'w libpq_env \<Rightarrow> cancel_reason \<Rightarrow> nat \<Rightarrow> polling_status \<Rightarrow> ('w, unit) conn_op" where
  "cancel_wait env reason deadline state =
     (if state = POLLING_READING \<or> state = POLLING_WRITING then
        bind (rd (pq_cancel_socket env)) (\<lambda>socket.
        if socket < 0 then abandon_cancel env reason
        else bind (attempt (poll_fd env socket (state = POLLING_READING)
                     (state = POLLING_WRITING) deadline)) (\<lambda>r.
          if is_ok r then ret () else abandon_cancel env reason))
      else ret ())"

definition cancel_body ::
  "'w libpq_env \<Rightarrow> cancel_reason \<Rightarrow> nat \<Rightarrow> polling_status \<Rightarrow>
     ('w, (polling_status, bool) flow) conn_op" where
  "cancel_body env reason deadline state =
     bind (rd (past (env_now env) deadline)) (\<lambda>late.
     if late then abandon_cancel env reason
     else case state of
       POLLING_OK \<Rightarrow> ret (Break True)
     | POLLING_FAILED \<Rightarrow> ret (Break False)
     | _ \<Rightarrow>
         bind (cancel_wait env reason deadline state) (\<lambda>_.
         bind (rd (pq_cancel_poll env)) (\<lambda>state'. ret (Continue state'))))"

definition dispatch_cancel ::
  "'w libpq_env \<Rightarrow> cancel_reason \<Rightarrow> nat \<Rightarrow> ('w, bool) conn_op" where
  "dispatch_cancel env reason deadline =
     bind is_alive (\<lambda>alive.
     if \<not> alive then ret False
     else bind (rd (pq_cancel_create env)) (\<lambda>created.
       if \<not> created then abandon env reason
       else bind (rd (pq_cancel_start env)) (\<lambda>r.
         if r = 0 then abandon_cancel env reason
         else
           bind (eff_loop (cancel_body env reason deadline) POLLING_WRITING) (\<lambda>dispatched.
           bind (act (pq_cancel_finish env)) (\<lambda>_. ret dispatched)))))"

definition cancel_and_drain ::
  "'w libpq_env \<Rightarrow> cancel_reason \<Rightarrow> nat \<Rightarrow> ('w, bool) conn_op" where
  "cancel_and_drain env reason deadline =
     bind (dispatch_cancel env reason deadline) (\<lambda>dispatched.
     bind (attempt (drain_until_idle env deadline)) (\<lambda>r.
     if \<not> is_ok r then abandon env reason
     else if dispatched then ret True
     else throw (unknown (reason_error reason))))"

section \<open>Collecting results\<close>

definition flush_body ::
  "'w libpq_env \<Rightarrow> nat \<Rightarrow> 'w poll_control \<Rightarrow> unit \<Rightarrow> ('w, (unit, unit) flow) conn_op" where
  "flush_body env deadline ctl _ =
     bind (check_control env ctl deadline) (\<lambda>_.
     bind is_alive (\<lambda>alive.
     if \<not> alive then throw lost
     else bind (rd (pq_flush env)) (\<lambda>r.
       if r = 0 then ret (Break ())
       else if r = 1 then
         bind (rd (pq_socket env)) (\<lambda>socket.
         if socket < 0 then throw lost
         else bind (poll_fd env socket True True deadline) (\<lambda>readable.
           if readable then
             bind (rd (pq_consume_input env)) (\<lambda>r.
             if r = 0 then throw lost else ret (Continue ()))
           else ret (Continue ())))
       else throw lost)))"

definition flush_output ::
  "'w libpq_env \<Rightarrow> nat \<Rightarrow> 'w poll_control \<Rightarrow> ('w, unit) conn_op" where
  "flush_output env deadline ctl = eff_loop (flush_body env deadline ctl) ()"

text \<open>The reason to stop, read before each round while no error is recorded.\<close>

definition stop_reason ::
  "'w libpq_env \<Rightarrow> nat \<Rightarrow> 'w poll_control \<Rightarrow> ('w, cancel_reason option) conn_op" where
  "stop_reason env deadline ctl =
     bind (rd (pc_shutdown_requested ctl)) (\<lambda>b.
     if b then ret (Some ReasonShutdown)
     else bind (rd (pc_cancelled ctl)) (\<lambda>b.
       if b then ret (Some ReasonCancelled)
       else bind (rd (past (env_now env) deadline)) (\<lambda>b.
         ret (if b then Some ReasonDeadline else None))))"

record collect_state =
  cs_collector :: collector
  cs_first_error :: "adapter_error option"
  cs_drain_deadline :: nat
  cs_cancel_dispatched :: bool

text \<open>Recording a cancellation, once, and dispatching it to the server.\<close>

definition observe_stop ::
  "'w libpq_env \<Rightarrow> nat \<Rightarrow> 'w poll_control \<Rightarrow> collect_state \<Rightarrow> ('w, collect_state) conn_op" where
  "observe_stop env deadline ctl st =
     (if cs_first_error st \<noteq> None then ret st
      else bind (stop_reason env deadline ctl) (\<lambda>reason.
        case reason of
          None \<Rightarrow> ret st
        | Some reason \<Rightarrow>
            bind (rd (env_now env)) (\<lambda>now.
            let drain_deadline = now + pc_cancel_drain_grace ctl;
                st = st\<lparr>cs_first_error := Some (unknown (reason_error reason)),
                        cs_drain_deadline := drain_deadline\<rparr>
            in if cs_cancel_dispatched st then ret st
               else bind (dispatch_cancel env reason drain_deadline) (\<lambda>_.
                 ret (st\<lparr>cs_cancel_dispatched := True\<rparr>)))))"

definition first_error_or_lost :: "collect_state \<Rightarrow> adapter_error" where
  "first_error_or_lost st = (case cs_first_error st of Some e \<Rightarrow> e | None \<Rightarrow> lost)"

text \<open>Once not busy: every result until null, each one consumed and cleared.\<close>

definition results_body ::
  "'w libpq_env \<Rightarrow> renderer \<Rightarrow> collect_state \<Rightarrow> ('w, (collect_state, query_result) flow) conn_op" where
  "results_body env render st =
     bind (rd (pq_get_result env)) (\<lambda>result.
     case result of
       None \<Rightarrow>
         bind (set_busy False) (\<lambda>_.
         case cs_first_error st of
           Some e \<Rightarrow> throw e
         | None \<Rightarrow> ret (Break (finish (cs_collector st))))
     | Some r \<Rightarrow>
         let (res, collector) = consume_result render r (cs_collector st);
             st = st\<lparr>cs_collector := collector\<rparr>
         in bind (act (pq_clear env)) (\<lambda>_.
            case res of
              Inr _ \<Rightarrow> ret (Continue st)
            | Inl e \<Rightarrow>
                if ae_class e = AcCopyUnsupported then
                  bind (dispose env) (\<lambda>_. throw (unknown (adapter_error AcCopyUnsupported)))
                else ret (Continue (st\<lparr>cs_first_error :=
                  (case cs_first_error st of Some d \<Rightarrow> Some d | None \<Rightarrow> Some e)\<rparr>))))"

definition collect_body ::
  "'w libpq_env \<Rightarrow> renderer \<Rightarrow> nat \<Rightarrow> 'w poll_control \<Rightarrow> collect_state \<Rightarrow>
     ('w, (collect_state, query_result) flow) conn_op" where
  "collect_body env render deadline ctl st =
     bind (observe_stop env deadline ctl st) (\<lambda>st.
     bind is_alive (\<lambda>alive.
     if \<not> alive then throw lost
     else bind (rd (pq_consume_input env)) (\<lambda>r.
       if r = 0 then bind (set_busy False) (\<lambda>_. throw lost)
       else bind (rd (pq_is_busy env)) (\<lambda>b.
         if b \<noteq> 0 then
           bind (rd (pq_socket env)) (\<lambda>socket.
           if socket < 0 then bind (dispose env) (\<lambda>_. throw (first_error_or_lost st))
           else bind (attempt (poll_fd env socket True False (cs_drain_deadline st))) (\<lambda>r.
             if is_ok r then ret (Continue st)
             else bind (dispose env) (\<lambda>_. throw (first_error_or_lost st))))
         else bind (eff_loop (results_body env render) st) (\<lambda>r. ret (Break r))))))"

definition collect_results ::
  "'w libpq_env \<Rightarrow> renderer \<Rightarrow> query_limits \<Rightarrow> nat \<Rightarrow> 'w poll_control \<Rightarrow>
     ('w, query_result) conn_op" where
  "collect_results env render limits deadline ctl =
     bind (flush_output env deadline ctl) (\<lambda>_.
     eff_loop (collect_body env render deadline ctl)
       \<lparr>cs_collector = collector_new limits, cs_first_error = None,
        cs_drain_deadline = deadline, cs_cancel_dispatched = False\<rparr>)"

section \<open>Sending\<close>

text \<open>\<open>type_oid.unwrap_or(0)\<close>\<close>

definition oid_of :: "parameter \<Rightarrow> 32 word" where
  "oid_of p = (case pm_type_oid p of None \<Rightarrow> 0 | Some oid \<Rightarrow> oid)"

definition send_params :: "'w libpq_env \<Rightarrow> string \<Rightarrow> parameter list \<Rightarrow> ('w, int) conn_op" where
  "send_params env sql ps =
     rd (pq_send_query_params env sql (map oid_of ps) (map pm_value ps))"

text \<open>After a successful send in single-row mode: the mode, or an internal failure.\<close>

definition single_row_or_fail :: "'w libpq_env \<Rightarrow> nat \<Rightarrow> ('w, unit) conn_op" where
  "single_row_or_fail env deadline =
     bind (rd (pq_set_single_row_mode env)) (\<lambda>r.
     if r \<noteq> 1 then
       bind (attempt (cancel_and_drain env ReasonCancelled deadline)) (\<lambda>_.
       throw (unknown (adapter_error AcInternal)))
     else ret ())"

definition collect_then_idle ::
  "'w libpq_env \<Rightarrow> renderer \<Rightarrow> query_limits \<Rightarrow> nat \<Rightarrow> 'w poll_control \<Rightarrow>
     ('w, query_result) conn_op" where
  "collect_then_idle env render limits deadline ctl =
     bind (attempt (collect_results env render limits deadline ctl)) (\<lambda>result.
     bind (set_busy False) (\<lambda>_. of_result result))"

definition send_query ::
  "'w libpq_env \<Rightarrow> renderer \<Rightarrow> string \<Rightarrow> parameter list \<Rightarrow> query_limits \<Rightarrow> nat \<Rightarrow>
     'w poll_control \<Rightarrow> ('w, query_result) conn_op" where
  "send_query env render sql ps limits deadline ctl =
     bind (of_result (check_query_input sql ps limits)) (\<lambda>_.
     bind (check_control env ctl deadline) (\<lambda>_.
     bind is_alive (\<lambda>alive.
     if \<not> alive then throw (adapter_error AcConnectionLost)
     else bind (send_params env sql ps) (\<lambda>sent.
       if sent = 0 then throw (adapter_error AcDatabase)
       else
         bind (set_busy True) (\<lambda>_.
         bind (single_row_or_fail env deadline) (\<lambda>_.
         collect_then_idle env render limits deadline ctl))))))"

text \<open>The checks of \<open>send_and_collect\<close> before it touches the connection.\<close>

definition check_command_input :: "string \<Rightarrow> parameter list \<Rightarrow> adapter_error + unit" where
  "check_command_input sql ps =
     (if \<not> utf8_valid sql then Err (adapter_error AcInvalidInput)
      else
        and_then (cstring_new (adapter_error AcInvalidInput) sql) (\<lambda>_.
        and_then (validate_parameters ps (unlimited (length sql))) (\<lambda>_.
        and_then (c_int_of (length ps)) (\<lambda>_. Ok ()))))"

definition send_and_collect ::
  "'w libpq_env \<Rightarrow> renderer \<Rightarrow> string \<Rightarrow> parameter list \<Rightarrow> bool \<Rightarrow> nat \<Rightarrow>
     'w poll_control \<Rightarrow> ('w, query_result) conn_op" where
  "send_and_collect env render sql ps single_row deadline ctl =
     bind (of_result (check_command_input sql ps)) (\<lambda>_.
     bind (check_control env ctl deadline) (\<lambda>_.
     bind is_alive (\<lambda>alive.
     if \<not> alive then throw (adapter_error AcConnectionLost)
     else bind (send_params env sql ps) (\<lambda>sent.
       if sent = 0 then throw (adapter_error AcDatabase)
       else
         bind (set_busy True) (\<lambda>_.
         bind (if single_row then single_row_or_fail env deadline else ret ()) (\<lambda>_.
         collect_then_idle env render (unlimited (length sql)) deadline ctl))))))"

definition query_conn ::
  "'w libpq_env \<Rightarrow> renderer \<Rightarrow> string \<Rightarrow> parameter list \<Rightarrow> query_limits \<Rightarrow> nat \<Rightarrow>
     'w poll_control \<Rightarrow> ('w, query_result) conn_op" where
  "query_conn = send_query"

definition execute ::
  "'w libpq_env \<Rightarrow> renderer \<Rightarrow> string \<Rightarrow> nat \<Rightarrow> 'w poll_control \<Rightarrow> ('w, query_result) conn_op" where
  "execute env render sql deadline ctl = send_and_collect env render sql [] False deadline ctl"

section \<open>Connecting\<close>

definition set_nonblocking :: "'w libpq_env \<Rightarrow> ('w, unit) conn_op" where
  "set_nonblocking env =
     bind (rd (pq_setnonblocking env)) (\<lambda>r.
     if r = 0 then ret () else throw (adapter_error AcConnectionLost))"

definition set_encoding_sql :: string where
  "set_encoding_sql =
     ''SET client_encoding TO '' @ [CHR 0x27] @ ''UTF8'' @ [CHR 0x27]"

definition setup_utf8 ::
  "'w libpq_env \<Rightarrow> renderer \<Rightarrow> nat \<Rightarrow> 'w poll_control \<Rightarrow> ('w, unit) conn_op" where
  "setup_utf8 env render deadline ctl =
     bind (send_and_collect env render set_encoding_sql [] False deadline ctl) (\<lambda>result.
     if q_command_tag result \<noteq> ''SET'' then throw (adapter_error AcDatabase)
     else bind get_state (\<lambda>s.
       if cstr_utf8 (pq_parameter_status env ''client_encoding'' (snd s)) \<noteq> Some ''UTF8''
       then throw (adapter_error AcDatabase) else ret ()))"

definition connect_body ::
  "'w libpq_env \<Rightarrow> nat \<Rightarrow> 'w poll_control \<Rightarrow> unit \<Rightarrow> ('w, (unit, unit) flow) conn_op" where
  "connect_body env deadline ctl _ =
     bind (check_control env ctl deadline) (\<lambda>_.
     bind (rd (pq_connect_poll env)) (\<lambda>state.
     bind (check_control env ctl deadline) (\<lambda>_.
     case state of
       POLLING_OK \<Rightarrow> ret (Break ())
     | POLLING_FAILED \<Rightarrow> throw (adapter_error AcConnectionLost)
     | POLLING_ACTIVE \<Rightarrow> ret (Continue ())
     | POLLING_READING \<Rightarrow>
         bind (wait_connection env True False deadline) (\<lambda>_. ret (Continue ()))
     | POLLING_WRITING \<Rightarrow>
         bind (wait_connection env False True deadline) (\<lambda>_. ret (Continue ())))))"

definition server_version_minimum :: int where "server_version_minimum = 120000"

text \<open>The last checks of \<open>connect\<close>: the identity of what was connected.\<close>

definition check_identity :: "'w libpq_env \<Rightarrow> dsn \<Rightarrow> ('w, unit) conn_op" where
  "check_identity env d =
     bind get_state (\<lambda>(c, w).
     let observation = status env c w in
     if ss_connection observation \<noteq> CsOk then throw (adapter_error AcConnectionLost)
     else if ss_transaction observation \<noteq> TsIdle then throw (adapter_error AcDatabase)
     else bind (of_result (ok_or (adapter_error AcDatabase) (database_name env c w))) (\<lambda>actual.
       if actual \<noteq> dsn_database d then throw (adapter_error AcDatabaseMismatch)
       else if server_version env c w < server_version_minimum
       then throw (adapter_error AcUnsupportedServer)
       else ret ()))"

definition connect_steps ::
  "'w libpq_env \<Rightarrow> renderer \<Rightarrow> dsn \<Rightarrow> nat \<Rightarrow> 'w poll_control \<Rightarrow> ('w, unit) conn_op" where
  "connect_steps env render d deadline ctl =
     bind (check_control env ctl deadline) (\<lambda>_.
     bind (rd (pq_connect_start env (dsn_raw d))) (\<lambda>started.
     if \<not> started then throw (adapter_error AcConnectionLost)
     else
       bind (modify (\<lambda>(c, w). (\<lparr>cn_alive = True, cn_busy = False\<rparr>, w))) (\<lambda>_.
       bind (act (pq_set_notice_processor env)) (\<lambda>_.
       bind (eff_loop (connect_body env deadline ctl) ()) (\<lambda>_.
       bind (check_control env ctl deadline) (\<lambda>_.
       bind (set_nonblocking env) (\<lambda>_.
       bind (setup_utf8 env render deadline ctl) (\<lambda>_.
       bind (check_control env ctl deadline) (\<lambda>_.
       check_identity env d)))))))))"

text \<open>On an error the connection is dropped, which finishes it when it was started.\<close>

definition connect ::
  "'w libpq_env \<Rightarrow> renderer \<Rightarrow> dsn \<Rightarrow> nat \<Rightarrow> 'w poll_control \<Rightarrow> 'w \<Rightarrow>
     ((adapter_error + connection) \<times> 'w) option" where
  "connect env render d deadline ctl w =
     (case connect_steps env render d deadline ctl (\<lparr>cn_alive = False, cn_busy = False\<rparr>, w) of
        None \<Rightarrow> None
      | Some (Inr _, (c, w')) \<Rightarrow> Some (Ok c, w')
      | Some (Inl e, (c, w')) \<Rightarrow> Some (Err e, if cn_alive c then pq_finish env w' else w'))"

lemmas adapter_defs = set_busy_def dispose_def is_alive_def check_control_def poll_slice_def
  poll_fd_body_def poll_fd_def wait_connection_def clear_results_body_def drain_body_def
  drain_until_idle_def abandon_def abandon_cancel_def cancel_wait_def cancel_body_def
  dispatch_cancel_def cancel_and_drain_def flush_body_def flush_output_def stop_reason_def
  observe_stop_def results_body_def collect_body_def collect_results_def send_params_def
  single_row_or_fail_def collect_then_idle_def send_query_def send_and_collect_def query_conn_def
  execute_def set_nonblocking_def setup_utf8_def connect_body_def check_identity_def
  connect_steps_def past_def

end
