(* ===== verification/Adapter_Safety.thy ===== *)
theory Adapter_Safety
  imports Adapter
begin

text \<open>
  What the operations of \<open>Adapter\<close> leave behind, for every libpq, clock and control: how the
  connection's ownership and \<open>busy\<close> flag change on every path, what an error promises, and that
  a polling loop ends when the clock advances. Each operation has a rule \<open>..._call\<close> that gives
  the postcondition of a call from what it may return; the rules form \<open>call_rules\<close>.
\<close>

named_theorems call_rules \<open>what a call may return\<close>

section \<open>Operations that only touch the world\<close>

definition refusal :: "adapter_error \<Rightarrow> bool" where
  "refusal e \<longleftrightarrow> e \<in> adapter_error ` {AcServerStopping, AcCancelled, AcDeadlineExceeded}"

definition interrupted :: "adapter_error \<Rightarrow> bool" where
  "interrupted e \<longleftrightarrow> e = lost \<or> e = unknown (adapter_error AcDeadlineExceeded)"

lemma refusal_simps [simp]:
  "refusal (adapter_error AcServerStopping)" "refusal (adapter_error AcCancelled)"
  "refusal (adapter_error AcDeadlineExceeded)"
  by (simp_all add: refusal_def)

lemma interrupted_simps [simp]:
  "interrupted lost" "interrupted (unknown (adapter_error AcDeadlineExceeded))"
  by (simp_all add: interrupted_def)

lemma is_alive_post [simp, post_rules]: "post is_alive Q (c, w) = Q (Inr (cn_alive c)) (c, w)"
  by (simp add: is_alive_def)

lemma set_busy_post [simp, post_rules]:
  "post (set_busy b) Q (c, w) = Q (Inr ()) (c\<lparr>cn_busy := b\<rparr>, w)"
  by (simp add: set_busy_def)

lemma dispose_post [simp, post_rules]:
  "post (dispose env) Q (c, w) = Q (Inr ()) (\<lparr>cn_alive = False, cn_busy = False\<rparr>,
     if cn_alive c then pq_finish env w else w)"
  by (simp add: dispose_def)

lemma check_control_call [call_rules]:
  assumes "\<And>e w'. refusal e \<Longrightarrow> Q (Inl e) (c, w')" and "\<And>w'. Q (Inr ()) (c, w')"
  shows "post (check_control env ctl deadline) Q (c, w)"
  using assms by (simp add: check_control_def)

text \<open>The loop rule when the rounds keep the connection.\<close>

lemma frame_loop:
  fixes f :: "'x \<Rightarrow> ('c \<times> 'w, 'e, ('x, 'r) flow) eff"
  assumes "\<And>x w. P x \<Longrightarrow> post (f x) (\<lambda>r s'. case r of
      Inl e \<Rightarrow> Q (Inl e) s'
    | Inr (Continue x') \<Rightarrow> P x' \<and> fst s' = c
    | Inr (Break a) \<Rightarrow> Q (Inr a) s') (c, w)"
    and "P x"
  shows "post (eff_loop f x) Q (c, w)"
proof (rule post_loop[where I = "\<lambda>x s. P x \<and> fst s = c"])
  show "P x \<and> fst (c, w) = c" using assms(2) by simp
next
  fix x :: 'x and s :: "'c \<times> 'w"
  assume "P x \<and> fst s = c"
  with assms(1)[of x "snd s"] show "post (f x) (\<lambda>r s'. case r of
      Inl e \<Rightarrow> Q (Inl e) s'
    | Inr (Continue x') \<Rightarrow> P x' \<and> fst s' = c
    | Inr (Break a) \<Rightarrow> Q (Inr a) s') s" by (cases s) simp
qed

lemmas unit_loop = frame_loop[where P = "\<lambda>_. True", simplified]

lemma poll_fd_call [call_rules]:
  assumes "\<And>e w'. interrupted e \<Longrightarrow> Q (Inl e) (c, w')" and "\<And>b w'. Q (Inr b) (c, w')"
  shows "post (poll_fd env fd read write deadline) Q (c, w)"
proof -
  have "post (eff_loop (poll_fd_body env fd read write deadline) ()) Q (c, w)"
    by (rule unit_loop)
      (use assms in \<open>simp add: poll_fd_body_def Let_def split: poll_outcome.split\<close>)
  then show ?thesis using assms by (simp add: poll_fd_def)
qed

lemma wait_connection_call [call_rules]:
  assumes "\<And>e w'. interrupted e \<Longrightarrow> Q (Inl e) (c, w')" and "\<And>w'. Q (Inr ()) (c, w')"
  shows "post (wait_connection env read write deadline) Q (c, w)"
  using assms by (auto simp: wait_connection_def intro!: call_rules)

lemma clear_results_call [call_rules]:
  assumes "\<And>w'. Q (Inr ()) (c, w')"
  shows "post (eff_loop (clear_results_body env) ()) Q (c, w)"
  by (rule unit_loop) (use assms in \<open>simp add: clear_results_body_def split: option.split\<close>)

lemma drain_call [call_rules]:
  assumes "\<And>e w'. interrupted e \<Longrightarrow> Q (Inl e) (c, w')" and "\<And>w'. Q (Inr ()) (c, w')"
  shows "post (drain_until_idle env deadline) Q (c, w)"
  unfolding drain_until_idle_def
  by (rule unit_loop) (use assms in \<open>auto simp: drain_body_def intro!: call_rules\<close>)

lemma stop_reason_call [call_rules]:
  assumes "\<And>x w'. Q (Inr x) (c, w')"
  shows "post (stop_reason env deadline ctl) Q (c, w)"
  using assms by (simp add: stop_reason_def)

lemma flush_call [call_rules]:
  assumes "\<And>e w'. refusal e \<or> interrupted e \<Longrightarrow> Q (Inl e) (c, w')" and "\<And>w'. Q (Inr ()) (c, w')"
  shows "post (flush_output env deadline ctl) Q (c, w)"
  unfolding flush_output_def
  by (rule unit_loop) (use assms in \<open>auto simp: flush_body_def intro!: call_rules\<close>)

section \<open>Cancelling\<close>

definition disposed :: connection where
  "disposed = \<lparr>cn_alive = False, cn_busy = False\<rparr>"

lemma disposed_simps [simp]: "\<not> cn_alive disposed" "\<not> cn_busy disposed"
  "\<lparr>cn_alive = False, cn_busy = False\<rparr> = disposed" "disposed\<lparr>cn_busy := False\<rparr> = disposed"
  by (simp_all add: disposed_def)

lemma abandon_call [call_rules]:
  assumes "\<And>w'. Q (Inl (unknown (reason_error reason))) (disposed, w')"
  shows "post (abandon env reason) Q (c, w)"
  using assms by (simp add: abandon_def)

lemma abandon_cancel_call [call_rules]:
  assumes "\<And>w'. Q (Inl (unknown (reason_error reason))) (disposed, w')"
  shows "post (abandon_cancel env reason) Q (c, w)"
  using assms by (auto simp: abandon_cancel_def intro!: call_rules)

lemma cancel_wait_call [call_rules]:
  assumes "\<And>w'. Q (Inl (unknown (reason_error reason))) (disposed, w')"
    and "\<And>w'. Q (Inr ()) (c, w')"
  shows "post (cancel_wait env reason deadline st) Q (c, w)"
  using assms by (auto simp: cancel_wait_def intro!: call_rules)

lemma dispatch_cancel_call [call_rules]:
  assumes "\<And>w'. Q (Inl (unknown (reason_error reason))) (disposed, w')"
    and "\<And>b w'. (b \<Longrightarrow> cn_alive c) \<Longrightarrow> Q (Inr b) (c, w')"
  shows "post (dispatch_cancel env reason deadline) Q (c, w)"
proof -
  have "post (eff_loop (cancel_body env reason deadline) st)
      (\<lambda>r s'. case r of Inl e \<Rightarrow> Q (Inl e) s' | Inr d \<Rightarrow> Q (Inr d) (c, pq_cancel_finish env (snd s')) \<and> fst s' = c)
      (c, w')" if "cn_alive c" for st w'
    by (rule unit_loop)
      (use assms that in \<open>auto simp: cancel_body_def split: polling_status.split intro!: call_rules\<close>)
  then have "post (eff_loop (cancel_body env reason deadline) st)
      (\<lambda>r s'. case r of Inl e \<Rightarrow> Q (Inl e) s' | Inr d \<Rightarrow>
         post (bind (act (pq_cancel_finish env)) (\<lambda>_. ret d)) Q s') (c, w')"
    if "cn_alive c" for st w'
    by (rule post_mono[OF _]) (use that in \<open>auto split: sum.splits\<close>)
  with assms show ?thesis by (auto simp: dispatch_cancel_def intro!: call_rules)
qed

lemma cancel_and_drain_call [call_rules]:
  assumes "\<And>c' w'. c' = c \<or> c' = disposed \<Longrightarrow> Q (Inl (unknown (reason_error reason))) (c', w')"
    and "\<And>w'. cn_alive c \<Longrightarrow> Q (Inr True) (c, w')"
  shows "post (cancel_and_drain env reason deadline) Q (c, w)"
  using assms by (auto simp: cancel_and_drain_def intro!: call_rules)

section \<open>Collecting\<close>

text \<open>What the collection carries: a collector within its budget, and no COPY error recorded.\<close>

definition collect_ok :: "renderer \<Rightarrow> query_limits \<Rightarrow> collect_state \<Rightarrow> bool" where
  "collect_ok render limits st \<longleftrightarrow> collector_ok render limits (cs_collector st) \<and>
     pred_option (\<lambda>e. ae_class e \<noteq> AcCopyUnsupported) (cs_first_error st)"

definition bounded_result :: "renderer \<Rightarrow> query_limits \<Rightarrow> query_result \<Rightarrow> bool" where
  "bounded_result render limits q \<longleftrightarrow> (\<exists>col. collector_ok render limits col \<and> q = finish col)"

text \<open>The errors of a collection: a COPY error only with the connection gone.\<close>

definition collect_error :: "adapter_error \<Rightarrow> connection \<Rightarrow> bool" where
  "collect_error e c \<longleftrightarrow> ae_class e = AcCopyUnsupported \<longrightarrow> c = disposed \<and> ae_outcome_unknown e"

lemma reason_class [simp]: "ae_class (reason_error reason) \<noteq> AcCopyUnsupported"
  by (cases reason) simp_all

lemma lost_sel [simp]: "ae_class lost = AcConnectionLost" "ae_outcome_unknown lost"
  by (simp_all add: lost_def)

lemma interrupted_class: "interrupted e \<Longrightarrow> ae_class e \<noteq> AcCopyUnsupported \<and> ae_class e \<noteq> AcInternal"
  by (auto simp: interrupted_def)

lemma refusal_class: "refusal e \<Longrightarrow> ae_class e \<noteq> AcCopyUnsupported \<and> ae_class e \<noteq> AcInternal"
  by (auto simp: refusal_def)

lemma collect_error_simps [simp]:
  "collect_error lost c" "collect_error (unknown (reason_error reason)) c"
  "collect_error (unknown e) disposed"
  by (simp_all add: collect_error_def)

lemma observe_stop_call:
  assumes "collect_ok render limits st"
    and "\<And>reason w'. Q (Inl (unknown (reason_error reason))) (disposed, w')"
    and "\<And>st' w'. collect_ok render limits st' \<Longrightarrow> Q (Inr st') (c, w')"
  shows "post (observe_stop env deadline ctl st) Q (c, w)"
  using assms
  by (auto simp: observe_stop_def collect_ok_def Let_def intro!: call_rules split: option.split)

lemma first_error_or_lost_ok [simp]:
  "collect_ok render limits st \<Longrightarrow> collect_error (first_error_or_lost st) c"
  by (cases "cs_first_error st")
    (simp_all add: collect_ok_def first_error_or_lost_def collect_error_def)

lemma results_body_step:
  assumes st: "collect_ok render limits st"
    and err: "\<And>e w'. collect_error e (c\<lparr>cn_busy := False\<rparr>) \<Longrightarrow> Q (Inl e) (c\<lparr>cn_busy := False\<rparr>, w')"
    and copy: "\<And>w'. Q (Inl (unknown (adapter_error AcCopyUnsupported))) (disposed, w')"
    and ok: "\<And>q w'. bounded_result render limits q \<Longrightarrow> Q (Inr (Break q)) (c\<lparr>cn_busy := False\<rparr>, w')"
    and continue: "\<And>st' w'. collect_ok render limits st' \<Longrightarrow> Q (Inr (Continue st')) (c, w')"
  shows "post (results_body env render st) Q (c, w)"
proof -
  have finished: "collect_error e c'" if "cs_first_error st = Some e" for e c'
    using st that by (simp add: collect_ok_def collect_error_def)
  have bounded: "bounded_result render limits (finish (cs_collector st))"
    using st by (auto simp: collect_ok_def bounded_result_def)
  have step: "collect_ok render limits (st\<lparr>cs_collector := col\<rparr>)"
    "ae_class e \<noteq> AcCopyUnsupported \<Longrightarrow> collect_ok render limits (st\<lparr>cs_collector := col,
       cs_first_error := (case cs_first_error st of Some d \<Rightarrow> Some d | None \<Rightarrow> Some e)\<rparr>)"
    if "consume_result render r (cs_collector st) = (res, col)" for r res col e
    using st that consume_result_ok[of render limits "cs_collector st" r]
    by (auto simp: collect_ok_def split: option.split)
  show ?thesis
    using err[OF finished] copy ok[OF bounded] continue[OF step(1)] continue[OF step(2)]
    by (auto simp: results_body_def Let_def split: option.split prod.split sum.split)
qed

lemma results_call:
  assumes "collect_ok render limits st"
    and "\<And>e w'. collect_error e (c\<lparr>cn_busy := False\<rparr>) \<Longrightarrow> Q (Inl e) (c\<lparr>cn_busy := False\<rparr>, w')"
    and "\<And>w'. Q (Inl (unknown (adapter_error AcCopyUnsupported))) (disposed, w')"
    and "\<And>q w'. bounded_result render limits q \<Longrightarrow> Q (Inr q) (c\<lparr>cn_busy := False\<rparr>, w')"
  shows "post (eff_loop (results_body env render) st) Q (c, w)"
  by (rule frame_loop[where P = "collect_ok render limits"], rule results_body_step)
    (use assms in auto)

text \<open>Where a failed collection leaves the connection.\<close>

definition stopped :: "connection \<Rightarrow> connection \<Rightarrow> bool" where
  "stopped c c' \<longleftrightarrow> c' = c \<or> c' = c\<lparr>cn_busy := False\<rparr> \<or> c' = disposed"

lemma stopped_simps [simp]: "stopped c c" "stopped c (c\<lparr>cn_busy := False\<rparr>)" "stopped c disposed"
  by (simp_all add: stopped_def)

lemma collect_body_call:
  assumes "collect_ok render limits st"
    and "\<And>e c' w'. collect_error e c' \<Longrightarrow> stopped c c' \<Longrightarrow> Q (Inl e) (c', w')"
    and "\<And>q w'. bounded_result render limits q \<Longrightarrow> cn_alive c \<Longrightarrow>
      Q (Inr (Break q)) (c\<lparr>cn_busy := False\<rparr>, w')"
    and "\<And>st' w'. collect_ok render limits st' \<Longrightarrow> Q (Inr (Continue st')) (c, w')"
  shows "post (collect_body env render deadline ctl st) Q (c, w)"
  unfolding collect_body_def post_bind
  by (rule observe_stop_call[OF assms(1)])
    (auto intro!: assms(2-4) poll_fd_call results_call split: sum.splits)

lemma collect_results_call:
  assumes "\<And>e c' w'. collect_error e c' \<Longrightarrow> stopped c c' \<Longrightarrow> Q (Inl e) (c', w')"
    and "\<And>q w'. bounded_result render limits q \<Longrightarrow> cn_alive c \<Longrightarrow> Q (Inr q) (c\<lparr>cn_busy := False\<rparr>, w')"
  shows "post (collect_results env render limits deadline ctl) Q (c, w)"
proof -
  have start: "collect_ok render limits
      \<lparr>cs_collector = collector_new limits, cs_first_error = None, cs_drain_deadline = deadline,
       cs_cancel_dispatched = False\<rparr>"
    by (simp add: collect_ok_def)
  have loop: "post (eff_loop (collect_body env render deadline ctl)
      \<lparr>cs_collector = collector_new limits, cs_first_error = None, cs_drain_deadline = deadline,
       cs_cancel_dispatched = False\<rparr>) Q (c, w')" for w'
    by (rule frame_loop[where P = "collect_ok render limits"], rule collect_body_call)
      (use assms start in auto)
  have early: "collect_error e c" if "refusal e \<or> interrupted e" for e
    using that refusal_class interrupted_class by (auto simp: collect_error_def)
  show ?thesis
    unfolding collect_results_def post_bind
    by (rule flush_call) (use loop assms(1)[OF early] in auto)
qed

section \<open>Sending\<close>

lemma single_row_call:
  assumes "\<And>c' w'. c' = c \<or> c' = disposed \<Longrightarrow>
      Q (Inl (unknown (adapter_error AcInternal))) (c', w')"
    and "\<And>w'. Q (Inr ()) (c, w')"
  shows "post (single_row_or_fail env deadline) Q (c, w)"
  using assms by (auto simp: single_row_or_fail_def intro!: call_rules)

lemma collect_then_idle_call:
  assumes "\<And>e c' w'. collect_error e c' \<Longrightarrow> c' = c\<lparr>cn_busy := False\<rparr> \<or> c' = disposed \<Longrightarrow>
      Q (Inl e) (c', w')"
    and "\<And>q w'. bounded_result render limits q \<Longrightarrow> cn_alive c \<Longrightarrow> Q (Inr q) (c\<lparr>cn_busy := False\<rparr>, w')"
  shows "post (collect_then_idle env render limits deadline ctl) Q (c, w)"
proof -
  have stop: "Q (Inl e) (c'\<lparr>cn_busy := False\<rparr>, w')" if e: "collect_error e c'" "stopped c c'" for e c' w'
  proof -
    have "collect_error e (c'\<lparr>cn_busy := False\<rparr>)"
      using e(1) by (auto simp: collect_error_def)
    moreover have "c'\<lparr>cn_busy := False\<rparr> = c\<lparr>cn_busy := False\<rparr> \<or> c'\<lparr>cn_busy := False\<rparr> = disposed"
      using e(2) by (auto simp: stopped_def)
    ultimately show ?thesis by (rule assms(1))
  qed
  show ?thesis
    unfolding collect_then_idle_def post_bind post_attempt
    by (rule collect_results_call) (use stop assms(2) in auto)
qed

text \<open>
  The outcomes of sending: before the send the connection is untouched; afterwards it is idle or
  gone, unless single-row mode was refused.
\<close>

definition send_error :: "connection \<Rightarrow> adapter_error \<Rightarrow> connection \<Rightarrow> bool" where
  "send_error c e c' \<longleftrightarrow> collect_error e c' \<and>
     (c' = c \<or> c' = c\<lparr>cn_busy := False\<rparr> \<or> c' = disposed \<or>
      c' = c\<lparr>cn_busy := True\<rparr> \<and> e = unknown (adapter_error AcInternal))"

lemma for_each_error:
  assumes "for_each f xs s = Inl e" and "\<And>x s e. f x s = Inl e \<Longrightarrow> P e"
  shows "P e"
  using assms(1)
proof (induction xs arbitrary: s)
  case Nil
  then show ?case by simp
next
  case (Cons x xs)
  show ?case
  proof (cases "f x s")
    case (Inl d)
    with Cons.prems assms(2)[OF Inl] show ?thesis by simp
  next
    case (Inr t)
    with Cons show ?thesis by simp
  qed
qed

lemma add_value_bytes_error: "add_value_bytes p acc = Inl e \<Longrightarrow> e = adapter_error AcInvalidInput"
  by (cases "pm_value p") (simp_all add: add_value_bytes_def split: if_splits)

lemma validate_parameters_error:
  assumes "validate_parameters ps limits = Inl e"
  shows "e = adapter_error AcInvalidInput"
proof (cases "for_each add_value_bytes ps 0")
  case (Inl d)
  from for_each_error[OF this, of "\<lambda>e. e = adapter_error AcInvalidInput"] add_value_bytes_error
  have "d = adapter_error AcInvalidInput" by blast
  with Inl assms show ?thesis by (simp add: validate_parameters_def split: if_splits)
next
  case (Inr n)
  with assms show ?thesis by (simp add: validate_parameters_def split: if_splits)
qed

lemma cstring_new_error [simp]: "cstring_new d s = Inl e \<longleftrightarrow> nul \<in> set s \<and> e = d"
  by (auto simp: cstring_new_def contains_char_def)

lemma c_int_of_error: "c_int_of n = Inl e \<Longrightarrow> e = adapter_error AcInvalidInput"
  by (simp add: c_int_of_def split: if_splits)

lemma check_query_input_error:
  "check_query_input sql ps limits = Inl e \<Longrightarrow> e = adapter_error AcInvalidInput"
  unfolding check_query_input_def and_then_Err_iff
  by (auto simp: and_then_Err_iff split: if_splits dest: validate_parameters_error c_int_of_error)

lemma check_command_input_error:
  "check_command_input sql ps = Inl e \<Longrightarrow> e = adapter_error AcInvalidInput"
  unfolding check_command_input_def
  by (auto simp: and_then_Err_iff split: if_splits dest: validate_parameters_error c_int_of_error)

lemma send_error_simps [simp]:
  "collect_error e c \<Longrightarrow> send_error c e c"
  "refusal e \<Longrightarrow> send_error c e c"
  "send_error c (unknown (adapter_error AcInternal)) (c\<lparr>cn_busy := True\<rparr>)"
  "send_error c (unknown (adapter_error AcInternal)) disposed"
  by (auto simp: send_error_def collect_error_def refusal_def)

lemma send_error_sent:
  "collect_error e c' \<Longrightarrow> c' = c\<lparr>cn_busy := False\<rparr> \<or> c' = disposed \<Longrightarrow> send_error c e c'"
  by (auto simp: send_error_def)

lemma collect_error_plain [simp]:
  "x \<noteq> AcCopyUnsupported \<Longrightarrow> collect_error (adapter_error x) c"
  by (simp add: collect_error_def)

lemma sent_call:
  assumes err: "\<And>e c' w'. send_error c e c' \<Longrightarrow> Q (Inl e) (c', w')"
    and ok: "\<And>q w'. bounded_result render limits q \<Longrightarrow> cn_alive c \<Longrightarrow> Q (Inr q) (c\<lparr>cn_busy := False\<rparr>, w')"
  shows "post (collect_then_idle env render limits deadline ctl) Q (c\<lparr>cn_busy := True\<rparr>, w)"
  by (rule collect_then_idle_call) (use send_error_sent[where c = c] err ok in auto)

lemma send_query_call:
  assumes err: "\<And>e c' w'. send_error c e c' \<Longrightarrow> Q (Inl e) (c', w')"
    and ok: "\<And>q w'. bounded_result render limits q \<Longrightarrow> cn_alive c \<Longrightarrow> Q (Inr q) (c\<lparr>cn_busy := False\<rparr>, w')"
  shows "post (send_query env render sql ps limits deadline ctl) Q (c, w)"
proof -
  have single: "post (single_row_or_fail env deadline) (\<lambda>r s'. case r of Inl e \<Rightarrow> Q (Inl e) s'
      | Inr a \<Rightarrow> post (collect_then_idle env render limits deadline ctl) Q s') (c\<lparr>cn_busy := True\<rparr>, w')" for w'
    by (rule single_row_call) (auto intro!: sent_call[where render = render and limits = limits] err ok)
  have check: "Q (Inl e) (c, w)" if "check_query_input sql ps limits = Inl e" for e
    using check_query_input_error[OF that] err by simp
  show ?thesis
  proof (cases "check_query_input sql ps limits")
    case (Inl e)
    with check show ?thesis by (simp add: send_query_def)
  next
    case (Inr u)
    then show ?thesis
      by (auto simp: send_query_def send_params_def intro!: check_control_call single err)
  qed
qed

text \<open>Without single-row mode the connection is idle or gone after every outcome.\<close>

definition execute_error :: "connection \<Rightarrow> adapter_error \<Rightarrow> connection \<Rightarrow> bool" where
  "execute_error c e c' \<longleftrightarrow> collect_error e c' \<and>
     (c' = c \<or> c' = c\<lparr>cn_busy := False\<rparr> \<or> c' = disposed)"

lemma send_and_collect_call:
  assumes err: "\<And>e c' w'. execute_error c e c' \<Longrightarrow> Q (Inl e) (c', w')"
    and ok: "\<And>q w'. bounded_result render (unlimited (length sql)) q \<Longrightarrow> cn_alive c \<Longrightarrow>
      Q (Inr q) (c\<lparr>cn_busy := False\<rparr>, w')"
  shows "post (send_and_collect env render sql ps False deadline ctl) Q (c, w)"
proof -
  have sent: "post (collect_then_idle env render (unlimited (length sql)) deadline ctl) Q
      (c\<lparr>cn_busy := True\<rparr>, w')" for w'
    by (rule collect_then_idle_call) (use err ok in \<open>auto simp: execute_error_def\<close>)
  have check: "Q (Inl e) (c, w)" if "check_command_input sql ps = Inl e" for e
    using check_command_input_error[OF that] err by (simp add: execute_error_def)
  have plain: "Q (Inl (adapter_error x)) (c, w')" if "x \<noteq> AcCopyUnsupported" for x w'
    using that err by (simp add: execute_error_def)
  have refused: "Q (Inl e) (c, w')" if "refusal e" for e w'
    using that err refusal_class[OF that] by (simp add: execute_error_def collect_error_def)
  show ?thesis
  proof (cases "check_command_input sql ps")
    case (Inl e)
    with check show ?thesis by (simp add: send_and_collect_def)
  next
    case (Inr u)
    with sent plain show ?thesis
      by (auto simp: send_and_collect_def send_params_def intro!: check_control_call refused)
  qed
qed

lemma execute_call [call_rules]:
  assumes err: "\<And>e c' w'. execute_error c e c' \<Longrightarrow> Q (Inl e) (c', w')"
    and ok: "\<And>q w'. cn_alive c \<Longrightarrow> Q (Inr q) (c\<lparr>cn_busy := False\<rparr>, w')"
  shows "post (execute env render sql deadline ctl) Q (c, w)"
  unfolding execute_def by (rule send_and_collect_call) (use assms in auto)

section \<open>Connecting\<close>

lemma connect_loop_call:
  assumes "\<And>e w'. Q (Inl e) (c, w')" and "\<And>w'. Q (Inr ()) (c, w')"
  shows "post (eff_loop (connect_body env deadline ctl) ()) Q (c, w)"
  by (rule unit_loop)
    (use assms in \<open>auto simp: connect_body_def split: polling_status.split
       intro!: check_control_call wait_connection_call\<close>)

lemma setup_utf8_call:
  assumes "\<And>e c' w'. Q (Inl e) (c', w')" and "\<And>w'. Q (Inr ()) (c\<lparr>cn_busy := False\<rparr>, w')"
  shows "post (setup_utf8 env render deadline ctl) Q (c, w)"
  unfolding setup_utf8_def post_bind by (rule send_and_collect_call) (use assms in auto)

text \<open>What is known of a connection when the last checks pass.\<close>

definition connected_to :: "'w libpq_env \<Rightarrow> dsn \<Rightarrow> connection \<Rightarrow> 'w \<Rightarrow> bool" where
  "connected_to env d c w \<longleftrightarrow>
     status env c w = \<lparr>ss_connection = CsOk, ss_transaction = TsIdle, ss_busy = False\<rparr> \<and>
     pq_db env w = Some (dsn_database d) \<and> server_version_minimum \<le> pq_server_version env w"

lemma cstr_utf8_eq [simp]: "cstr_utf8 x = Some v \<longleftrightarrow> x = Some v \<and> utf8_valid v"
  by (auto simp: cstr_utf8_def split: option.split)

lemma check_identity_call:
  assumes "\<And>e. Q (Inl e) (c, w)"
    and "ss_connection (status env c w) = CsOk \<Longrightarrow> ss_transaction (status env c w) = TsIdle \<Longrightarrow>
      pq_db env w = Some (dsn_database d) \<Longrightarrow>
      server_version_minimum \<le> pq_server_version env w \<Longrightarrow> Q (Inr ()) (c, w)"
  shows "post (check_identity env d) Q (c, w)"
  using assms
  by (cases "cn_alive c"; cases "cstr_utf8 (pq_db env w)")
    (auto simp: check_identity_def database_name_def server_version_def status_def Let_def)

lemma connect_steps_post:
  "post (connect_steps env render d deadline ctl)
     (\<lambda>r s'. case r of Inl e \<Rightarrow> True | Inr _ \<Rightarrow> connected_to env d (fst s') (snd s')) (c, w)"
  by (auto simp: connect_steps_def set_nonblocking_def connected_to_def status_def
      intro!: check_control_call connect_loop_call setup_utf8_call check_identity_call
      split: if_splits)

section \<open>The polling loop ends\<close>

text \<open>A clock: \<open>env_now\<close> reads it, and a \<open>poll\<close> lets it advance.\<close>

definition clocked :: "'w libpq_env \<Rightarrow> ('w \<Rightarrow> nat) \<Rightarrow> bool" where
  "clocked env clk \<longleftrightarrow> (\<forall>w. fst (env_now env w) = clk w \<and> clk (snd (env_now env w)) = clk w) \<and>
     (\<forall>fd r wr ms w. clk w < clk (snd (os_poll env fd r wr ms w)))"

lemma returns_poll_fd:
  assumes clk: "clocked env clk"
  shows "returns (poll_fd env fd read write deadline) (c, w)"
proof -
  have now: "fst (env_now env w) = clk w" "clk (snd (env_now env w)) = clk w" for w
    using clk by (simp_all add: clocked_def)
  have adv: "clk w < clk (snd (os_poll env fd read write ms w))" for ms w
    using clk by (simp add: clocked_def)
  have "returns (eff_loop (poll_fd_body env fd read write deadline) ()) (c, w)"
  proof (rule returns_loop[where I = "\<lambda>_ _. True" and m = "\<lambda>_ s. deadline - clk (snd s)"])
    fix x :: unit and s :: "connection \<times> 'a"
    obtain c w where s: "s = (c, w)" by (cases s)
    show "returns (poll_fd_body env fd read write deadline x) s"
      unfolding s poll_fd_body_def Let_def
      by (auto intro!: returns_bind split: poll_outcome.split)
    have dec: "deadline - clk (snd (os_poll env fd read write ms (snd (env_now env w)))) < deadline - clk w"
      if "clk w < deadline" for ms
      using adv[of "snd (env_now env w)" ms] now(2)[of w] that by simp
    then show "post (poll_fd_body env fd read write deadline x) (\<lambda>r s'. case r of
        Inr (Continue x') \<Rightarrow> True \<and> deadline - clk (snd s') < deadline - clk (snd s) | _ \<Rightarrow> True) s"
      unfolding s poll_fd_body_def Let_def
      by (auto simp: past_def now case_prod_beta split: poll_outcome.split)
  qed simp
  then show ?thesis by (simp add: poll_fd_def)
qed

section \<open>A small server\<close>

text \<open>
  A simulated libpq on which the operations can be run: it answers every command with its first
  word as the command tag, follows BEGIN, COMMIT and ROLLBACK, and lets a \<open>poll\<close> time out.
\<close>

record sim =
  sim_time :: nat
  sim_results :: "string list"  \<comment> \<open>the command tags not yet retrieved\<close>
  sim_trans :: pq_trans
  sim_log :: "string list"

definition command_ok :: "string \<Rightarrow> pg_result" where
  "command_ok tag = \<lparr>pg_status = PGRES_COMMAND_OK, pg_nfields = 0, pg_ntuples = 0,
     pg_fname = (\<lambda>_. None), pg_ftype = (\<lambda>_. 0), pg_getisnull = (\<lambda>_ _. True),
     pg_getlength = (\<lambda>_ _. 0), pg_getvalue = (\<lambda>_ _. None), pg_cmd_status = Some tag,
     pg_cmd_tuples = Some [], pg_sqlstate = None\<rparr>"

definition sim_sent :: "string \<Rightarrow> sim \<Rightarrow> sim" where
  "sim_sent sql w =
     (let tag = first_ascii_word sql in
      w\<lparr>sim_results := [tag],
        sim_trans := (if tag = ''BEGIN'' then PQTRANS_INTRANS
          else if tag = ''COMMIT'' \<or> tag = ''ROLLBACK'' then PQTRANS_IDLE else sim_trans w),
        sim_log := sim_log w @ [sql]\<rparr>)"

definition sim_env :: "sim libpq_env" where
  "sim_env = \<lparr>
     env_now = (\<lambda>w. (sim_time w, w)),
     os_poll = (\<lambda>fd r wr ms w. (PollTimeout, w\<lparr>sim_time := sim_time w + Suc ms\<rparr>)),
     pq_connect_start = (\<lambda>s w. (True, w)), pq_set_notice_processor = (\<lambda>w. w),
     pq_connect_poll = (\<lambda>w. (POLLING_OK, w)), pq_setnonblocking = (\<lambda>w. (0, w)),
     pq_parameter_status = (\<lambda>_ w. Some ''UTF8''), pq_status_ok = (\<lambda>w. True),
     pq_transaction_status = sim_trans, pq_db = (\<lambda>w. Some ''app''),
     pq_server_version = (\<lambda>w. 170000), pq_socket = (\<lambda>w. (3, w)),
     pq_send_query_params = (\<lambda>sql oids values w. (1, sim_sent sql w)),
     pq_set_single_row_mode = (\<lambda>w. (1, w)), pq_flush = (\<lambda>w. (0, w)),
     pq_consume_input = (\<lambda>w. (1, w)), pq_is_busy = (\<lambda>w. (0, w)),
     pq_get_result = (\<lambda>w. case sim_results w of
        [] \<Rightarrow> (None, w) | tag # rs \<Rightarrow> (Some (command_ok tag), w\<lparr>sim_results := rs\<rparr>)),
     pq_clear = (\<lambda>w. w), pq_finish = (\<lambda>w. w), pq_cancel_create = (\<lambda>w. (True, w)),
     pq_cancel_start = (\<lambda>w. (1, w)), pq_cancel_socket = (\<lambda>w. (3, w)),
     pq_cancel_poll = (\<lambda>w. (POLLING_OK, w)), pq_cancel_finish = (\<lambda>w. w)\<rparr>"

definition sim_start :: sim where
  "sim_start = \<lparr>sim_time = 0, sim_results = [], sim_trans = PQTRANS_IDLE, sim_log = []\<rparr>"

definition sim_control :: "sim poll_control" where
  "sim_control = \<lparr>pc_shutdown_requested = (\<lambda>w. (False, w)), pc_cancelled = (\<lambda>w. (False, w)),
     pc_cancel_drain_grace = 5\<rparr>"

definition sim_render :: renderer where
  "sim_render v = Ok ''{}''"

definition sim_limits :: query_limits where
  "sim_limits = \<lparr>ql_sql_bytes = 100, ql_parameters = 2, ql_parameter_bytes = 10,
     ql_result_rows = 3, ql_columns = 2, ql_cell_bytes = 10, ql_result_json_bytes = 50\<rparr>"

definition ready :: connection where
  "ready = \<lparr>cn_alive = True, cn_busy = False\<rparr>"

lemma sim_clocked: "clocked sim_env sim_time"
  by (simp add: clocked_def sim_env_def)

lemma canonical_bytes_sim [simp]: "canonical_json_bytes sim_render v = Ok ''{}''"
  by (simp add: canonical_json_bytes_def sim_render_def)

lemma sim_consume:
  assumes "length tag \<le> ql_cell_bytes limits" and "2 \<le> ql_result_json_bytes limits"
    and "utf8_valid tag"
  shows "consume_result sim_render (command_ok tag) (collector_new limits) =
    (Ok (), (collector_new limits)\<lparr>co_command_tag := Some tag\<rparr>)"
  using assms
  by (simp add: consume_result_def command_ok_def consume_command_def keep_if_fits_def
      ensure_candidate_fits_def query_result_validate_def limits_config_def finish_def
      collector_new_def unwrap_text_def check_json_budget_def is_decimal_or_none_def when_some_def
      check_cell_def cstr_utf8_def utf8_valid_def)

text \<open>Runs on the simulated server, one lemma per operation.\<close>

lemma is_alive_run: "is_alive (c, w) = Some (Inr (cn_alive c), (c, w))"
  by (simp add: is_alive_def eff_run)

lemma set_busy_run: "set_busy b (c, w) = Some (Inr (), (c\<lparr>cn_busy := b\<rparr>, w))"
  by (simp add: set_busy_def eff_run)

text \<open>A control that asks for nothing in this world.\<close>

definition quiet :: "sim poll_control \<Rightarrow> sim \<Rightarrow> bool" where
  "quiet ctl w \<longleftrightarrow>
     pc_shutdown_requested ctl w = (False, w) \<and> pc_cancelled ctl w = (False, w)"

lemma sim_env_sel [simp]:
  "env_now sim_env = (\<lambda>w. (sim_time w, w))" "pq_flush sim_env = (\<lambda>w. (0, w))"
  "pq_consume_input sim_env = (\<lambda>w. (1, w))" "pq_is_busy sim_env = (\<lambda>w. (0, w))"
  "pq_set_single_row_mode sim_env = (\<lambda>w. (1, w))" "pq_clear sim_env = (\<lambda>w. w)"
  "pq_get_result sim_env = (\<lambda>w. case sim_results w of
     [] \<Rightarrow> (None, w) | tag # rs \<Rightarrow> (Some (command_ok tag), w\<lparr>sim_results := rs\<rparr>))"
  "pq_send_query_params sim_env sql oids values = (\<lambda>w. (1, sim_sent sql w))"
  "pq_finish sim_env = (\<lambda>w. w)" "pq_transaction_status sim_env = sim_trans"
  "pq_status_ok sim_env = (\<lambda>w. True)" "pq_connect_start sim_env s = (\<lambda>w. (True, w))"
  "pq_set_notice_processor sim_env = (\<lambda>w. w)" "pq_connect_poll sim_env = (\<lambda>w. (POLLING_OK, w))"
  "pq_setnonblocking sim_env = (\<lambda>w. (0, w))" "pq_db sim_env = (\<lambda>w. Some ''app'')"
  "pq_parameter_status sim_env v = (\<lambda>w. Some ''UTF8'')"
  "pq_server_version sim_env = (\<lambda>w. 170000)"
  by (simp_all add: sim_env_def)

lemma sim_check:
  assumes "quiet ctl w" "sim_time w < deadline"
  shows "check_control sim_env ctl deadline (c, w) = Some (Ok (), (c, w))"
  using assms by (simp add: quiet_def check_control_def eff_run past_def)

lemma sim_flush:
  assumes "quiet ctl w" "sim_time w < deadline" "cn_alive c"
  shows "flush_output sim_env deadline ctl (c, w) = Some (Ok (), (c, w))"
proof -
  have "flush_body sim_env deadline ctl () (c, w) = Some (Ok (Break ()), (c, w))"
    using sim_check[OF assms(1,2)] assms(3) by (simp add: flush_body_def bind_def is_alive_run rd_def ret_def)
  then show ?thesis by (simp add: flush_output_def eff_loop_Break)
qed

lemma sim_observe:
  assumes "quiet ctl w" "sim_time w < deadline" "cs_first_error st = None"
  shows "observe_stop sim_env deadline ctl st (c, w) = Some (Ok st, (c, w))"
  using assms by (simp add: quiet_def observe_stop_def stop_reason_def eff_run past_def)

text \<open>The tag is what the collector makes of the one command result.\<close>

lemma sim_results:
  assumes "cs_first_error st = None" "sim_results w = [tag]"
    and "consume_result sim_render (command_ok tag) (cs_collector st) = (Ok (), col)"
  shows "eff_loop (results_body sim_env sim_render) st (c, w) =
    Some (Ok (finish col), (c\<lparr>cn_busy := False\<rparr>, w\<lparr>sim_results := []\<rparr>))"
proof -
  have "results_body sim_env sim_render st (c, w) =
      Some (Ok (Continue (st\<lparr>cs_collector := col\<rparr>)), (c, w\<lparr>sim_results := []\<rparr>))"
    using assms by (simp add: results_body_def bind_def rd_def act_def ret_def)
  moreover have "results_body sim_env sim_render (st\<lparr>cs_collector := col\<rparr>) (c, w\<lparr>sim_results := []\<rparr>) =
      Some (Ok (Break (finish col)), (c\<lparr>cn_busy := False\<rparr>, w\<lparr>sim_results := []\<rparr>))"
    using assms(1) by (simp add: results_body_def bind_def rd_def ret_def set_busy_run)
  ultimately show ?thesis by (simp add: eff_loop_Continue eff_loop_Break)
qed

lemma sim_collect:
  assumes "quiet ctl w" "sim_time w < deadline" "cn_alive c" "sim_results w = [tag]"
    and "consume_result sim_render (command_ok tag) (collector_new limits) = (Ok (), col)"
  shows "collect_results sim_env sim_render limits deadline ctl (c, w) =
    Some (Ok (finish col), (c\<lparr>cn_busy := False\<rparr>, w\<lparr>sim_results := []\<rparr>))"
proof -
  let ?st = "\<lparr>cs_collector = collector_new limits, cs_first_error = None,
    cs_drain_deadline = deadline, cs_cancel_dispatched = False\<rparr>"
  have "collect_body sim_env sim_render deadline ctl ?st (c, w) =
      Some (Ok (Break (finish col)), (c\<lparr>cn_busy := False\<rparr>, w\<lparr>sim_results := []\<rparr>))"
    using assms sim_results[of ?st w tag col c]
    by (simp add: collect_body_def bind_def sim_observe is_alive_run rd_def ret_def)
  then show ?thesis
    using sim_flush[OF assms(1,2,3)] by (simp add: collect_results_def bind_def eff_loop_Break)
qed

text \<open>The result of a command with the given tag.\<close>

definition tag_result :: "string \<Rightarrow> query_result" where
  "tag_result tag =
     \<lparr>q_columns = [], q_rows = [], q_command_tag = tag, q_affected_rows = None\<rparr>"

lemma sim_finish: "finish ((collector_new limits)\<lparr>co_command_tag := Some tag\<rparr>) = tag_result tag"
  by (simp add: finish_def collector_new_def unwrap_text_def tag_result_def)

text \<open>The world after a command was sent and its result retrieved.\<close>

definition sim_after :: "string \<Rightarrow> sim \<Rightarrow> sim" where
  "sim_after sql w = (sim_sent sql w)\<lparr>sim_results := []\<rparr>"

lemma sim_sent_sel [simp]:
  "sim_time (sim_sent sql w) = sim_time w"
  "sim_results (sim_sent sql w) = [first_ascii_word sql]"
  by (simp_all add: sim_sent_def Let_def)

lemma sim_execute:
  assumes ctl: "quiet ctl w" "quiet ctl (sim_sent sql w)" "sim_time w < deadline" and c: "cn_alive c" "\<not> cn_busy c"
    and input: "check_command_input sql [] = Ok ()"
    and tag: "utf8_valid (first_ascii_word sql)"
    and len: "2 \<le> usize_max" "length (first_ascii_word sql) \<le> usize_max"
  shows "execute sim_env sim_render sql deadline ctl (c, w) =
    Some (Ok (tag_result (first_ascii_word sql)), (c, sim_after sql w))"
proof -
  have "consume_result sim_render (command_ok (first_ascii_word sql))
      (collector_new (unlimited (length sql))) =
      (Ok (), (collector_new (unlimited (length sql)))\<lparr>co_command_tag := Some (first_ascii_word sql)\<rparr>)"
    using tag len by (intro sim_consume) (simp_all add: unlimited_def)
  note collect = sim_collect[OF ctl(2) _ _ _ this, of deadline "c\<lparr>cn_busy := True\<rparr>"]
  show ?thesis
    using collect ctl c input
    by (simp add: execute_def send_and_collect_def bind_def sim_check is_alive_run send_params_def
        rd_def ret_def set_busy_run collect_then_idle_def attempt_def of_result_def sim_finish
        sim_after_def)
qed

lemma sim_query:
  assumes ctl: "quiet ctl w" "quiet ctl (sim_sent sql w)" "sim_time w < deadline" and c: "cn_alive c" "\<not> cn_busy c"
    and input: "check_query_input sql ps limits = Ok ()"
    and tag: "utf8_valid (first_ascii_word sql)" "2 \<le> ql_result_json_bytes limits"
      "length (first_ascii_word sql) \<le> ql_cell_bytes limits"
  shows "query_conn sim_env sim_render sql ps limits deadline ctl (c, w) =
    Some (Ok (tag_result (first_ascii_word sql)), (c, sim_after sql w))"
proof -
  have "consume_result sim_render (command_ok (first_ascii_word sql)) (collector_new limits) =
      (Ok (), (collector_new limits)\<lparr>co_command_tag := Some (first_ascii_word sql)\<rparr>)"
    using tag by (intro sim_consume) simp_all
  note collect = sim_collect[OF ctl(2) _ _ _ this, of deadline "c\<lparr>cn_busy := True\<rparr>"]
  show ?thesis
    using collect ctl c input
    by (simp add: query_conn_def send_query_def bind_def sim_check is_alive_run send_params_def
        single_row_or_fail_def rd_def ret_def set_busy_run collect_then_idle_def attempt_def
        of_result_def sim_finish sim_after_def)
qed

lemma quiet_sim_control [simp]: "quiet sim_control w"
  by (simp add: quiet_def sim_control_def)

lemma sim_input:
  "check_query_input ''UPDATE t'' [] sim_limits = Ok ()"
  by (simp add: check_query_input_def sim_limits_def contains_char_def nul_def
      validate_parameters_def cstring_new_def c_int_of_def)

lemma update_word [simp]: "first_ascii_word ''UPDATE t'' = ''UPDATE''"
  by (simp add: first_ascii_word_def is_ascii_whitespace_def byte_def)

lemma sim_query_run:
  "query_conn sim_env sim_render ''UPDATE t'' [] sim_limits 1000 sim_control (ready, sim_start)
   = Some (Ok (tag_result ''UPDATE''), (ready, sim_after ''UPDATE t'' sim_start))"
  using sim_query[OF quiet_sim_control quiet_sim_control, of sim_start 1000 ready "''UPDATE t''" "[]" sim_limits]
  by (simp add: sim_start_def ready_def sim_input utf8_valid_def byte_def)
    (simp add: sim_limits_def)

section \<open>Properties\<close>



text \<open>
  C11. A successful query was retained within its budget: rows, columns and cells are within the
  limits, and the canonical JSON is too, unless the result is entirely empty.
\<close>

theorem query_result_within_limits:
  assumes "query_conn env render sql ps limits deadline ctl s = Some (Ok q, s')"
  shows "q = finish (collector_new limits) \<or>
    query_result_validate render (limits_config limits) q = Ok ()"
proof -
  obtain c w where s: "s = (c, w)" by (cases s)
  have "post (query_conn env render sql ps limits deadline ctl)
      (\<lambda>r s'. case r of Inr q \<Rightarrow> bounded_result render limits q | Inl e \<Rightarrow> True) (c, w)"
    unfolding query_conn_def by (rule send_query_call) auto
  from postD[OF this] assms s show ?thesis
    by (auto simp: bounded_result_def collector_ok_def)
qed

theorem query_result_within_limits_witness:
  "tag_result ''UPDATE'' = finish (collector_new sim_limits) \<or>
   query_result_validate sim_render (limits_config sim_limits) (tag_result ''UPDATE'') = Ok ()"
  by (rule query_result_within_limits[OF sim_query_run])

text \<open>
  C8. A connection is handed out only after its identity was checked: libpq reports it healthy
  and idle, it is not busy, the database it is connected to is exactly the one the connection
  string names, and the server is version 12 or newer.
\<close>

theorem connect_identity:
  assumes "connect env render d deadline ctl w = Some (Ok c, w')"
  shows "status env c w' = \<lparr>ss_connection = CsOk, ss_transaction = TsIdle, ss_busy = False\<rparr> \<and>
    pq_db env w' = Some (dsn_database d) \<and> 120000 \<le> pq_server_version env w'"
proof -
  let ?start = "\<lparr>cn_alive = False, cn_busy = False\<rparr>"
  obtain c'' w'' r where steps: "connect_steps env render d deadline ctl (?start, w) = Some (r, (c'', w''))"
    using assms by (cases "connect_steps env render d deadline ctl (?start, w)") (auto simp: connect_def)
  with assms obtain u where "r = Inr u" "c'' = c" "w'' = w'"
    by (cases r) (auto simp: connect_def)
  with postD[OF connect_steps_post steps] show ?thesis
    by (simp add: connected_to_def server_version_minimum_def)
qed

definition sim_dsn :: dsn where
  "sim_dsn = \<lparr>dsn_raw = ''dbname=app'', dsn_database = ''app''\<rparr>"

lemma sim_connect_run:
  "connect sim_env sim_render sim_dsn 1000 sim_control sim_start =
     Some (Ok ready, sim_after set_encoding_sql sim_start)"
proof -
  let ?dead = "\<lparr>cn_alive = False, cn_busy = False\<rparr>" and ?w = "sim_after set_encoding_sql sim_start"
  have time: "sim_time sim_start < 1000" "sim_time ?w < 1000"
    by (simp_all add: sim_start_def sim_after_def)
  note check = sim_check[OF quiet_sim_control time(1)] sim_check[OF quiet_sim_control time(2)]
  have word: "first_ascii_word set_encoding_sql = ''SET''"
    by (simp add: set_encoding_sql_def first_ascii_word_def is_ascii_whitespace_def byte_def)
  have input: "check_command_input set_encoding_sql [] = Ok ()"
    by (simp add: check_command_input_def set_encoding_sql_def utf8_valid_def byte_def nul_def
        validate_parameters_def c_int_of_def unlimited_def)
  have run: "execute sim_env sim_render set_encoding_sql 1000 sim_control (ready, sim_start) =
      Some (Ok (tag_result ''SET''), (ready, ?w))"
    using sim_execute[OF quiet_sim_control quiet_sim_control time(1), of ready] word input
    by (simp add: ready_def usize_max_def utf8_valid_def byte_def)
  have loop: "eff_loop (connect_body sim_env 1000 sim_control) () (ready, sim_start) =
      Some (Ok (), (ready, sim_start))"
    by (rule eff_loop_Break) (simp add: connect_body_def bind_def check rd_def ret_def)
  have db: "cstr_utf8 (Some ''app'') = Some ''app''" by (simp add: utf8_valid_def byte_def)
  show ?thesis
    using run loop check
    by (simp add: connect_def connect_steps_def bind_def rd_def act_def modify_def ret_def
        set_nonblocking_def setup_utf8_def execute_def tag_result_def get_state_def
        check_identity_def database_name_def server_version_def of_result_def Let_def status_def ready_def sim_dsn_def utf8_valid_def
        byte_def server_version_minimum_def sim_after_def sim_sent_def word sim_start_def)
qed

theorem connect_identity_witness:
  "status sim_env ready (sim_after set_encoding_sql sim_start)
     = \<lparr>ss_connection = CsOk, ss_transaction = TsIdle, ss_busy = False\<rparr> \<and>
   pq_db sim_env (sim_after set_encoding_sql sim_start) = Some (dsn_database sim_dsn) \<and>
   120000 \<le> pq_server_version sim_env (sim_after set_encoding_sql sim_start)"
  by (rule connect_identity[OF sim_connect_run])

text \<open>
  Polling a descriptor returns: while the clock never goes back and every \<open>poll\<close> lets it
  advance, the loop ends at the latest at the deadline, whatever the descriptor does.
\<close>

theorem poll_fd_returns:
  assumes "clocked env clk"
  shows "\<exists>r c' w'. poll_fd env fd read write deadline (c, w) = Some (r, (c', w'))"
  using returns_poll_fd[OF assms, of fd read "write" deadline c w] by (auto simp: returns_def)

theorem poll_fd_returns_witness:
  "\<exists>r c' w'. poll_fd sim_env 3 True False 100 (ready, sim_start) = Some (r, (c', w'))"
  by (rule poll_fd_returns[OF sim_clocked])

text \<open>
  The deadline of a request is reported as a cancellation: once the clock has reached the
  request's own deadline, the control the worker passes answers that the request is cancelled,
  so the check before an operation fails with \<open>Cancelled\<close> and never with \<open>DeadlineExceeded\<close>.
\<close>

theorem deadline_reported_as_cancelled:
  assumes "rc_stopping ctx w = (False, w1)" and "rc_cancelled ctx w1 = (False, w2)"
    and "rc_now ctx w2 = (t, w3)" and "rc_deadline ctx \<le> t"
  shows "check_control env (libpq_control ctx) (rc_deadline ctx) (c, w)
    = Some (Err (adapter_error AcCancelled), (c, w3))"
  using assms
  by (simp add: check_control_def eff_run libpq_control_def or_read_def expired_def past_def)

theorem deadline_reported_as_cancelled_witness:
  "check_control sim_env (libpq_control \<lparr>rc_cancelled = (\<lambda>w. (False, w)),
      rc_stopping = (\<lambda>w. (False, w)), rc_now = (\<lambda>w. (sim_time w, w)), rc_deadline = 0,
      rc_grace = 5\<rparr>) 0 (ready, sim_start)
   = Some (Err (adapter_error AcCancelled), (ready, sim_start))"
  using deadline_reported_as_cancelled[where env = sim_env and c = ready and w = sim_start
      and ctx = "\<lparr>rc_cancelled = (\<lambda>w. (False, w)), rc_stopping = (\<lambda>w. (False, w)),
        rc_now = (\<lambda>w. (sim_time w, w)), rc_deadline = 0, rc_grace = 5\<rparr>"]
  by simp

end
