(* ===== verification/Schema.thy ===== *)
theory Schema
  imports Adapter_Safety
begin

text \<open>
  Catalog introspection (\<open>schema.rs\<close>): the three fixed statements, the assembly of their rows
  into sorted, bounded metadata, and \<open>retrieve\<close>, which brackets them in a repeatable-read
  transaction. The nested \<open>BTreeMap\<close>s are nested ordered maps.
\<close>

section \<open>The statements\<close>

definition sq :: string where "sq = [CHR 0x27]"

text \<open>A raw string that starts and ends with a line break.\<close>

definition sql_text :: "string list \<Rightarrow> string" where
  "sql_text ls = CHR 0x0A # concat (map (\<lambda>l. l @ [CHR 0x0A]) ls)"

definition relations_sql :: string where
  "relations_sql = sql_text [
     ''SELECT n.nspname, c.relname, c.relkind::text, c.oid::text'',
     ''FROM pg_namespace AS n'',
     ''JOIN pg_class AS c ON c.relnamespace = n.oid'',
     ''WHERE has_schema_privilege(n.oid, '' @ sq @ ''USAGE'' @ sq @ '')'',
     ''  AND n.nspname <> '' @ sq @ ''information_schema'' @ sq,
     ''  AND n.nspname !~ '' @ sq @ ''^pg_'' @ sq,
     ''  AND c.relkind IN ('' @ sq @ ''r'' @ sq @ '','' @ sq @ ''p'' @ sq @ '','' @ sq @ ''v'' @ sq @ '','' @ sq @ ''m'' @ sq @ '','' @ sq @ ''f'' @ sq @ '')'',
     ''  AND ('',
     ''    has_table_privilege(c.oid, '' @ sq @ ''SELECT'' @ sq @ '')'',
     ''    OR has_table_privilege(c.oid, '' @ sq @ ''INSERT'' @ sq @ '')'',
     ''    OR has_table_privilege(c.oid, '' @ sq @ ''UPDATE'' @ sq @ '')'',
     ''    OR has_table_privilege(c.oid, '' @ sq @ ''DELETE'' @ sq @ '')'',
     ''    OR EXISTS ('',
     ''      SELECT 1 FROM pg_attribute AS pa'',
     ''      WHERE pa.attrelid = c.oid AND pa.attnum > 0 AND NOT pa.attisdropped'',
     ''        AND (has_column_privilege(c.oid, pa.attnum, '' @ sq @ ''SELECT'' @ sq @ '')'',
     ''          OR has_column_privilege(c.oid, pa.attnum, '' @ sq @ ''INSERT'' @ sq @ '')'',
     ''          OR has_column_privilege(c.oid, pa.attnum, '' @ sq @ ''UPDATE'' @ sq @ ''))'',
     ''    )'',
     ''  )'',
     ''ORDER BY n.nspname, c.relname, c.oid'']"

definition columns_sql :: string where
  "columns_sql = sql_text [
     ''SELECT n.nspname,'',
     ''       c.relname,'',
     ''       a.attname,'',
     ''       a.attnum::text,'',
     ''       a.atttypid::text,'',
     ''       format_type(a.atttypid, a.atttypmod),'',
     ''       CASE WHEN a.attnotnull THEN '' @ sq @ ''f'' @ sq @ '' ELSE '' @ sq @ ''t'' @ sq @ '' END,'',
     ''       pg_get_expr(ad.adbin, ad.adrelid),'',
     ''       a.attidentity::text,'',
     ''       CASE WHEN a.attgenerated <> '' @ sq @ sq @ '' THEN '' @ sq @ ''t'' @ sq @ '' ELSE '' @ sq @ ''f'' @ sq @ '' END'',
     ''FROM pg_namespace AS n'',
     ''JOIN pg_class AS c ON c.relnamespace = n.oid'',
     ''JOIN pg_attribute AS a ON a.attrelid = c.oid'',
     ''LEFT JOIN pg_attrdef AS ad ON ad.adrelid = a.attrelid AND ad.adnum = a.attnum'',
     ''WHERE has_schema_privilege(n.oid, '' @ sq @ ''USAGE'' @ sq @ '')'',
     ''  AND n.nspname <> '' @ sq @ ''information_schema'' @ sq,
     ''  AND n.nspname !~ '' @ sq @ ''^pg_'' @ sq,
     ''  AND c.relkind IN ('' @ sq @ ''r'' @ sq @ '','' @ sq @ ''p'' @ sq @ '','' @ sq @ ''v'' @ sq @ '','' @ sq @ ''m'' @ sq @ '','' @ sq @ ''f'' @ sq @ '')'',
     ''  AND a.attnum > 0 AND NOT a.attisdropped'',
     ''  AND ('',
     ''    has_table_privilege(c.oid, '' @ sq @ ''SELECT'' @ sq @ '')'',
     ''    OR has_table_privilege(c.oid, '' @ sq @ ''INSERT'' @ sq @ '')'',
     ''    OR has_table_privilege(c.oid, '' @ sq @ ''UPDATE'' @ sq @ '')'',
     ''    OR has_column_privilege(c.oid, a.attnum, '' @ sq @ ''SELECT'' @ sq @ '')'',
     ''    OR has_column_privilege(c.oid, a.attnum, '' @ sq @ ''INSERT'' @ sq @ '')'',
     ''    OR has_column_privilege(c.oid, a.attnum, '' @ sq @ ''UPDATE'' @ sq @ '')'',
     ''  )'',
     ''ORDER BY n.nspname, c.relname, a.attnum'']"

definition constraints_sql :: string where
  "constraints_sql = sql_text [
     ''SELECT n.nspname,'',
     ''       c.relname,'',
     ''       con.conname,'',
     ''       con.contype::text,'',
     ''       pg_get_constraintdef(con.oid, true)'',
     ''FROM pg_namespace AS n'',
     ''JOIN pg_class AS c ON c.relnamespace = n.oid'',
     ''JOIN pg_constraint AS con ON con.conrelid = c.oid'',
     ''WHERE has_schema_privilege(n.oid, '' @ sq @ ''USAGE'' @ sq @ '')'',
     ''  AND n.nspname <> '' @ sq @ ''information_schema'' @ sq,
     ''  AND n.nspname !~ '' @ sq @ ''^pg_'' @ sq,
     ''  AND c.relkind IN ('' @ sq @ ''r'' @ sq @ '','' @ sq @ ''p'' @ sq @ '','' @ sq @ ''v'' @ sq @ '','' @ sq @ ''m'' @ sq @ '','' @ sq @ ''f'' @ sq @ '')'',
     ''  AND ('',
     ''    has_table_privilege(c.oid, '' @ sq @ ''SELECT'' @ sq @ '')'',
     ''    OR has_table_privilege(c.oid, '' @ sq @ ''INSERT'' @ sq @ '')'',
     ''    OR has_table_privilege(c.oid, '' @ sq @ ''UPDATE'' @ sq @ '')'',
     ''    OR has_table_privilege(c.oid, '' @ sq @ ''DELETE'' @ sq @ '')'',
     ''  )'',
     ''ORDER BY n.nspname, c.relname, con.conname'']"

section \<open>Reading rows\<close>

datatype schema_error = SeBackend adapter_error | SeLimit | SeMalformed

type_synonym row = "string option list"

definition optional :: "row \<Rightarrow> nat \<Rightarrow> string option" where
  "optional r i = (if i < length r then r ! i else None)"

definition required :: "row \<Rightarrow> nat \<Rightarrow> schema_error + string" where
  "required r i = ok_or SeMalformed (optional r i)"

definition parse_bool :: "string \<Rightarrow> schema_error + bool" where
  "parse_bool v = (if v = ''t'' then Ok True else if v = ''f'' then Ok False else Err SeMalformed)"

definition relation_kind :: "string \<Rightarrow> schema_error + relation_kind" where
  "relation_kind v = ok_or SeMalformed (map_of [(''r'', RkTable), (''p'', RkPartitionedTable),
     (''v'', RkView), (''m'', RkMaterializedView), (''f'', RkForeignTable)] v)"

definition constraint_kind :: "string \<Rightarrow> schema_error + constraint_kind" where
  "constraint_kind v = ok_or SeMalformed (map_of [(''p'', CkPrimaryKey), (''u'', CkUnique),
     (''f'', CkForeignKey), (''c'', CkCheck), (''x'', CkExclusion)] v)"

definition identity_kind :: "string option \<Rightarrow> schema_error + identity_kind" where
  "identity_kind v = (case v of
     None \<Rightarrow> Ok IkNone
   | Some s \<Rightarrow> ok_or SeMalformed
       (map_of [([], IkNone), (''a'', IkAlways), (''d'', IkByDefault)] s))"

definition parse_number :: "string \<Rightarrow> schema_error + 32 word" where
  "parse_number v = ok_or SeMalformed (parse_u32 v)"

section \<open>Assembly\<close>

type_synonym relations = "(string, relation_info) btree"
type_synonym schema_map = "(string, relations) btree"

text \<open>The columns by ordinal and the constraints by name, both stably.\<close>

definition sort_relation :: "relation_info \<Rightarrow> relation_info" where
  "sort_relation r = r\<lparr>rl_columns := sort_key sc_ordinal (rl_columns r),
     rl_constraints := sort_key tc_name (rl_constraints r)\<rparr>"

definition schema_from_maps :: "schema_map \<Rightarrow> schema_result" where
  "schema_from_maps m = List.map_filter (\<lambda>(name, relations).
     if relations = [] then None
     else Some \<lparr>si_name = name, si_relations = map sort_relation (bt_values relations)\<rparr>) m"

definition limit_error :: "validation_error \<Rightarrow> schema_error" where
  "limit_error e = (case e of VeSchemaLimit \<Rightarrow> SeLimit | VeResultLimit \<Rightarrow> SeLimit | _ \<Rightarrow> SeMalformed)"

definition validate_partial :: "renderer \<Rightarrow> config \<Rightarrow> schema_map \<Rightarrow> schema_error + unit" where
  "validate_partial render c m =
     map_err limit_error (schema_result_validate render c (schema_from_maps m))"

text \<open>Each row adds an object and the whole is validated before the next.\<close>

definition checked :: "renderer \<Rightarrow> config \<Rightarrow> schema_map \<Rightarrow> schema_error + schema_map" where
  "checked render c m = and_then (validate_partial render c m) (\<lambda>_. Ok m)"

definition add_relation ::
  "renderer \<Rightarrow> config \<Rightarrow> row \<Rightarrow> schema_map \<Rightarrow> schema_error + schema_map" where
  "add_relation render c r m =
     (if length r \<noteq> 4 then Err SeMalformed
      else
        and_then (required r 0) (\<lambda>schema.
        and_then (required r 1) (\<lambda>relation.
        and_then (and_then (required r 2) relation_kind) (\<lambda>kind.
        and_then (and_then (required r 3) parse_number) (\<lambda>oid.
        let relations = (case bt_get schema m of Some rs \<Rightarrow> rs | None \<Rightarrow> []);
            relations = (if bt_contains relation relations then relations
              else bt_insert relation
                \<lparr>rl_name = relation, rl_kind = kind, rl_columns = [], rl_constraints = []\<rparr> relations)
        in checked render c (bt_insert schema relations m))))))"

text \<open>\<open>schemas.get_mut(schema).and_then(|r| r.get_mut(relation))\<close>\<close>

definition get_relation :: "string \<Rightarrow> string \<Rightarrow> schema_map \<Rightarrow> relation_info option" where
  "get_relation schema relation m = (case bt_get schema m of
     None \<Rightarrow> None | Some relations \<Rightarrow> bt_get relation relations)"

definition modify_relation ::
  "string \<Rightarrow> string \<Rightarrow> (relation_info \<Rightarrow> relation_info) \<Rightarrow> schema_map \<Rightarrow> schema_map" where
  "modify_relation schema relation f m = bt_modify schema (bt_modify relation f) m"

definition add_column ::
  "renderer \<Rightarrow> config \<Rightarrow> row \<Rightarrow> schema_map \<Rightarrow> schema_error + schema_map" where
  "add_column render c r m =
     (if length r \<noteq> 10 then Err SeMalformed
      else
        and_then (required r 0) (\<lambda>schema.
        and_then (required r 1) (\<lambda>relation.
        if get_relation schema relation m = None then Err SeMalformed
        else
          and_then (and_then (required r 3) parse_number) (\<lambda>ordinal.
          and_then (and_then (required r 4) parse_number) (\<lambda>oid.
          and_then (and_then (required r 6) parse_bool) (\<lambda>nullable.
          and_then (identity_kind (optional r 8)) (\<lambda>identity.
          and_then (required r 2) (\<lambda>name.
          and_then (required r 5) (\<lambda>type_name.
          and_then (and_then (required r 9) parse_bool) (\<lambda>generated.
          checked render c (modify_relation schema relation (\<lambda>rel. rel\<lparr>rl_columns := rl_columns rel @
            [\<lparr>sc_name = name, sc_ordinal = ordinal, sc_type_oid = oid, sc_type_name = type_name,
              sc_nullable = nullable, sc_default_expression = optional r 7,
              sc_identity = identity, sc_generated = generated\<rparr>]\<rparr>) m)))))))))))"

definition add_constraint ::
  "renderer \<Rightarrow> config \<Rightarrow> row \<Rightarrow> schema_map \<Rightarrow> schema_error + schema_map" where
  "add_constraint render c r m =
     (if length r \<noteq> 5 then Err SeMalformed
      else
        and_then (required r 0) (\<lambda>schema.
        and_then (required r 1) (\<lambda>relation.
        if get_relation schema relation m = None then Err SeMalformed
        else
          and_then (required r 2) (\<lambda>name.
          and_then (and_then (required r 3) constraint_kind) (\<lambda>kind.
          and_then (required r 4) (\<lambda>definition_text.
          checked render c (modify_relation schema relation (\<lambda>rel. rel\<lparr>rl_constraints :=
            rl_constraints rel @
            [\<lparr>tc_name = name, tc_kind = kind, tc_definition = definition_text\<rparr>]\<rparr>) m)))))))"

definition assemble ::
  "renderer \<Rightarrow> config \<Rightarrow> row list \<Rightarrow> row list \<Rightarrow> row list \<Rightarrow> schema_error + schema_result" where
  "assemble render c relation_rows column_rows constraint_rows =
     and_then (for_each (add_relation render c) relation_rows []) (\<lambda>m.
     and_then (for_each (add_column render c) column_rows m) (\<lambda>m.
     and_then (for_each (add_constraint render c) constraint_rows m) (\<lambda>m.
     let output = schema_from_maps m in
     and_then (map_err limit_error (schema_result_validate render c output)) (\<lambda>_. Ok output))))"

section \<open>Retrieval\<close>

type_synonym ('w, 'a) schema_op = "(connection \<times> 'w, schema_error, 'a) eff"

definition schema_limits :: "config \<Rightarrow> query_limits" where
  "schema_limits c = \<lparr>ql_sql_bytes = sql_bytes c, ql_parameters = parameters c,
     ql_parameter_bytes = parameter_bytes c, ql_result_rows = result_rows c,
     ql_columns = max (columns c) 10, ql_cell_bytes = cell_bytes c,
     ql_result_json_bytes = usize_max\<rparr>"

definition query_rows ::
  "'w libpq_env \<Rightarrow> renderer \<Rightarrow> string \<Rightarrow> query_limits \<Rightarrow> nat \<Rightarrow> 'w poll_control \<Rightarrow>
     ('w, query_result) schema_op" where
  "query_rows env render sql limits deadline ctl =
     map_error SeBackend (query_conn env render sql [] limits deadline ctl)"

definition execute_checked ::
  "'w libpq_env \<Rightarrow> renderer \<Rightarrow> string \<Rightarrow> nat \<Rightarrow> 'w poll_control \<Rightarrow> ('w, unit) schema_op" where
  "execute_checked env render sql deadline ctl =
     bind (map_error SeBackend (execute env render sql deadline ctl)) (\<lambda>result.
     if q_command_tag result = first_word sql then ret () else throw SeMalformed)"

definition retrieve_inner ::
  "'w libpq_env \<Rightarrow> renderer \<Rightarrow> config \<Rightarrow> query_limits \<Rightarrow> nat \<Rightarrow> 'w poll_control \<Rightarrow>
     ('w, schema_result) schema_op" where
  "retrieve_inner env render c limits deadline ctl =
     bind (query_rows env render relations_sql limits deadline ctl) (\<lambda>relations.
     bind (query_rows env render columns_sql limits deadline ctl) (\<lambda>columns.
     bind (query_rows env render constraints_sql limits deadline ctl) (\<lambda>constraints.
     of_result (assemble render c (q_rows relations) (q_rows columns) (q_rows constraints)))))"

definition begin_sql :: string where
  "begin_sql = ''BEGIN ISOLATION LEVEL REPEATABLE READ READ ONLY''"

text \<open>\<open>let _ = connection.execute("ROLLBACK", ...); Err(error)\<close>\<close>

definition rollback_and_fail ::
  "'w libpq_env \<Rightarrow> renderer \<Rightarrow> nat \<Rightarrow> 'w poll_control \<Rightarrow> schema_error \<Rightarrow> ('w, 'a) schema_op" where
  "rollback_and_fail env render deadline ctl e =
     bind (attempt (execute env render ''ROLLBACK'' deadline ctl)) (\<lambda>_. throw e)"

definition retrieve ::
  "'w libpq_env \<Rightarrow> renderer \<Rightarrow> config \<Rightarrow> nat \<Rightarrow> 'w poll_control \<Rightarrow> ('w, schema_result) schema_op" where
  "retrieve env render c deadline ctl =
     bind (execute_checked env render begin_sql deadline ctl) (\<lambda>_.
     bind (attempt (retrieve_inner env render c (schema_limits c) deadline ctl)) (\<lambda>result.
     case result of
       Inr snapshot \<Rightarrow>
         bind (attempt (execute_checked env render ''COMMIT'' deadline ctl)) (\<lambda>r.
         case r of
           Inl e \<Rightarrow> rollback_and_fail env render deadline ctl e
         | Inr _ \<Rightarrow> ret snapshot)
     | Inl e \<Rightarrow> rollback_and_fail env render deadline ctl e))"

section \<open>Lemmas on the maps\<close>

text \<open>Sums over the entries of an ordered map.\<close>

definition bt_sum :: "('v \<Rightarrow> nat) \<Rightarrow> ('k, 'v) btree \<Rightarrow> nat" where
  "bt_sum g m = sum_list (map (g \<circ> snd) m)"

lemma bt_sum_modify:
  assumes "bt_ok m" and "bt_get k m = Some v"
  shows "bt_sum g (bt_modify k f m) + g v = bt_sum g m + g (f v)"
  using assms
proof (induction m)
  case Nil
  then show ?case by (simp add: bt_get_def)
next
  case (Cons e m)
  show ?case
  proof (cases "fst e = k")
    case True
    with Cons.prems have "bt_get k m = None"
      by (auto simp: bt_ok_def bt_get_def map_of_eq_None_iff)
    then have "bt_modify k f m = m" by (rule bt_modify_id)
    with True Cons.prems show ?thesis by (cases e) (simp add: bt_sum_def bt_modify_def bt_get_def)
  next
    case False
    with Cons.prems have "bt_ok m" "bt_get k m = Some v"
      by (cases e; simp add: bt_ok_def bt_get_def)+
    from Cons.IH[OF this] False show ?thesis by (simp add: bt_sum_def bt_modify_def)
  qed
qed

lemma bt_sum_insert:
  assumes "bt_ok m"
  shows "bt_sum g (bt_insert k v m) + (case bt_get k m of None \<Rightarrow> 0 | Some u \<Rightarrow> g u) = bt_sum g m + g v"
  using assms
proof (induction m)
  case Nil
  show ?case by (simp add: bt_sum_def bt_get_def)
next
  case (Cons e m)
  consider "k = fst e" | "k < fst e" | "fst e < k" by force
  then show ?case
  proof cases
    case 1
    then show ?thesis by (cases e) (simp add: bt_sum_def bt_get_def)
  next
    case 2
    with Cons.prems have "\<forall>x \<in> fst ` set (e # m). k < x" by (auto simp: bt_ok_def)
    then have "bt_get k (e # m) = None" unfolding bt_get_def by (rule bt_get_absent)
    with 2 show ?thesis by (auto simp: bt_sum_def)
  next
    case 3
    with Cons.prems have "bt_ok m" by (simp add: bt_ok_def)
    from Cons.IH[OF this] 3 show ?thesis
      by (cases e) (auto simp: bt_sum_def bt_get_def split: option.splits)
  qed
qed

text \<open>The maps of the assembly: ordered, without empty schemas, and named by their keys.\<close>

definition relations_ok :: "relations \<Rightarrow> bool" where
  "relations_ok rs \<longleftrightarrow> bt_ok rs \<and> (\<forall>(k, r) \<in> set rs. rl_name r = k)"

definition schema_map_ok :: "schema_map \<Rightarrow> bool" where
  "schema_map_ok m \<longleftrightarrow> bt_ok m \<and> (\<forall>(k, rs) \<in> set m. relations_ok rs \<and> rs \<noteq> [])"

lemma bt_insert_set: "set (bt_insert k v m) \<subseteq> insert (k, v) (set m)"
  by (induction m) auto

lemma bt_insert_nonempty [simp]: "bt_insert k v m \<noteq> []"
  by (cases m) auto

lemma bt_modify_set: "(k', v') \<in> set (bt_modify k f m) \<Longrightarrow>
    (k', v') \<in> set m \<or> (k' = k \<and> (\<exists>v. (k, v) \<in> set m \<and> v' = f v))"
  by (auto simp: bt_modify_def split: if_splits)

lemma bt_modify_nonempty [simp]: "bt_modify k f m = [] \<longleftrightarrow> m = []"
  by (simp add: bt_modify_def)

lemma get_in_set: "bt_get k m = Some v \<Longrightarrow> (k, v) \<in> set m"
  by (simp add: bt_get_def map_of_SomeD)

lemma relations_ok_insert:
  "relations_ok rs \<Longrightarrow> rl_name r = k \<Longrightarrow> relations_ok (bt_insert k r rs)"
  using bt_insert_set[of k r rs] by (auto simp: relations_ok_def bt_insert_ok)

lemma relations_ok_modify:
  "relations_ok rs \<Longrightarrow> (\<And>r. rl_name (f r) = rl_name r) \<Longrightarrow> relations_ok (bt_modify k f rs)"
  by (auto simp: relations_ok_def dest!: bt_modify_set)

lemma schema_map_ok_modify:
  assumes "schema_map_ok m" and "\<And>r. rl_name (f r) = rl_name r"
  shows "schema_map_ok (modify_relation schema relation f m)"
  using assms relations_ok_modify[OF _ assms(2)]
  by (auto simp: schema_map_ok_def modify_relation_def dest!: bt_modify_set)

lemma schema_map_ok_get: "schema_map_ok m \<Longrightarrow> bt_get k m = Some rs \<Longrightarrow> relations_ok rs \<and> rs \<noteq> []"
  by (auto simp: schema_map_ok_def dest!: get_in_set)

text \<open>What the relation row adds to the relations of its schema.\<close>

definition with_relation :: "string \<Rightarrow> relation_kind \<Rightarrow> relations \<Rightarrow> relations" where
  "with_relation relation kind rs =
     (if bt_contains relation rs then rs
      else bt_insert relation
        \<lparr>rl_name = relation, rl_kind = kind, rl_columns = [], rl_constraints = []\<rparr> rs)"

lemma with_relation_ok: "relations_ok rs \<Longrightarrow> relations_ok (with_relation relation kind rs)"
  by (simp add: with_relation_def relations_ok_insert)

lemma with_relation_nonempty [simp]: "with_relation relation kind rs \<noteq> []"
  by (auto simp: with_relation_def bt_contains_def bt_get_def)

lemma checked_Ok: "checked render c m = Ok m' \<longleftrightarrow>
    m' = m \<and> validate_partial render c m = Ok ()"
  by (auto simp: checked_def)

lemma add_relation_Ok:
  assumes "add_relation render c r m = Ok m'"
  obtains schema relation kind where
    "m' = bt_insert schema
       (with_relation relation kind (case bt_get schema m of Some rs \<Rightarrow> rs | None \<Rightarrow> [])) m"
proof -
  from assms show ?thesis
    by (auto simp: add_relation_def Let_def checked_Ok simp flip: with_relation_def
        split: if_splits intro: that)
qed

lemma add_column_Ok:
  assumes "add_column render c r m = Ok m'"
  obtains schema relation rel col where
    "get_relation schema relation m = Some rel"
    "m' = modify_relation schema relation (\<lambda>rel. rel\<lparr>rl_columns := rl_columns rel @ [col]\<rparr>) m"
  using assms by (auto simp: add_column_def checked_Ok split: if_splits intro: that)

lemma add_constraint_Ok:
  assumes "add_constraint render c r m = Ok m'"
  obtains schema relation rel con where
    "get_relation schema relation m = Some rel"
    "m' = modify_relation schema relation (\<lambda>rel. rel\<lparr>rl_constraints := rl_constraints rel @ [con]\<rparr>) m"
  using assms by (auto simp: add_constraint_def checked_Ok split: if_splits intro: that)

lemma add_relation_ok: "add_relation render c r m = Ok m' \<Longrightarrow> schema_map_ok m \<Longrightarrow> schema_map_ok m'"
proof (erule add_relation_Ok)
  fix schema relation kind
  let ?rs = "case bt_get schema m of Some rs \<Rightarrow> rs | None \<Rightarrow> []"
  assume m: "schema_map_ok m" and m': "m' = bt_insert schema (with_relation relation kind ?rs) m"
  have "relations_ok ?rs"
    using m schema_map_ok_get[of m schema] by (auto simp: relations_ok_def bt_ok_def split: option.split)
  then have new: "relations_ok (with_relation relation kind ?rs)" by (rule with_relation_ok)
  have "relations_ok rs \<and> rs \<noteq> []" if "(k, rs) \<in> set m'" for k rs
  proof (cases "(k, rs) \<in> set m")
    case True
    with m show ?thesis by (auto simp: schema_map_ok_def)
  next
    case False
    with that bt_insert_set[of schema "with_relation relation kind ?rs" m] m'
    have "rs = with_relation relation kind ?rs" by auto
    with new show ?thesis by simp
  qed
  with m show "schema_map_ok m'" by (auto simp: schema_map_ok_def m' bt_insert_ok)
qed

lemma add_column_ok: "add_column render c r m = Ok m' \<Longrightarrow> schema_map_ok m \<Longrightarrow> schema_map_ok m'"
  by (erule add_column_Ok) (simp add: schema_map_ok_modify)

lemma add_constraint_ok: "add_constraint render c r m = Ok m' \<Longrightarrow> schema_map_ok m \<Longrightarrow> schema_map_ok m'"
  by (erule add_constraint_Ok) (simp add: schema_map_ok_modify)

text \<open>How many columns (or constraints) a map holds in all.\<close>

definition map_total :: "(relation_info \<Rightarrow> nat) \<Rightarrow> schema_map \<Rightarrow> nat" where
  "map_total g m = bt_sum (bt_sum g) m"

lemma bt_sum_get_le: "bt_get k m = Some v \<Longrightarrow> g v \<le> bt_sum g m"
  by (induction m) (auto simp: bt_get_def bt_sum_def split: if_splits)

lemma map_total_modify:
  assumes ok: "schema_map_ok m" and get: "get_relation schema relation m = Some rel"
    and g: "\<And>r. g (f r) = g r + n"
  shows "map_total g (modify_relation schema relation f m) = map_total g m + n"
proof -
  from get obtain rs where rs: "bt_get schema m = Some rs" "bt_get relation rs = Some rel"
    by (auto simp: get_relation_def split: option.splits)
  have "bt_ok m" "bt_ok rs" using ok schema_map_ok_get[OF ok rs(1)]
    by (simp_all add: schema_map_ok_def relations_ok_def)
  from bt_sum_modify[OF this(2) rs(2), of g f] g
  have inner: "bt_sum g (bt_modify relation f rs) = bt_sum g rs + n" by simp
  from bt_sum_modify[OF \<open>bt_ok m\<close> rs(1), of "bt_sum g" "bt_modify relation f"] inner
  show ?thesis by (simp add: map_total_def modify_relation_def)
qed

lemma with_relation_total:
  assumes "bt_ok rs" and "\<And>k. g \<lparr>rl_name = relation, rl_kind = k, rl_columns = [], rl_constraints = []\<rparr> = 0"
  shows "bt_sum g (with_relation relation kind rs) = bt_sum g rs"
proof (cases "bt_get relation rs")
  case None
  with bt_sum_insert[OF assms(1), of g relation
      "\<lparr>rl_name = relation, rl_kind = kind, rl_columns = [], rl_constraints = []\<rparr>"] assms(2)
  show ?thesis by (simp add: with_relation_def bt_contains_def)
next
  case (Some r)
  then show ?thesis by (simp add: with_relation_def bt_contains_def)
qed

lemma add_relation_total:
  assumes add: "add_relation render c r m = Ok m'" and ok: "schema_map_ok m"
    and g: "\<And>n k. g \<lparr>rl_name = n, rl_kind = k, rl_columns = [], rl_constraints = []\<rparr> = 0"
  shows "map_total g m' = map_total g m"
  using add
proof (rule add_relation_Ok)
  fix schema relation kind
  let ?rs = "case bt_get schema m of Some rs \<Rightarrow> rs | None \<Rightarrow> []"
  assume m': "m' = bt_insert schema (with_relation relation kind ?rs) m"
  have rs: "bt_ok ?rs"
    using ok schema_map_ok_get[of m schema] by (auto simp: relations_ok_def bt_ok_def split: option.split)
  have "bt_ok m" using ok by (simp add: schema_map_ok_def)
  from bt_sum_insert[OF this, of "bt_sum g" schema "with_relation relation kind ?rs"]
    with_relation_total[OF rs, of g relation kind] g
  show ?thesis by (cases "bt_get schema m") (simp_all add: map_total_def m' bt_sum_def)
qed

lemma for_each_total:
  assumes "for_each f rows m = Ok m'" and "schema_map_ok m"
    and "\<And>r m m'. f r m = Ok m' \<Longrightarrow> schema_map_ok m \<Longrightarrow> schema_map_ok m' \<and> map_total g m' = map_total g m + n"
  shows "schema_map_ok m' \<and> map_total g m' = map_total g m + n * length rows"
  using assms(1,2)
proof (induction rows arbitrary: m)
  case Nil
  then show ?case by simp
next
  case (Cons r rows)
  then obtain m1 where "f r m = Ok m1" "for_each f rows m1 = Ok m'" by auto
  with assms(3)[OF this(1) Cons.prems(2)] Cons.IH[of m1] show ?case by simp
qed

definition columns_in :: "relation_info \<Rightarrow> nat" where "columns_in r = length (rl_columns r)"
definition constraints_in :: "relation_info \<Rightarrow> nat" where "constraints_in r = length (rl_constraints r)"

lemma add_column_total:
  assumes "add_column render c r m = Ok m'" and "schema_map_ok m"
  shows "map_total columns_in m' = map_total columns_in m + 1"
    "map_total constraints_in m' = map_total constraints_in m"
  using assms(1) by (rule add_column_Ok, simp add: map_total_modify[OF assms(2), where n = 1]
    map_total_modify[OF assms(2), where n = 0] columns_in_def constraints_in_def)+

lemma add_constraint_total:
  assumes "add_constraint render c r m = Ok m'" and "schema_map_ok m"
  shows "map_total columns_in m' = map_total columns_in m"
    "map_total constraints_in m' = map_total constraints_in m + 1"
  using assms(1) by (rule add_constraint_Ok, simp add: map_total_modify[OF assms(2), where n = 1]
    map_total_modify[OF assms(2), where n = 0] columns_in_def constraints_in_def)+

text \<open>The public form of a map.\<close>

lemma schema_from_maps_eq:
  assumes "schema_map_ok m"
  shows "schema_from_maps m =
    map (\<lambda>(name, rs). \<lparr>si_name = name, si_relations = map sort_relation (bt_values rs)\<rparr>) m"
proof -
  have "\<forall>(k, rs) \<in> set m. rs \<noteq> []" using assms by (auto simp: schema_map_ok_def)
  then show ?thesis
    unfolding schema_from_maps_def by (induction m) (auto simp: List.map_filter_def)
qed

lemma sort_relation_name [simp]: "rl_name (sort_relation r) = rl_name r"
  by (simp add: sort_relation_def)

lemma relation_names:
  "relations_ok rs \<Longrightarrow> map rl_name (map sort_relation (bt_values rs)) = map fst rs"
  by (induction rs) (auto simp: relations_ok_def bt_values_def bt_ok_def)

definition relation_sorted :: "relation_info \<Rightarrow> bool" where
  "relation_sorted r \<longleftrightarrow> sorted (map sc_ordinal (rl_columns r)) \<and> sorted (map tc_name (rl_constraints r))"

lemma sort_relation_sorted [simp]: "relation_sorted (sort_relation r)"
  by (simp add: relation_sorted_def sort_relation_def)

definition schema_sorted :: "schema_info \<Rightarrow> bool" where
  "schema_sorted s \<longleftrightarrow> si_relations s \<noteq> [] \<and> sorted_wrt (<) (map rl_name (si_relations s)) \<and>
     list_all relation_sorted (si_relations s)"

lemma schema_from_maps_sorted:
  assumes ok: "schema_map_ok m"
  shows "sorted_wrt (<) (map si_name (schema_from_maps m))"
    and "list_all schema_sorted (schema_from_maps m)"
proof -
  have "map si_name (schema_from_maps m) = map fst m"
    by (simp add: schema_from_maps_eq[OF ok] case_prod_beta comp_def)
  with ok show "sorted_wrt (<) (map si_name (schema_from_maps m))"
    by (simp add: schema_map_ok_def bt_ok_def)
  have "schema_sorted \<lparr>si_name = k, si_relations = map sort_relation (bt_values rs)\<rparr>"
    if "(k, rs) \<in> set m" for k rs
  proof -
    from that ok have rs: "relations_ok rs" "rs \<noteq> []" by (auto simp: schema_map_ok_def)
    from rs(1) have "sorted_wrt (<) (map rl_name (map sort_relation (bt_values rs)))"
      unfolding relation_names[OF rs(1)] by (simp add: relations_ok_def bt_ok_def)
    with rs(2) show ?thesis by (simp add: schema_sorted_def bt_values_def list_all_iff)
  qed
  then show "list_all schema_sorted (schema_from_maps m)"
    by (auto simp: schema_from_maps_eq[OF ok] list_all_iff)
qed

definition result_total :: "(relation_info \<Rightarrow> nat) \<Rightarrow> schema_result \<Rightarrow> nat" where
  "result_total g out = sum_list (map (\<lambda>s. sum_list (map g (si_relations s))) out)"

lemma result_total_maps:
  assumes "schema_map_ok m" and "\<And>r. g (sort_relation r) = g r"
  shows "result_total g (schema_from_maps m) = map_total g m"
  by (simp add: schema_from_maps_eq[OF assms(1)] result_total_def map_total_def bt_sum_def
      case_prod_beta comp_def bt_values_def assms(2))

lemma sorted_counts [simp]:
  "columns_in (sort_relation r) = columns_in r" "constraints_in (sort_relation r) = constraints_in r"
  by (simp_all add: columns_in_def constraints_in_def sort_relation_def)

lemma schema_map_ok_Nil [simp]: "schema_map_ok []" "map_total g [] = 0"
  by (simp_all add: schema_map_ok_def bt_ok_def map_total_def bt_sum_def)

lemma assemble_maps:
  assumes "assemble render c rels cols cons = Ok out"
  obtains m where "schema_map_ok m" "out = schema_from_maps m"
    "map_total columns_in m = length cols" "map_total constraints_in m = length cons"
    "schema_result_validate render c out = Ok ()"
proof -
  from assms obtain m1 m2 m where steps:
    "for_each (add_relation render c) rels [] = Ok m1"
    "for_each (add_column render c) cols m1 = Ok m2"
    "for_each (add_constraint render c) cons m2 = Ok m"
    and out: "out = schema_from_maps m" "schema_result_validate render c out = Ok ()"
    by (auto simp: assemble_def Let_def)
  have m1: "schema_map_ok m1 \<and> map_total columns_in m1 = 0" "map_total constraints_in m1 = 0"
    using for_each_total[OF steps(1), of columns_in 0] for_each_total[OF steps(1), of constraints_in 0]
      add_relation_ok add_relation_total[where g = columns_in] add_relation_total[where g = constraints_in]
    by (auto simp: columns_in_def constraints_in_def)
  have m2: "schema_map_ok m2 \<and> map_total columns_in m2 = length cols" "map_total constraints_in m2 = 0"
    using for_each_total[OF steps(2), of columns_in 1] for_each_total[OF steps(2), of constraints_in 0]
      m1 add_column_ok add_column_total by auto
  have "schema_map_ok m \<and> map_total columns_in m = length cols" "map_total constraints_in m = length cons"
    using for_each_total[OF steps(3), of columns_in 0] for_each_total[OF steps(3), of constraints_in 1]
      m2 add_constraint_ok add_constraint_total by auto
  with out show ?thesis by (intro that) auto
qed

section \<open>Properties\<close>


definition sample_relation_rows :: "row list" where
  "sample_relation_rows = [[Some ''public'', Some ''t'', Some ''r'', Some ''1'']]"

definition sample_column_rows :: "row list" where
  "sample_column_rows = [[Some ''public'', Some ''t'', Some ''id'', Some ''1'', Some ''23'',
     Some ''integer'', Some ''f'', None, Some [], Some ''f'']]"

lemma validate_one_relation:
  "schema_result_validate sim_render config_default
     [\<lparr>si_name = ''public'', si_relations = [\<lparr>rl_name = ''t'', rl_kind = RkTable,
        rl_columns = cols, rl_constraints = []\<rparr>]\<rparr>] = Ok ()"
  if "cols = [] \<or> cols = [\<lparr>sc_name = ''id'', sc_ordinal = 1, sc_type_oid = 23,
     sc_type_name = ''integer'', sc_nullable = False, sc_default_expression = None,
     sc_identity = IkNone, sc_generated = False\<rparr>]"
proof -
  have "result_rows config_default \<le> usize_max"
    by (simp add: config_default_eq default_unchecked_def config_constants usize_max_def)
  from schema_result_validate_Ok[OF this] that show ?thesis
    by (auto simp: sim_render_def config_default_eq default_unchecked_def config_constants
        schema_units_def relation_units_def schema_cells_def relation_cells_def column_cells_def)
qed

lemma sample_numbers: "parse_u32 ''1'' = Some 1" "parse_u32 ''23'' = Some 23"
  by (simp_all add: parse_u32_def byte_def is_ascii_digit_def digit_value_def)

lemma assemble_sample:
  "assemble sim_render config_default sample_relation_rows sample_column_rows [] =
     Ok [\<lparr>si_name = ''public'', si_relations = [\<lparr>rl_name = ''t'', rl_kind = RkTable,
        rl_columns = [\<lparr>sc_name = ''id'', sc_ordinal = 1, sc_type_oid = 23,
          sc_type_name = ''integer'', sc_nullable = False, sc_default_expression = None,
          sc_identity = IkNone, sc_generated = False\<rparr>], rl_constraints = []\<rparr>]\<rparr>]"
  by (simp add: assemble_def sample_relation_rows_def sample_column_rows_def add_relation_def
      add_column_def required_def optional_def relation_kind_def parse_number_def sample_numbers
      parse_bool_def identity_kind_def Let_def bt_get_def bt_contains_def checked_def
      validate_partial_def schema_from_maps_def List.map_filter_def sort_relation_def bt_values_def
      get_relation_def modify_relation_def bt_modify_def validate_one_relation)


text \<open>A client that cancels once the BEGIN of the retrieval has been answered.\<close>

definition cancel_after_begin :: "sim poll_control" where
  "cancel_after_begin = \<lparr>pc_shutdown_requested = (\<lambda>w. (False, w)),
     pc_cancelled = (\<lambda>w. (sim_log w \<noteq> [] \<and> sim_results w = [], w)),
     pc_cancel_drain_grace = 5\<rparr>"

lemma begin_word: "first_ascii_word begin_sql = ''BEGIN''" "first_word begin_sql = ''BEGIN''"
  by (simp add: begin_sql_def first_ascii_word_def is_ascii_whitespace_def byte_def) code_simp

lemma refused_when_cancelled:
  assumes "pc_shutdown_requested ctl w = (False, w)" "pc_cancelled ctl w = (True, w)"
  shows "check_control env ctl deadline (c, w) = Some (Err (adapter_error AcCancelled), (c, w))"
  using assms by (simp add: check_control_def eff_run)

lemma plain_command_input:
  assumes "utf8_valid sql" "nul \<notin> set sql"
  shows "check_command_input sql [] = Ok ()"
  using assms
  by (simp add: check_command_input_def cstring_new_def contains_char_def validate_parameters_def
      c_int_of_def unlimited_def)

text \<open>
  A schema retrieval that is cancelled after its BEGIN leaves its internal transaction open:
  the catalog query is refused before it is sent, and so is the ROLLBACK, which runs under the
  same cancelled control; the retrieval fails with a live, idle connection that libpq reports in
  a transaction the caller never opened.
\<close>

theorem cancelled_retrieval_leaks_transaction:
  "\<exists>c w. retrieve sim_env sim_render config_default 1000 cancel_after_begin (ready, sim_start)
      = Some (Err (SeBackend (adapter_error AcCancelled)), (c, w)) \<and>
    sim_log w = [begin_sql] \<and>
    status sim_env c w = \<lparr>ss_connection = CsOk, ss_transaction = TsInTransaction, ss_busy = False\<rparr>"
proof -
  let ?w = "sim_after begin_sql sim_start"
  have input: "check_command_input begin_sql [] = Ok ()"
    by (rule plain_command_input) (simp_all add: begin_sql_def utf8_valid_def byte_def nul_def)
  have rollback: "check_command_input ''ROLLBACK'' [] = Ok ()"
    by (rule plain_command_input) (simp_all add: utf8_valid_def byte_def nul_def)
  have q1: "quiet cancel_after_begin sim_start"
    and q2: "quiet cancel_after_begin (sim_sent begin_sql sim_start)"
    by (simp_all add: quiet_def cancel_after_begin_def sim_start_def)
  have began: "execute sim_env sim_render begin_sql 1000 cancel_after_begin (ready, sim_start) =
      Some (Ok (tag_result ''BEGIN''), (ready, ?w))"
    using sim_execute[OF q1 q2, of 1000 ready] input
    by (simp add: begin_word sim_start_def ready_def utf8_valid_def byte_def usize_max_def)
  have "sim_log ?w \<noteq> [] \<and> sim_results ?w = []" by (simp add: sim_after_def sim_sent_def Let_def)
  then have check: "check_control sim_env cancel_after_begin 1000 (c, ?w) =
      Some (Err (adapter_error AcCancelled), (c, ?w))" for c
    by (intro refused_when_cancelled) (simp_all add: cancel_after_begin_def)
  have sql: "check_query_input relations_sql [] (schema_limits config_default) = Ok ()"
    by (simp add: check_query_input_def relations_sql_def sql_text_def sq_def schema_limits_def
        config_default_eq default_unchecked_def config_constants contains_char_def nul_def
        validate_parameters_def cstring_new_def c_int_of_def)
  have "retrieve sim_env sim_render config_default 1000 cancel_after_begin (ready, sim_start)
      = Some (Err (SeBackend (adapter_error AcCancelled)), (ready, ?w))"
    using began check sql rollback
    by (simp add: retrieve_def execute_checked_def bind_def map_error_def begin_word tag_result_def
        ret_def throw_def attempt_def retrieve_inner_def query_rows_def query_conn_def
        send_query_def of_result_def rollback_and_fail_def execute_def send_and_collect_def)
  then show ?thesis
    by (auto simp: status_def ready_def sim_after_def sim_sent_def begin_word Let_def sim_start_def)
qed

end
