(* ===== verification/Backend.thy ===== *)
theory Backend
  imports Schema
begin

text \<open>
  The backend of a worker (\<open>worker.rs\<close>): the trait \<open>Backend\<close> as the record \<open>backend_ops\<close>, the
  contract the worker relies on as the locale \<open>backend_contract\<close>, and \<open>LibpqBackend\<close>, the
  implementation over \<open>Adapter\<close>, as its interpretation. The state of a backend is its
  \<open>Option<Connection>\<close> and the world. \<open>BackendTransactionStatus\<close> and the adapter's
  \<open>TransactionStatus\<close> have the variants of the protocol's and share its datatype.
\<close>

section \<open>Observations and results\<close>

datatype backend_connection = BcOk | BcBad | BcUnknown

fun connection_protocol :: "backend_connection \<Rightarrow> connection_status" where
  "connection_protocol BcOk = CsOk"
| "connection_protocol BcBad = CsBad"
| "connection_protocol BcUnknown = CsBad"

record backend_observation =
  bo_connection :: backend_connection
  bo_transaction :: transaction_status
  bo_busy :: bool

definition gone :: backend_observation where
  "gone = \<lparr>bo_connection = BcUnknown, bo_transaction = TsUnknown, bo_busy = False\<rparr>"

datatype backend_result =
    Opened string backend_observation
  | SchemaRead schema_result backend_observation
  | Queried query_result backend_observation bool
  | Committed backend_observation
  | RolledBack bool backend_observation
  | Closed backend_observation bool

record backend_failure =
  bf_error :: core_error
  bf_observation :: backend_observation
  bf_sqlstate :: "string option"
  bf_outcome_unknown :: bool

datatype shutdown_worker_result = Verified | Uncertain string

text \<open>A failure of a known outcome and without SQLSTATE.\<close>

definition plain_failure :: "error_code \<Rightarrow> backend_observation \<Rightarrow> bool \<Rightarrow> backend_failure" where
  "plain_failure c obs u = \<lparr>bf_error = core_error c, bf_observation = obs, bf_sqlstate = None,
     bf_outcome_unknown = u\<rparr>"

fun failure_code :: "error_class \<Rightarrow> error_code" where
  "failure_code AcConfig = ConfigError"
| "failure_code AcInvalidInput = InvalidInput"
| "failure_code AcDatabase = DatabaseError"
| "failure_code AcDatabaseMismatch = DatabaseMismatch"
| "failure_code AcConnectionLost = ConnectionLost"
| "failure_code AcUnsupportedServer = UnsupportedServer"
| "failure_code AcResultLimit = ResultLimit"
| "failure_code AcCopyUnsupported = CopyUnsupported"
| "failure_code AcCancelled = Cancelled"
| "failure_code AcDeadlineExceeded = DeadlineExceeded"
| "failure_code AcServerStopping = ServerStopping"
| "failure_code AcInternal = Internal"

text \<open>The adapter's own codes and messages are those of the protocol's code for the class.\<close>

lemma failure_code_vocabulary:
  "code (failure_code c) = class_code c" "message (failure_code c) = class_message c"
  by (cases c; simp)+

definition failure :: "adapter_error \<Rightarrow> backend_observation \<Rightarrow> backend_failure" where
  "failure e obs = \<lparr>bf_error = core_error (failure_code (ae_class e)), bf_observation = obs,
     bf_sqlstate = ae_sqlstate e, bf_outcome_unknown = ae_outcome_unknown e\<rparr>"

section \<open>The trait\<close>

type_synonym ('b, 'w, 'a) trait_op =
  "'w request_context \<Rightarrow> ('b \<times> 'w, backend_failure, 'a) eff"

record ('b, 'w) backend_ops =
  op_open_read :: "('b, 'w, backend_result) trait_op"
  op_open_write :: "('b, 'w, backend_result) trait_op"
  op_get_schema :: "config \<Rightarrow> ('b, 'w, backend_result) trait_op"
  op_query :: "query_request \<Rightarrow> config \<Rightarrow> ('b, 'w, backend_result) trait_op"
  op_commit :: "('b, 'w, backend_result) trait_op"
  op_rollback :: "('b, 'w, backend_result) trait_op"
  op_close :: "('b, 'w, backend_result) trait_op"
  op_observe :: "'b \<times> 'w \<Rightarrow> backend_observation"
  op_shutdown :: "('b, 'w, shutdown_worker_result) trait_op"

text \<open>
  What the worker relies on. Every success carries the observation of the state it leaves; a
  commit or a rollback succeeds only in the idle state; a failed commit is either refused with
  nothing done or of unknown outcome; a close succeeds by giving up the connection and otherwise
  does nothing; a shutdown always gives it up.
\<close>

locale backend_contract =
  fixes ops :: "('b, 'w) backend_ops"
  assumes open_read_ok: "op_open_read ops ctx s = Some (Ok r, s') \<Longrightarrow>
      r = Opened ''read'' (op_observe ops s')"
    and open_write_ok: "op_open_write ops ctx s = Some (Ok r, s') \<Longrightarrow>
      r = Opened ''write'' (op_observe ops s')"
    and get_schema_ok: "op_get_schema ops c ctx s = Some (Ok r, s') \<Longrightarrow>
      \<exists>schema. r = SchemaRead schema (op_observe ops s')"
    and query_ok: "op_query ops req c ctx s = Some (Ok r, s') \<Longrightarrow>
      \<exists>q. r = Queried q (op_observe ops s') (direct_ddl_command_tag (q_command_tag q))"
    and commit_ok: "op_commit ops ctx s = Some (Ok r, s') \<Longrightarrow>
      r = Committed (op_observe ops s') \<and> bo_transaction (op_observe ops s') = TsIdle"
    and commit_err: "op_commit ops ctx s = Some (Err f, s') \<Longrightarrow>
      (s' = s \<and> \<not> bf_outcome_unknown f \<and> bo_transaction (op_observe ops s) \<noteq> TsInTransaction) \<or>
      (bf_outcome_unknown f \<and> bf_error f = core_error CommitOutcomeUnknown)"
    and rollback_ok: "op_rollback ops ctx s = Some (Ok r, s') \<Longrightarrow>
      (\<exists>changed. r = RolledBack changed (op_observe ops s')) \<and>
      bo_transaction (op_observe ops s') = TsIdle"
    and close_ok: "op_close ops ctx s = Some (Ok r, s') \<Longrightarrow>
      r = Closed gone True \<and> op_observe ops s' = gone"
    and close_err: "op_close ops ctx s = Some (Err f, s') \<Longrightarrow>
      s' = s \<and> is_transaction_open (bo_transaction (op_observe ops s))"
    and shutdown_gone: "op_shutdown ops ctx s = Some (x, s') \<Longrightarrow> op_observe ops s' = gone"
begin

text \<open>A commit that leaves the state in a transaction was refused or is uncertain.\<close>

lemma commit_not_idle:
  assumes "op_commit ops ctx s = Some (r, s')" and "bo_transaction (op_observe ops s') \<noteq> TsIdle"
  shows "\<not> is_ok r"
  using assms commit_ok by (cases r) auto

lemma close_not_in_transaction:
  assumes "op_close ops ctx s = Some (r, s')" and "\<not> is_transaction_open (bo_transaction (op_observe ops s))"
  shows "op_observe ops s' = gone"
  using assms close_ok close_err by (cases r) auto

end

section \<open>LibpqBackend\<close>

type_synonym ('w, 'a) backend_op = "(connection option \<times> 'w, backend_failure, 'a) eff"

definition observation :: "'w libpq_env \<Rightarrow> connection option \<times> 'w \<Rightarrow> backend_observation" where
  "observation env s = (case fst s of
     None \<Rightarrow> gone
   | Some c \<Rightarrow>
       let st = status env c (snd s) in
       \<lparr>bo_connection = (case ss_connection st of
          CsOk \<Rightarrow> BcOk | CsBad \<Rightarrow> BcBad | CsClosed \<Rightarrow> BcUnknown),
        bo_transaction = ss_transaction st, bo_busy = ss_busy st\<rparr>)"

text \<open>An operation on the connection the backend holds.\<close>

definition on_connection ::
  "connection \<Rightarrow> (connection \<times> 'w, 'e, 'a) eff \<Rightarrow> (connection option \<times> 'w, 'e, 'a) eff" where
  "on_connection c m s = (case m (c, snd s) of
     None \<Rightarrow> None | Some (r, (c', w')) \<Rightarrow> Some (r, (Some c', w')))"

text \<open>\<open>return Err(...)\<close> with the observation of the present state.\<close>

definition fail_with ::
  "'w libpq_env \<Rightarrow> (backend_observation \<Rightarrow> backend_failure) \<Rightarrow> ('w, 'a) backend_op" where
  "fail_with env f = bind get_state (\<lambda>s. throw (f (observation env s)))"

text \<open>\<open>let Some(connection) = self.connection.as_mut() else { ... }\<close>\<close>

definition with_connection ::
  "'w libpq_env \<Rightarrow> (connection \<Rightarrow> ('w, 'a) backend_op) \<Rightarrow> ('w, 'a) backend_op" where
  "with_connection env f = bind get_state (\<lambda>s. case fst s of
     None \<Rightarrow> fail_with env (\<lambda>obs. plain_failure ConnectionLost obs True)
   | Some c \<Rightarrow> f c)"

definition execute_command ::
  "'w libpq_env \<Rightarrow> renderer \<Rightarrow> string \<Rightarrow> 'w request_context \<Rightarrow> bool \<Rightarrow>
     ('w, query_result) backend_op" where
  "execute_command env render sql ctx ignore_client_cancel =
     with_connection env (\<lambda>c.
     let ctl = (if ignore_client_cancel then no_client_cancel_control ctx else libpq_control ctx)
     in bind (attempt (on_connection c (execute env render sql (rc_deadline ctx) ctl))) (\<lambda>r.
       case r of Inr result \<Rightarrow> ret result | Inl e \<Rightarrow> fail_with env (failure e)))"

definition open_tx ::
  "'w libpq_env \<Rightarrow> renderer \<Rightarrow> string \<Rightarrow> string \<Rightarrow> 'w request_context \<Rightarrow>
     ('w, backend_result) backend_op" where
  "open_tx env render sql mode ctx =
     bind (execute_command env render sql ctx False) (\<lambda>result.
     if q_command_tag result \<noteq> ''BEGIN''
     then fail_with env (\<lambda>obs. plain_failure DatabaseError obs False)
     else bind get_state (\<lambda>s. ret (Opened mode (observation env s))))"

definition lb_open_read ::
  "'w libpq_env \<Rightarrow> renderer \<Rightarrow> 'w request_context \<Rightarrow> ('w, backend_result) backend_op" where
  "lb_open_read env render ctx = open_tx env render ''BEGIN READ ONLY'' ''read'' ctx"

definition lb_open_write ::
  "'w libpq_env \<Rightarrow> renderer \<Rightarrow> 'w request_context \<Rightarrow> ('w, backend_result) backend_op" where
  "lb_open_write env render ctx = open_tx env render ''BEGIN READ WRITE'' ''write'' ctx"

definition lb_get_schema ::
  "'w libpq_env \<Rightarrow> renderer \<Rightarrow> config \<Rightarrow> 'w request_context \<Rightarrow> ('w, backend_result) backend_op" where
  "lb_get_schema env render c ctx =
     with_connection env (\<lambda>conn.
     bind (attempt (on_connection conn (retrieve env render c (rc_deadline ctx) (libpq_control ctx))))
       (\<lambda>r. case r of
          Inr schema \<Rightarrow> bind get_state (\<lambda>s. ret (SchemaRead schema (observation env s)))
        | Inl SeLimit \<Rightarrow> fail_with env (\<lambda>obs. plain_failure SchemaLimit obs False)
        | Inl SeMalformed \<Rightarrow> fail_with env (\<lambda>obs. plain_failure Internal obs False)
        | Inl (SeBackend e) \<Rightarrow> fail_with env (failure e)))"

definition limits_of_config :: "config \<Rightarrow> query_limits" where
  "limits_of_config c = \<lparr>ql_sql_bytes = sql_bytes c, ql_parameters = parameters c,
     ql_parameter_bytes = parameter_bytes c, ql_result_rows = result_rows c,
     ql_columns = columns c, ql_cell_bytes = cell_bytes c,
     ql_result_json_bytes = result_json_bytes c\<rparr>"

text \<open>\<open>context.cancelled() || context.expired()\<close>\<close>

definition caller_stopped :: "'w request_context \<Rightarrow> (bool, 'w) reader" where
  "caller_stopped ctx = or_read (rc_cancelled ctx) (expired ctx)"

definition query_cancel_reason ::
  "'w request_context \<Rightarrow> ('w, cancel_reason) backend_op" where
  "query_cancel_reason ctx =
     bind (rd (rc_stopping ctx)) (\<lambda>b.
     if b then ret ReasonShutdown
     else bind (rd (rc_cancelled ctx)) (\<lambda>b. ret (if b then ReasonCancelled else ReasonDeadline)))"

text \<open>The cleanup after a failed query whose request was stopped.\<close>

definition cancel_after_failure ::
  "'w libpq_env \<Rightarrow> 'w request_context \<Rightarrow> ('w, unit) backend_op" where
  "cancel_after_failure env ctx =
     bind (query_cancel_reason ctx) (\<lambda>reason.
     bind get_state (\<lambda>s. case fst s of
       None \<Rightarrow> ret ()
     | Some c \<Rightarrow>
         bind (rd (rc_now ctx)) (\<lambda>now.
         bind (attempt (on_connection c (cancel_and_drain env reason (now + rc_grace ctx)))) (\<lambda>r.
         case r of Inr _ \<Rightarrow> ret () | Inl e \<Rightarrow> fail_with env (failure e)))))"

definition query_failed ::
  "'w libpq_env \<Rightarrow> 'w request_context \<Rightarrow> adapter_error \<Rightarrow> ('w, 'a) backend_op" where
  "query_failed env ctx e =
     bind get_state (\<lambda>s.
     let obs = observation env s in
     bind (rd (or_read (rc_stopping ctx) (caller_stopped ctx))) (\<lambda>b.
     bind (if b then cancel_after_failure env ctx else ret ()) (\<lambda>_.
     bind (rd (caller_stopped ctx)) (\<lambda>b.
     throw (if b then (failure e obs)\<lparr>bf_outcome_unknown := True\<rparr> else failure e obs)))))"

definition lb_query ::
  "'w libpq_env \<Rightarrow> renderer \<Rightarrow> query_request \<Rightarrow> config \<Rightarrow> 'w request_context \<Rightarrow>
     ('w, backend_result) backend_op" where
  "lb_query env render req c ctx =
     with_connection env (\<lambda>conn.
     bind (attempt (on_connection conn (query_conn env render (qr_sql req) (qr_parameters req)
             (limits_of_config c) (rc_deadline ctx) (libpq_control ctx)))) (\<lambda>r.
     case r of
       Inr result \<Rightarrow>
         bind get_state (\<lambda>s. ret (Queried result (observation env s)
           (direct_ddl_command_tag (q_command_tag result))))
     | Inl e \<Rightarrow> query_failed env ctx e))"

definition commit_unknown :: "backend_observation \<Rightarrow> string option \<Rightarrow> backend_failure" where
  "commit_unknown obs sqlstate = \<lparr>bf_error = core_error CommitOutcomeUnknown,
     bf_observation = obs, bf_sqlstate = sqlstate, bf_outcome_unknown = True\<rparr>"

definition lb_commit ::
  "'w libpq_env \<Rightarrow> renderer \<Rightarrow> 'w request_context \<Rightarrow> ('w, backend_result) backend_op" where
  "lb_commit env render ctx =
     bind get_state (\<lambda>s.
     let ts = bo_transaction (observation env s) in
     if ts = TsInError then fail_with env (\<lambda>obs. plain_failure TxFailed obs False)
     else if ts \<noteq> TsInTransaction then fail_with env (\<lambda>obs. plain_failure NoTxOpen obs False)
     else bind (attempt (execute_command env render ''COMMIT'' ctx True)) (\<lambda>r.
       case r of
         Inl f \<Rightarrow> fail_with env (\<lambda>obs. commit_unknown obs (bf_sqlstate f))
       | Inr result \<Rightarrow>
           bind get_state (\<lambda>s.
           let obs = observation env s in
           if q_command_tag result = ''COMMIT'' \<and> bo_transaction obs = TsIdle
           then ret (Committed obs)
           else throw (commit_unknown obs None))))"

definition lb_rollback ::
  "'w libpq_env \<Rightarrow> renderer \<Rightarrow> 'w request_context \<Rightarrow> ('w, backend_result) backend_op" where
  "lb_rollback env render ctx =
     bind get_state (\<lambda>s.
     let before = observation env s in
     if bo_transaction before = TsIdle then ret (RolledBack False before)
     else bind (execute_command env render ''ROLLBACK'' ctx True) (\<lambda>result.
       bind get_state (\<lambda>s.
       let obs = observation env s in
       if q_command_tag result = ''ROLLBACK'' \<and> bo_transaction obs = TsIdle
       then ret (RolledBack True obs)
       else throw (plain_failure ConnectionLost obs True))))"

text \<open>\<open>self.connection.take()\<close> drops the connection.\<close>

definition take_connection :: "'w libpq_env \<Rightarrow> (connection option \<times> 'w, 'e, unit) eff" where
  "take_connection env = modify (\<lambda>(co, w). case co of
     None \<Rightarrow> (None, w)
   | Some c \<Rightarrow> (None, if cn_alive c then pq_finish env w else w))"

definition lb_close ::
  "'w libpq_env \<Rightarrow> 'w request_context \<Rightarrow> ('w, backend_result) backend_op" where
  "lb_close env ctx =
     bind get_state (\<lambda>s.
     let obs = observation env s in
     if is_transaction_open (bo_transaction obs)
     then throw (plain_failure ActiveTransaction obs False)
     else bind (take_connection env) (\<lambda>_. ret (Closed gone True)))"

definition lb_shutdown ::
  "'w libpq_env \<Rightarrow> renderer \<Rightarrow> 'w request_context \<Rightarrow> ('w, shutdown_worker_result) backend_op" where
  "lb_shutdown env render ctx =
     bind get_state (\<lambda>s.
     bind (if is_transaction_open (bo_transaction (observation env s)) then
             bind (attempt (execute_command env render ''ROLLBACK'' ctx True)) (\<lambda>r.
             if \<not> is_ok r then ret True
             else bind get_state (\<lambda>s. ret (bo_transaction (observation env s) \<noteq> TsIdle)))
           else ret False) (\<lambda>uncertain.
     bind (take_connection env) (\<lambda>_.
     ret (if uncertain then Uncertain ''rollback'' else Verified))))"

definition libpq_ops :: "'w libpq_env \<Rightarrow> renderer \<Rightarrow> (connection option, 'w) backend_ops" where
  "libpq_ops env render = \<lparr>
     op_open_read = lb_open_read env render, op_open_write = lb_open_write env render,
     op_get_schema = lb_get_schema env render, op_query = lb_query env render,
     op_commit = lb_commit env render, op_rollback = lb_rollback env render,
     op_close = lb_close env, op_observe = observation env,
     op_shutdown = lb_shutdown env render\<rparr>"

section \<open>The factory\<close>

fun connect_code :: "error_class \<Rightarrow> error_code" where
  "connect_code AcUnsupportedServer = UnsupportedServer"
| "connect_code AcConfig = ConfigError"
| "connect_code AcDatabaseMismatch = DatabaseMismatch"
| "connect_code AcConnectionLost = ConnectionLost"
| "connect_code AcCancelled = Cancelled"
| "connect_code AcDeadlineExceeded = DeadlineExceeded"
| "connect_code AcServerStopping = ServerStopping"
| "connect_code _ = DatabaseError"

definition factory_connect ::
  "'w libpq_env \<Rightarrow> renderer \<Rightarrow> (string \<Rightarrow> conninfo_option list option) \<Rightarrow> string \<Rightarrow>
     'w request_context \<Rightarrow> 'w \<Rightarrow> ((backend_failure + connection option \<times> string) \<times> 'w) option" where
  "factory_connect env render conninfo_parse dsn ctx w =
     (case dsn_parse conninfo_parse dsn of
        Inl e \<Rightarrow> Some (Err \<lparr>bf_error = core_error (if ae_class e = AcUnsupportedServer
            then UnsupportedServer else ConfigError), bf_observation = gone,
            bf_sqlstate = ae_sqlstate e, bf_outcome_unknown = False\<rparr>, w)
      | Inr parsed \<Rightarrow>
          (case connect env render parsed (rc_deadline ctx) (factory_control ctx) w of
             None \<Rightarrow> None
           | Some (Inl e, w') \<Rightarrow> Some (Err \<lparr>bf_error = core_error (connect_code (ae_class e)),
               bf_observation = gone, bf_sqlstate = ae_sqlstate e,
               bf_outcome_unknown = ae_outcome_unknown e\<rparr>, w')
           | Some (Inr c, w') \<Rightarrow> Some (Ok (Some c, dsn_database parsed), w')))"

section \<open>The contract holds\<close>

lemma post_any: "(\<And>r s'. Q r s') \<Longrightarrow> post m Q s"
  by (auto simp: post_def split: option.split)

lemma fail_with_post [simp, post_rules]:
  "post (fail_with env f) Q s = Q (Inl (f (observation env s))) s"
  by (simp add: fail_with_def)

lemma take_connection_post [simp, post_rules]:
  "post (take_connection env) Q s =
     Q (Inr ()) (None, case fst s of Some c \<Rightarrow> (if cn_alive c then pq_finish env (snd s) else snd s)
       | None \<Rightarrow> snd s)"
  by (cases s) (auto simp: take_connection_def split: option.split)

lemma observation_None [simp]: "observation env (None, w) = gone"
  by (simp add: observation_def)

lemma postI_Ok:
  assumes "post m (\<lambda>r s'. case r of Inl e \<Rightarrow> E e s' | Inr a \<Rightarrow> P a s') s"
  shows "m s = Some (Ok a, s') \<Longrightarrow> P a s'" and "m s = Some (Err e, s') \<Longrightarrow> E e s'"
  using postD[OF assms] by fastforce+

lemma open_tx_post:
  "post (open_tx env render sql mode ctx)
     (\<lambda>r s'. case r of Inl e \<Rightarrow> True | Inr a \<Rightarrow> a = Opened mode (observation env s')) s"
  unfolding open_tx_def post_bind by (rule post_any) (auto split: sum.split)

lemma get_schema_post:
  "post (lb_get_schema env render c ctx) (\<lambda>r s'. case r of Inl e \<Rightarrow> True
     | Inr a \<Rightarrow> \<exists>schema. a = SchemaRead schema (observation env s')) s"
  unfolding lb_get_schema_def with_connection_def
  by (auto simp: post_any split: option.split sum.split schema_error.split intro!: post_any)

lemma query_failed_post: "post (query_failed env ctx e) (\<lambda>r s'. \<not> is_ok r) s"
proof -
  have "post (rd f) (\<lambda>r s'. case r of Inl e \<Rightarrow> \<not> is_ok (Inl e :: backend_failure + 'b)
      | Inr b \<Rightarrow> post (throw (g b)) (\<lambda>r s'. \<not> is_ok (r :: backend_failure + 'b)) s') s" for f g s
    by (cases s) simp
  then show ?thesis
    unfolding query_failed_def post_bind post_get_state Let_def sum.case
    by (intro post_any) (auto split: sum.split intro!: post_any)
qed

lemma query_failed_call: "(\<And>f s'. Q (Inl f) s') \<Longrightarrow> post (query_failed env ctx e) Q s"
  by (rule post_mono[OF query_failed_post]) (auto simp: not_is_ok_iff)

lemma query_post:
  "post (lb_query env render req c ctx) (\<lambda>r s'. case r of Inl e \<Rightarrow> True
     | Inr a \<Rightarrow> \<exists>q. a = Queried q (observation env s') (direct_ddl_command_tag (q_command_tag q))) s"
proof (cases "fst s")
  case None
  then show ?thesis by (simp add: lb_query_def with_connection_def)
next
  case (Some c)
  then show ?thesis
    unfolding lb_query_def with_connection_def post_bind post_get_state post_attempt
    by (simp add: Some) (rule post_any, auto split: sum.split intro!: query_failed_call)
qed

lemma commit_post:
  "post (lb_commit env render ctx) (\<lambda>r s'. case r of
     Inl f \<Rightarrow> (s' = s \<and> \<not> bf_outcome_unknown f \<and>
         bf_error f = core_error (if bo_transaction (observation env s) = TsInError then TxFailed else NoTxOpen) \<and>
         bo_transaction (observation env s) \<noteq> TsInTransaction) \<or>
       (bf_outcome_unknown f \<and> bf_error f = core_error CommitOutcomeUnknown \<and>
        bo_transaction (observation env s) = TsInTransaction)
   | Inr a \<Rightarrow> a = Committed (observation env s') \<and> bo_transaction (observation env s') = TsIdle \<and>
       bo_transaction (observation env s) = TsInTransaction) s"
proof (cases "bo_transaction (observation env s) = TsInTransaction")
  case True
  then show ?thesis
    unfolding lb_commit_def post_bind post_get_state post_attempt Let_def
    by simp (rule post_any, auto simp: commit_unknown_def split: sum.split)
next
  case False
  then show ?thesis by (auto simp: lb_commit_def plain_failure_def Let_def)
qed

lemma rollback_post:
  "post (lb_rollback env render ctx) (\<lambda>r s'. case r of Inl f \<Rightarrow> True
   | Inr a \<Rightarrow> (\<exists>changed. a = RolledBack changed (observation env s')) \<and>
       bo_transaction (observation env s') = TsIdle) s"
proof (cases "bo_transaction (observation env s) = TsIdle")
  case True
  then show ?thesis by (auto simp: lb_rollback_def Let_def)
next
  case False
  then show ?thesis
    unfolding lb_rollback_def post_bind post_get_state Let_def
    by simp (rule post_any, auto split: sum.split)
qed

lemma close_post:
  "post (lb_close env ctx) (\<lambda>r s'. case r of
     Inl f \<Rightarrow> s' = s \<and> is_transaction_open (bo_transaction (observation env s)) \<and>
       f = plain_failure ActiveTransaction (observation env s) False
   | Inr a \<Rightarrow> a = Closed gone True \<and> fst s' = None \<and>
       \<not> is_transaction_open (bo_transaction (observation env s))) s"
  by (simp add: lb_close_def Let_def)

lemma shutdown_post:
  "post (lb_shutdown env render ctx) (\<lambda>r s'. fst s' = None \<and>
     (r = Ok Verified \<or> r = Ok (Uncertain ''rollback''))) s"
proof (cases "is_transaction_open (bo_transaction (observation env s))")
  case True
  then show ?thesis
    unfolding lb_shutdown_def post_bind post_get_state by simp
next
  case False
  then show ?thesis by (simp add: lb_shutdown_def)
qed

lemma observation_fst_None: "fst s = None \<Longrightarrow> observation env s = gone"
  by (simp add: observation_def)

interpretation libpq: backend_contract "libpq_ops env render"
  for env :: "'w libpq_env" and render :: renderer
proof unfold_locales
  fix ctx :: "'w request_context" and s s' :: "connection option \<times> 'w" and r f x c req
  note sel = libpq_ops_def backend_ops.select_convs
  show "op_open_read (libpq_ops env render) ctx s = Some (Ok r, s') \<Longrightarrow>
      r = Opened ''read'' (op_observe (libpq_ops env render) s')"
    unfolding sel lb_open_read_def by (rule postI_Ok(1)[OF open_tx_post])
  show "op_open_write (libpq_ops env render) ctx s = Some (Ok r, s') \<Longrightarrow>
      r = Opened ''write'' (op_observe (libpq_ops env render) s')"
    unfolding sel lb_open_write_def by (rule postI_Ok(1)[OF open_tx_post])
  show "op_get_schema (libpq_ops env render) c ctx s = Some (Ok r, s') \<Longrightarrow>
      \<exists>schema. r = SchemaRead schema (op_observe (libpq_ops env render) s')"
    unfolding sel by (rule postI_Ok(1)[OF get_schema_post])
  show "op_query (libpq_ops env render) req c ctx s = Some (Ok r, s') \<Longrightarrow>
      \<exists>q. r = Queried q (op_observe (libpq_ops env render) s')
        (direct_ddl_command_tag (q_command_tag q))"
    unfolding sel by (rule postI_Ok(1)[OF query_post])
  show "op_commit (libpq_ops env render) ctx s = Some (Ok r, s') \<Longrightarrow>
      r = Committed (op_observe (libpq_ops env render) s') \<and>
      bo_transaction (op_observe (libpq_ops env render) s') = TsIdle"
    unfolding sel using postI_Ok(1)[OF commit_post] by blast
  show "op_commit (libpq_ops env render) ctx s = Some (Err f, s') \<Longrightarrow>
      (s' = s \<and> \<not> bf_outcome_unknown f \<and>
        bo_transaction (op_observe (libpq_ops env render) s) \<noteq> TsInTransaction) \<or>
      (bf_outcome_unknown f \<and> bf_error f = core_error CommitOutcomeUnknown)"
    unfolding sel using postI_Ok(2)[OF commit_post] by blast
  show "op_rollback (libpq_ops env render) ctx s = Some (Ok r, s') \<Longrightarrow>
      (\<exists>changed. r = RolledBack changed (op_observe (libpq_ops env render) s')) \<and>
      bo_transaction (op_observe (libpq_ops env render) s') = TsIdle"
    unfolding sel by (rule postI_Ok(1)[OF rollback_post])
  show "op_close (libpq_ops env render) ctx s = Some (Ok r, s') \<Longrightarrow>
      r = Closed gone True \<and> op_observe (libpq_ops env render) s' = gone"
    unfolding sel using postI_Ok(1)[OF close_post] observation_fst_None by blast
  show "op_close (libpq_ops env render) ctx s = Some (Err f, s') \<Longrightarrow>
      s' = s \<and> is_transaction_open (bo_transaction (op_observe (libpq_ops env render) s))"
    unfolding sel using postI_Ok(2)[OF close_post] by blast
  show "op_shutdown (libpq_ops env render) ctx s = Some (x, s') \<Longrightarrow>
      op_observe (libpq_ops env render) s' = gone"
    unfolding sel using postD[OF shutdown_post] observation_fst_None by blast
qed

section \<open>Properties\<close>

text \<open>
  C1. A commit has four outcomes: success, only from an open transaction and only when libpq
  reports the idle state afterwards; the refusals TX_FAILED and NO_TX_OPEN, which send nothing
  and change nothing; and in every other case COMMIT_OUTCOME_UNKNOWN with an unknown outcome.
\<close>

theorem commit_outcomes:
  assumes "lb_commit env render ctx s = Some (r, s')"
  shows "case r of
      Inr result \<Rightarrow> result = Committed (observation env s') \<and>
        bo_transaction (observation env s') = TsIdle \<and>
        bo_transaction (observation env s) = TsInTransaction
    | Inl f \<Rightarrow>
        if bo_transaction (observation env s) = TsInTransaction
        then bf_outcome_unknown f \<and> bf_error f = core_error CommitOutcomeUnknown
        else s' = s \<and> \<not> bf_outcome_unknown f \<and> bf_error f = core_error
          (if bo_transaction (observation env s) = TsInError then TxFailed else NoTxOpen)"
  using postD[OF commit_post assms] by (cases r) auto

text \<open>A request on the simulated server, never cancelled, with the deadline at 1000.\<close>

definition sim_context :: "sim request_context" where
  "sim_context = \<lparr>rc_cancelled = (\<lambda>w. (False, w)), rc_stopping = (\<lambda>w. (False, w)),
     rc_now = (\<lambda>w. (sim_time w, w)), rc_deadline = 1000, rc_grace = 5\<rparr>"

definition sim_in_transaction :: sim where
  "sim_in_transaction = sim_start\<lparr>sim_trans := PQTRANS_INTRANS\<rparr>"

lemma plain_words [simp]:
  "first_ascii_word ''COMMIT'' = ''COMMIT''" "first_ascii_word ''ROLLBACK'' = ''ROLLBACK''"
  "first_ascii_word ''BEGIN READ ONLY'' = ''BEGIN''"
  by (simp_all add: first_ascii_word_def is_ascii_whitespace_def byte_def)

lemma sim_command:
  assumes "sim_time w < 1000" "check_command_input sql [] = Ok ()"
    and "utf8_valid (first_ascii_word sql)" "length (first_ascii_word sql) \<le> 100"
  shows "execute_command sim_env sim_render sql sim_context ignoring (Some ready, w) =
    Some (Ok (tag_result (first_ascii_word sql)), (Some ready, sim_after sql w))"
proof -
  have "quiet (libpq_control sim_context) v" "quiet (no_client_cancel_control sim_context) v"
    if "sim_time v < 1000" for v
    using that
    by (simp_all add: quiet_def libpq_control_def no_client_cancel_control_def sim_context_def
        or_read_def expired_def past_def)
  then have "execute sim_env sim_render sql 1000
      (if ignoring then no_client_cancel_control sim_context else libpq_control sim_context) (ready, w) =
      Some (Ok (tag_result (first_ascii_word sql)), (ready, sim_after sql w))"
    using assms by (intro sim_execute) (simp_all add: ready_def usize_max_def)
  then show ?thesis
    by (simp add: execute_command_def with_connection_def bind_def get_state_def attempt_def
        on_connection_def ret_def Let_def sim_context_def[THEN arg_cong, of rc_deadline])
qed

lemma sim_plain_input:
  "check_command_input ''COMMIT'' [] = Ok ()" "check_command_input ''ROLLBACK'' [] = Ok ()"
  "check_command_input ''BEGIN READ ONLY'' [] = Ok ()"
  by (rule plain_command_input; simp add: utf8_valid_def byte_def nul_def)+

lemma sim_commit_run:
  "lb_commit sim_env sim_render sim_context (Some ready, sim_in_transaction) =
     Some (Ok (Committed \<lparr>bo_connection = BcOk, bo_transaction = TsIdle, bo_busy = False\<rparr>),
       (Some ready, sim_after ''COMMIT'' sim_in_transaction))"
proof -
  have "execute_command sim_env sim_render ''COMMIT'' sim_context True (Some ready, sim_in_transaction) =
      Some (Ok (tag_result ''COMMIT''), (Some ready, sim_after ''COMMIT'' sim_in_transaction))"
    using sim_command[of sim_in_transaction "''COMMIT''" True]
    by (simp add: sim_plain_input sim_in_transaction_def sim_start_def utf8_valid_def byte_def)
  then show ?thesis
    by (simp add: lb_commit_def bind_def get_state_def attempt_def observation_def status_def
        ready_def Let_def ret_def tag_result_def sim_after_def sim_sent_def sim_in_transaction_def)
qed

theorem commit_outcomes_witness:
  "\<exists>result s'. lb_commit sim_env sim_render sim_context (Some ready, sim_in_transaction) =
      Some (Ok result, s') \<and>
    result = Committed (observation sim_env s') \<and>
    bo_transaction (observation sim_env s') = TsIdle \<and>
    bo_transaction (observation sim_env (Some ready, sim_in_transaction)) = TsInTransaction"
  using commit_outcomes[OF sim_commit_run] sim_commit_run by auto

text \<open>
  C15. Disposal is complete: a close succeeds exactly when no transaction is open and then the
  backend holds no connection, a refused close changes nothing, and a shutdown always returns
  a report and leaves no connection whatever its rollback did.
\<close>

theorem disposal_complete:
  "post (lb_close env ctx) (\<lambda>r s'.
     if is_transaction_open (bo_transaction (observation env s))
     then r = Err (plain_failure ActiveTransaction (observation env s) False) \<and> s' = s
     else r = Ok (Closed gone True) \<and> fst s' = None) s \<and>
   post (lb_shutdown env render ctx) (\<lambda>r s'. fst s' = None \<and>
     (r = Ok Verified \<or> r = Ok (Uncertain ''rollback''))) s \<and>
   returns (lb_close env ctx) s"
proof (intro conjI)
  show "post (lb_close env ctx) (\<lambda>r s'.
     if is_transaction_open (bo_transaction (observation env s))
     then r = Err (plain_failure ActiveTransaction (observation env s) False) \<and> s' = s
     else r = Ok (Closed gone True) \<and> fst s' = None) s"
    by (rule post_mono[OF close_post]) (auto split: sum.splits)
  show "post (lb_shutdown env render ctx) (\<lambda>r s'. fst s' = None \<and>
     (r = Ok Verified \<or> r = Ok (Uncertain ''rollback''))) s" by (rule shutdown_post)
  show "returns (lb_close env ctx) s"
    by (simp add: lb_close_def returns_def bind_def get_state_def throw_def take_connection_def
        modify_def ret_def Let_def split: prod.split)
qed

text \<open>
  C36. The two layers agree on what a query may contain: under a configuration in range, a
  request the protocol validates is never refused by the input checks of the adapter, and the
  bytes the request reports for its parameters are within the configured total.
\<close>

theorem validated_request_accepted:
  assumes "config_in_range c" and "query_request_validate c req = Ok ()"
  shows "check_query_input (qr_sql req) (qr_parameters req) (limits_of_config c) = Ok () \<and>
    (\<exists>t. request_parameter_bytes req = Ok t \<and> t \<le> parameter_bytes c)"
proof -
  have empty: "is_blank []" by code_simp
  have limit: "parameter_bytes c \<le> usize_max" "parameters c \<le> 65535"
    using assms(1) in_range_below_usize[OF assms(1)] by (simp_all add: config_in_range_def)
  have total: "for_each (add_parameter_bytes (parameter_bytes c)) (qr_parameters req) 0 =
      Ok (sum_list (map value_bytes (qr_parameters req)))"
    and sql: "qr_sql req \<noteq> []" "nul \<notin> set (qr_sql req)" "length (qr_sql req) \<le> sql_bytes c"
    and count: "length (qr_parameters req) \<le> parameters c"
    using assms(2) for_each_parameters[OF limit(1), of "qr_parameters req" 0] empty
    by (auto simp: query_request_validate_def validate_with_limits_def contains_char_def
        split: if_splits)
  from total for_each_parameters[OF limit(1), of "qr_parameters req" 0]
  have params: "\<forall>p \<in> set (qr_parameters req). pred_option (\<lambda>v. nul \<notin> set v) (pm_value p)"
    "qr_parameters req = [] \<or> sum_list (map value_bytes (qr_parameters req)) \<le> parameter_bytes c"
    by auto
  then have sum: "sum_list (map value_bytes (qr_parameters req)) \<le> parameter_bytes c" by auto
  then have "for_each add_value_bytes (qr_parameters req) 0 =
      Ok (sum_list (map value_bytes (qr_parameters req)))"
    using for_each_value_bytes[of 0 "qr_parameters req"] params limit by simp
  then show ?thesis
    using sql count sum limit params(1)
    by (simp add: request_parameter_bytes_Ok check_query_input_def limits_of_config_def contains_char_def
        validate_parameters_def c_int_of_def)
qed

theorem validated_request_accepted_witness:
  "check_query_input ''SELECT 1'' [] (limits_of_config config_default) = Ok ()"
proof -
  have "query_request_validate config_default \<lparr>qr_sql = ''SELECT 1'', qr_parameters = []\<rparr> = Ok ()"
    by (simp add: query_request_validate_def validate_with_limits_def contains_char_def nul_def
        config_default_eq default_unchecked_def config_constants is_blank_def trim_def) code_simp
  from validated_request_accepted[OF config_default_in_range this] show ?thesis by simp
qed

end
