(* ===== verification/Resolve.thy ===== *)
theory Resolve
  imports Config Control
begin

text \<open>
  \<open>ConfigFile::resolve_with_context\<close>: running a profile's DSN command. The child process,
  its output file and the process group are reached through \<open>dsn_env\<close>, one field per system
  call of the code.
\<close>

datatype wait_status = Exited bool | StillRunning | WaitFailed

record 'w dsn_env =
  de_create :: "(bool, 'w) reader"             \<comment> \<open>open the output file, \<open>create_new\<close>, mode 0600\<close>
  de_spawn :: "string \<Rightarrow> (bool, 'w) reader"    \<comment> \<open>spawn \<open>bash -c dsn\<close>\<close>
  de_try_wait :: "(wait_status, 'w) reader"
  de_read :: "(string option, 'w) reader"      \<comment> \<open>the contents of the output file\<close>
  de_terminate :: "'w \<Rightarrow> 'w"                   \<comment> \<open>\<open>terminate_process_group(child.id())\<close>\<close>
  de_wait :: "'w \<Rightarrow> 'w"                        \<comment> \<open>\<open>child.wait()\<close>\<close>
  de_sleep :: "'w \<Rightarrow> 'w"
  de_remove :: "'w \<Rightarrow> 'w"                      \<comment> \<open>\<open>TempOutput::drop\<close>\<close>

definition dsn_of_output :: "config \<Rightarrow> string \<Rightarrow> config_error + config \<times> string" where
  "dsn_of_output c file =
     (let bytes = take 65537 file
      in if length bytes > 65536 then Inl DsnCommand
         else if \<not> utf8_valid bytes then Inl InvalidDsnOutput
         else let dsn = trim bytes
              in if dsn = [] then Inl EmptyDsn else Inr (c, dsn))"

text \<open>One round of the loop around \<open>try_wait\<close>.\<close>

definition dsn_wait_body ::
    "'w dsn_env \<Rightarrow> 'w request_context \<Rightarrow> config \<Rightarrow> 'w
      \<Rightarrow> ('w, (config_error + config \<times> string) \<times> 'w) flow option" where
  "dsn_wait_body env ctx c w =
     (case or_read (rc_cancelled ctx) (or_read (rc_stopping ctx) (expired ctx)) w of
        (stop, w1) \<Rightarrow>
          if stop then Some (Break (Inl DsnTimeout, de_wait env (de_terminate env w1)))
          else (case de_try_wait env w1 of
             (status, w2) \<Rightarrow>
               (case status of
                  Exited success \<Rightarrow>
                    if \<not> success then Some (Break (Inl DsnCommand, w2))
                    else (case de_read env w2 of
                       (file, w3) \<Rightarrow>
                         (case file of
                            None \<Rightarrow> Some (Break (Inl DsnCommand, w3))
                          | Some bytes \<Rightarrow> Some (Break (dsn_of_output c bytes, w3))))
                | StillRunning \<Rightarrow> Some (Continue (de_sleep env w2))
                | WaitFailed \<Rightarrow>
                    Some (Break (Inl DsnCommand, de_wait env (de_terminate env w2))))))"

definition dsn_wait ::
    "'w dsn_env \<Rightarrow> 'w request_context \<Rightarrow> config \<Rightarrow> 'w
      \<Rightarrow> ((config_error + config \<times> string) \<times> 'w) option" where
  "dsn_wait env ctx c w = rust_loop (dsn_wait_body env ctx c) w"

definition resolve_with_context ::
    "'w dsn_env \<Rightarrow> config_file \<Rightarrow> string \<Rightarrow> 'w request_context \<Rightarrow> 'w
      \<Rightarrow> ((config_error + config \<times> string) \<times> 'w) option" where
  "resolve_with_context env f name ctx w =
     (case ok_or UnknownProfile (bt_get name (cf_profiles f)) of
        Inl e \<Rightarrow> Some (Inl e, w)
      | Inr p \<Rightarrow>
         (let base = merge (cf_defaults f) (cf_legacy f);
              c = into_config (merge base (pr_overrides p))
          in case validate c of
               Inl e \<Rightarrow> Some (Inl e, w)
             | Inr _ \<Rightarrow>
                (case de_create env w of
                   (created, w1) \<Rightarrow>
                     if \<not> created then Some (Inl DsnCommand, w1)
                     else (case de_spawn env (pr_dsn p) w1 of
                        (spawned, w2) \<Rightarrow>
                          if \<not> spawned then Some (Inl DsnCommand, de_remove env w2)
                          else do {
                            (r, w3) \<leftarrow> dsn_wait env ctx c w2;
                            Some (r, de_remove env w3)
                          }))))"


section \<open>What a resolved DSN is\<close>

lemma dsn_of_output_Ok:
  "dsn_of_output c file = Inr (d, dsn) \<longleftrightarrow>
     d = c \<and> length file \<le> 65536 \<and> utf8_valid file \<and> dsn = trim file \<and> dsn \<noteq> []"
  by (auto simp: dsn_of_output_def Let_def split: if_splits)

lemma dsn_wait_Ok:
  assumes "dsn_wait env ctx c w = Some (Inr x, w')"
  shows "\<exists>file. dsn_of_output c file = Inr x"
proof -
  have "\<forall>x. fst r = Inr x \<longrightarrow> (\<exists>file. dsn_of_output c file = Inr x)"
    if "rust_loop (dsn_wait_body env ctx c) w = Some r" for r
    by (rule rust_loop_invariant [where I = "\<lambda>_. True", OF that])
       (auto simp: dsn_wait_body_def split: prod.splits if_splits wait_status.splits option.splits)
  from this[of "(Inr x, w')"] assms show ?thesis by (simp add: dsn_wait_def)
qed


text \<open>A world of files and a clock to run the model in: the child exits after some polls.\<close>

record dsn_world =
  dw_clock :: nat
  dw_polls :: nat
  dw_output :: string
  dw_files :: nat

definition sample_dsn_env :: "dsn_world dsn_env" where
  "sample_dsn_env = \<lparr>
     de_create = (\<lambda>w. (True, w\<lparr>dw_files := dw_files w + 1\<rparr>)),
     de_spawn = (\<lambda>_ w. (True, w)),
     de_try_wait = (\<lambda>w. (if dw_polls w = 0 then Exited True else StillRunning,
                          w\<lparr>dw_polls := dw_polls w - 1\<rparr>)),
     de_read = (\<lambda>w. (Some (dw_output w), w)),
     de_terminate = (\<lambda>w. w),
     de_wait = (\<lambda>w. w),
     de_sleep = (\<lambda>w. w\<lparr>dw_clock := dw_clock w + 5\<rparr>),
     de_remove = (\<lambda>w. w\<lparr>dw_files := dw_files w - 1\<rparr>)\<rparr>"

definition sample_context :: "nat \<Rightarrow> dsn_world request_context" where
  "sample_context deadline = \<lparr>
     rc_cancelled = (\<lambda>w. (False, w)), rc_stopping = (\<lambda>w. (False, w)),
     rc_now = (\<lambda>w. (dw_clock w, w)), rc_deadline = deadline, rc_grace = 5\<rparr>"

lemmas resolve_samples = sample_dsn_env_def sample_context_def or_read_def expired_def past_def


section \<open>The output file is removed and the wait is bounded\<close>

text \<open>
  C32. The wait for a profile's DSN command always ends: if every read and poll leaves the
  clock alone or advances it and each sleep advances it, the loop stops at the deadline at the
  latest, whatever the child does.
\<close>

theorem resolve_with_context_returns:
  assumes clock: "\<And>w. rc_now ctx w = (clock w, w)"
    and reads: "\<And>w. clock w \<le> clock (snd (rc_cancelled ctx w))"
      "\<And>w. clock w \<le> clock (snd (rc_stopping ctx w))"
      "\<And>w. clock w \<le> clock (snd (de_try_wait env w))"
    and sleep: "\<And>w. clock w < clock (de_sleep env w)"
  shows "\<exists>r. resolve_with_context env f name ctx w = Some r"
proof -
  let ?g = "or_read (rc_cancelled ctx) (or_read (rc_stopping ctx) (expired ctx))"
  have mono: "clock w \<le> clock (snd (?g w))" for w
    using reads(1)[of w] reads(2)[of "snd (rc_cancelled ctx w)"]
    by (auto simp: or_read_def expired_def past_def clock split: prod.splits)
  have before: "clock (snd (?g w)) < rc_deadline ctx" if "\<not> fst (?g w)" for w
    using that by (auto simp: or_read_def expired_def past_def clock split: prod.splits if_splits)
  have round: "rc_deadline ctx - clock w' < rc_deadline ctx - clock w"
    if cont: "dsn_wait_body env ctx c w = Some (Continue w')" for c w w'
  proof -
    from cont have g: "\<not> fst (?g w)" and w': "w' = de_sleep env (snd (de_try_wait env (snd (?g w))))"
      by (auto simp: dsn_wait_body_def split: prod.splits if_splits wait_status.splits option.splits)
    show ?thesis
      using mono[of w] before[OF g] reads(3)[of "snd (?g w)"]
        sleep[of "snd (de_try_wait env (snd (?g w)))"] unfolding w' by linarith
  qed
  have total: "\<exists>f. dsn_wait_body env ctx c w = Some f" for c w
    by (auto simp: dsn_wait_body_def split: prod.splits wait_status.splits option.splits)
  have wait: "\<exists>r. dsn_wait env ctx c w = Some r" for c w
    unfolding dsn_wait_def
    by (rule rust_loop_returns [where I = "\<lambda>_. True" and m = "\<lambda>w. rc_deadline ctx - clock w"])
       (use total round in auto)
  show ?thesis
  proof -
    have "\<exists>r. (do { (r, w3) \<leftarrow> dsn_wait env ctx c u; Some (r, de_remove env w3) }) = Some r"
      for c u using wait[of c u] by (auto split: prod.splits)
    then show ?thesis
      by (auto simp: resolve_with_context_def Let_def split: sum.splits prod.splits)
  qed
qed

theorem resolve_with_context_returns_witness:
  "\<exists>r. resolve_with_context sample_dsn_env sample_profiles ''local'' (sample_context 100)
     \<lparr>dw_clock = 0, dw_polls = 1000, dw_output = [], dw_files = 0\<rparr> = Some r"
  by (rule resolve_with_context_returns [where clock = dw_clock])
     (simp_all add: sample_context_def sample_dsn_env_def)

text \<open>
  Nothing the command printed is left on disk: when creating the output file adds it and
  dropping the guard removes it, and no other step touches it, every way of leaving
  \<open>resolve_with_context\<close> (early returns, timeouts and errors included) ends with the files
  that were there before.
\<close>

theorem resolve_with_context_removes_output:
  assumes ret: "resolve_with_context env f name ctx w = Some (r, w')"
    and create: "\<And>w. files (snd (de_create env w)) = (if fst (de_create env w) then files w + 1 else files w)"
    and remove: "\<And>w. files (de_remove env w) = files w - (1::nat)"
    and frame: "\<And>w. files (snd (de_try_wait env w)) = files w"
      "\<And>w. files (snd (de_read env w)) = files w"
      "\<And>w d. files (snd (de_spawn env d w)) = files w"
      "\<And>w. files (de_terminate env w) = files w" "\<And>w. files (de_wait env w) = files w"
      "\<And>w. files (de_sleep env w) = files w"
      "\<And>w. files (snd (rc_cancelled ctx w)) = files w"
      "\<And>w. files (snd (rc_stopping ctx w)) = files w"
      "\<And>w. files (snd (rc_now ctx w)) = files w"
  shows "files w' = files w"
proof -
  let ?g = "or_read (rc_cancelled ctx) (or_read (rc_stopping ctx) (expired ctx))"
  have g: "files (snd (?g u)) = files u" for u
    using frame(7)[of u] frame(8)[of "snd (rc_cancelled ctx u)"]
      frame(9)[of "snd (rc_stopping ctx (snd (rc_cancelled ctx u)))"]
    by (auto simp: or_read_def expired_def past_def split: prod.splits)
  have body: "case f of Continue v \<Rightarrow> files v = files u | Break x \<Rightarrow> files (snd x) = files u"
    if "dsn_wait_body env ctx c u = Some f" for c u f
    using that
    by (auto simp: dsn_wait_body_def case_prod_beta g frame
        split: if_splits wait_status.splits option.splits)
  have wait: "files v = files u" if "dsn_wait env ctx c u = Some (x, v)" for c u v x
  proof -
    have "files (snd r) = files u" if "rust_loop (dsn_wait_body env ctx c) u = Some r" for r
      by (rule rust_loop_invariant [where I = "\<lambda>v. files v = files u", OF that])
         (auto dest!: body)
    from this[of "(x, v)"] that show ?thesis by (simp add: dsn_wait_def)
  qed
  show ?thesis
    using ret
    by (auto simp: resolve_with_context_def Let_def bind_eq_Some_conv case_prod_beta create remove
          frame
        split: sum.splits if_splits dest!: wait)
qed

theorem resolve_with_context_removes_output_witness:
  "dw_files (snd (the (resolve_with_context sample_dsn_env sample_profiles ''local''
      (sample_context 7) \<lparr>dw_clock = 0, dw_polls = 1000, dw_output = [], dw_files = 3\<rparr>))) = 3"
proof -
  let ?w = "\<lparr>dw_clock = 0, dw_polls = 1000, dw_output = [], dw_files = 3\<rparr>"
  obtain r w' where r: "resolve_with_context sample_dsn_env sample_profiles ''local''
      (sample_context 7) ?w = Some (r, w')"
    using resolve_with_context_returns [where clock = dw_clock and env = sample_dsn_env
        and ctx = "sample_context 7" and f = sample_profiles and name = "''local''" and w = ?w]
    by (auto simp: sample_context_def sample_dsn_env_def)
  have "dw_files w' = dw_files ?w"
    by (rule resolve_with_context_removes_output [where files = dw_files, OF r])
       (simp_all add: sample_context_def sample_dsn_env_def)
  with r show ?thesis by simp
qed

end
