(* ===== verification/System.thy ===== *)
theory System
  imports Prelude
begin

text \<open>
  Transition systems: reachable states and paths, the rule that an invariant of every step holds
  of every reachable state, and the rule that a relation every step preserves relates the ends
  of every path. The registry's critical sections are an instance.
\<close>

inductive reachable :: "('s \<Rightarrow> bool) \<Rightarrow> ('s \<Rightarrow> 'l \<Rightarrow> 's \<Rightarrow> bool) \<Rightarrow> 's \<Rightarrow> bool" for start step where
  reachable_start: "start s \<Longrightarrow> reachable start step s"
| reachable_step: "reachable start step s \<Longrightarrow> step s l s' \<Longrightarrow> reachable start step s'"

inductive path :: "('s \<Rightarrow> 'l \<Rightarrow> 's \<Rightarrow> bool) \<Rightarrow> 's \<Rightarrow> 'l list \<Rightarrow> 's \<Rightarrow> bool" for step where
  path_refl: "path step s [] s"
| path_step: "step s l s' \<Longrightarrow> path step s' ls s'' \<Longrightarrow> path step s (l # ls) s''"

inductive_cases path_NilE: "path step s [] s'"
inductive_cases path_ConsE: "path step s (l # ls) s'"

lemma path_single: "step s l s' \<Longrightarrow> path step s [l] s'"
  by (blast intro: path.intros)

lemma path_append: "path step s ls s' \<Longrightarrow> step s' l s'' \<Longrightarrow> path step s (ls @ [l]) s''"
  by (induction rule: path.induct) (auto intro: path.intros)

lemma reachable_path: "path step s ls s' \<Longrightarrow> reachable start step s \<Longrightarrow> reachable start step s'"
  by (induction rule: path.induct) (auto intro: reachable.intros)

locale invariant_system =
  fixes start :: "'s \<Rightarrow> bool" and step :: "'s \<Rightarrow> 'l \<Rightarrow> 's \<Rightarrow> bool" and inv :: "'s \<Rightarrow> bool"
  assumes inv_start: "start s \<Longrightarrow> inv s"
    and inv_step: "inv s \<Longrightarrow> step s l s' \<Longrightarrow> inv s'"
begin

lemma reachable_inv: "reachable start step s \<Longrightarrow> inv s"
  by (induction rule: reachable.induct) (auto intro: inv_start inv_step)

lemma path_inv: "path step s ls s' \<Longrightarrow> inv s \<Longrightarrow> inv s'"
  by (induction rule: path.induct) (auto intro: inv_step)

end

text \<open>A preorder every step from a state with the invariant goes up in.\<close>

locale monotone_system = invariant_system +
  fixes before :: "'s \<Rightarrow> 's \<Rightarrow> bool"
  assumes before_refl: "before s s"
    and before_trans: "before s t \<Longrightarrow> before t u \<Longrightarrow> before s u"
    and before_step: "inv s \<Longrightarrow> step s l s' \<Longrightarrow> before s s'"
begin

lemma path_before: "path step s ls s' \<Longrightarrow> inv s \<Longrightarrow> before s s'"
proof (induction rule: path.induct)
  case (path_refl s)
  show ?case by (rule before_refl)
next
  case (path_step s l s' ls s'')
  then show ?case by (blast intro: before_trans before_step inv_step)
qed

end

end
