(* ===== verification/Registry.thy ===== *)
theory Registry
  imports Backend Resolve System
begin

text \<open>
  The registry of \<open>worker.rs\<close>: \<open>PublishedHandle\<close>, \<open>WorkerEntry\<close>, \<open>RegistryState\<close> and the
  critical sections the threads run under its mutex. Every function that locks the mutex is a
  function of the registry here, so any interleaving of threads is a sequence of such steps
  (\<open>registry_step\<close>). A worker's queue is the list of its pending requests with the capacity of
  its channel; a thread is known by whether it has finished. Locking the mutex a second time
  while holding it never returns and is \<open>None\<close>.
\<close>

section \<open>State\<close>

datatype lifecycle = Running | Stopping | Stopped

record published_handle =
  ph_id :: string
  ph_database :: string
  ph_observation :: backend_observation
  ph_schema_observed :: bool
  ph_schema_dirty :: bool
  ph_closed :: bool

definition published_state :: "published_handle \<Rightarrow> handle_state" where
  "published_state p = handle_state_new (ph_id p) (ph_database p)
     (if ph_closed p then CsClosed else connection_protocol (bo_connection (ph_observation p)))
     (if ph_closed p then TsUnknown else bo_transaction (ph_observation p))
     (bo_busy (ph_observation p))
     (if ph_closed p then False else ph_schema_observed p)"

text \<open>A request in a worker's queue; the shutdown request says whether a reply is awaited.\<close>

datatype 'o request = OperationRequest 'o | ShutdownRequest bool

record 'o worker_entry =
  we_published :: published_handle
  we_profile :: string
  we_config :: config
  we_queue :: "'o request list"
  we_receiving :: bool          \<comment> \<open>the worker still holds the receiver\<close>
  we_join :: "bool option"      \<comment> \<open>the join handle, and whether the thread has finished\<close>
  we_admitted :: usize

record pending_open =
  po_profile :: string
  po_cancelled :: bool

datatype shutdown_outcome = OutcomeVerified | OutcomeUncertain

record shutdown_entry =
  se_handle :: string
  se_outcome :: shutdown_outcome
  se_stage :: "string option"

definition entry_verified :: "string \<Rightarrow> shutdown_entry" where
  "entry_verified h = \<lparr>se_handle = h, se_outcome = OutcomeVerified, se_stage = None\<rparr>"

definition entry_uncertain :: "string \<Rightarrow> string \<Rightarrow> shutdown_entry" where
  "entry_uncertain h stage =
     \<lparr>se_handle = h, se_outcome = OutcomeUncertain, se_stage = Some stage\<rparr>"

type_synonym shutdown_report = "shutdown_entry list"

definition report_verified :: "shutdown_report \<Rightarrow> bool" where
  "report_verified r \<longleftrightarrow> list_all (\<lambda>e. se_outcome e = OutcomeVerified) r"

record 'o registry =
  rg_lifecycle :: lifecycle
  rg_handles :: "(string, 'o worker_entry) btree"
  rg_pending :: "(string, pending_open) btree"
  rg_next :: "64 word"
  rg_frozen :: "shutdown_report option"

definition registry_new :: "'o registry" where
  "registry_new = \<lparr>rg_lifecycle = Running, rg_handles = [], rg_pending = [], rg_next = 1,
     rg_frozen = None\<rparr>"

text \<open>\<open>format!("h-{:016x}", n)\<close>\<close>

definition handle_name :: "64 word \<Rightarrow> string" where
  "handle_name n = ''h-'' @ hex_digits 16 (unat n)"

definition saturating_succ :: "64 word \<Rightarrow> 64 word" where
  "saturating_succ n = (if n = - 1 then n else n + 1)"

definition allocate_handle :: "'o registry \<Rightarrow> string \<times> 'o registry" where
  "allocate_handle rg = (handle_name (rg_next rg), rg\<lparr>rg_next := saturating_succ (rg_next rg)\<rparr>)"

text \<open>The immutable part of \<open>Core\<close>.\<close>

record core =
  core_config :: config
  core_profiles :: "config_file option"
  core_dsn :: string

section \<open>Opening\<close>

definition profile_lookup :: "core \<Rightarrow> string \<Rightarrow> core_error + config option" where
  "profile_lookup core profile = (case core_profiles core of
     None \<Rightarrow> Ok None
   | Some profiles \<Rightarrow>
       (case profile_config profiles profile of
          Inr c \<Rightarrow> Ok (Some c)
        | Inl UnknownProfile \<Rightarrow> Err (core_error DatabaseUnknown)
        | Inl _ \<Rightarrow> Err (core_error ConfigError)))"

definition effective_config :: "core \<Rightarrow> config option \<Rightarrow> config" where
  "effective_config core c = (case c of None \<Rightarrow> core_config core | Some c \<Rightarrow> c)"

definition profile_handles :: "'o registry \<Rightarrow> string \<Rightarrow> nat" where
  "profile_handles rg profile =
     length (filter (\<lambda>e. we_profile (snd e) = profile) (rg_handles rg))"

definition profile_pending :: "'o registry \<Rightarrow> string \<Rightarrow> nat" where
  "profile_pending rg profile =
     length (filter (\<lambda>e. po_profile (snd e) = profile) (rg_pending rg))"

text \<open>The reserved id, the connection timeout and the drain grace.\<close>

definition reserve_open ::
  "core \<Rightarrow> string \<Rightarrow> 'o registry \<Rightarrow> (core_error + string \<times> nat \<times> nat) \<times> 'o registry" where
  "reserve_open core profile rg =
     (if rg_lifecycle rg \<noteq> Running then (Err (core_error ServerStopping), rg)
      else if profile = [] then (Err (core_error DatabaseUnknown), rg)
      else case profile_lookup core profile of
          Inl e \<Rightarrow> (Err e, rg)
        | Inr found \<Rightarrow>
            let c = effective_config core found in
            if max_handles c \<le>
                saturating_add (profile_handles rg profile) (profile_pending rg profile)
            then (Err (core_error HandleLimit), rg)
            else
              let (h, rg') = allocate_handle rg;
                  rg' = rg'\<lparr>rg_pending := bt_insert h
                    \<lparr>po_profile = profile, po_cancelled = False\<rparr> (rg_pending rg')\<rparr>
              in (Ok (h, connection_timeout c, cancel_drain_grace c), rg'))"

definition finish_open :: "string \<Rightarrow> 'o registry \<Rightarrow> 'o registry" where
  "finish_open h rg = rg\<lparr>rg_pending := bt_remove h (rg_pending rg)\<rparr>"

definition published_new :: "string \<Rightarrow> string \<Rightarrow> backend_observation \<Rightarrow> published_handle" where
  "published_new h database obs = \<lparr>ph_id = h, ph_database = database, ph_observation = obs,
     ph_schema_observed = False, ph_schema_dirty = False, ph_closed = False\<rparr>"

text \<open>The last critical section of \<open>connect_and_publish\<close>; \<open>None\<close> when admission has closed.\<close>

definition publish_open ::
  "string \<Rightarrow> string \<Rightarrow> config \<Rightarrow> string \<Rightarrow> backend_observation \<Rightarrow> 'o registry \<Rightarrow>
     'o registry option" where
  "publish_open h profile c database obs rg =
     (if rg_lifecycle rg \<noteq> Running then None
      else Some (rg\<lparr>rg_pending := bt_remove h (rg_pending rg),
        rg_handles := bt_insert h \<lparr>we_published = published_new h database obs,
          we_profile = profile, we_config = c, we_queue = [], we_receiving = True,
          we_join = Some False, we_admitted = 0\<rparr> (rg_handles rg)\<rparr>))"

definition list_handles :: "'o registry \<Rightarrow> handle_state list" where
  "list_handles rg = map (\<lambda>e. published_state (we_published e)) (bt_values (rg_handles rg))"

section \<open>Reading and publishing a handle\<close>

definition current_state :: "string \<Rightarrow> 'o registry \<Rightarrow> handle_state option" where
  "current_state h rg =
     map_option (\<lambda>e. published_state (we_published e)) (bt_get h (rg_handles rg))"

definition current_database :: "string \<Rightarrow> 'o registry \<Rightarrow> string" where
  "current_database h rg =
     (case bt_get h (rg_handles rg) of None \<Rightarrow> [] | Some e \<Rightarrow> ph_database (we_published e))"

definition current_schema_dirty :: "string \<Rightarrow> 'o registry \<Rightarrow> bool" where
  "current_schema_dirty h rg =
     (case bt_get h (rg_handles rg) of None \<Rightarrow> False | Some e \<Rightarrow> ph_schema_dirty (we_published e))"

text \<open>\<open>if let Some(entry) = registry.handles.get_mut(handle) { entry... }\<close>\<close>

definition modify_entry ::
  "string \<Rightarrow> ('o worker_entry \<Rightarrow> 'o worker_entry) \<Rightarrow> 'o registry \<Rightarrow> 'o registry" where
  "modify_entry h f rg = rg\<lparr>rg_handles := bt_modify h f (rg_handles rg)\<rparr>"

definition modify_published ::
  "string \<Rightarrow> (published_handle \<Rightarrow> published_handle) \<Rightarrow> 'o registry \<Rightarrow> 'o registry" where
  "modify_published h f = modify_entry h (\<lambda>e. e\<lparr>we_published := f (we_published e)\<rparr>)"

definition update_observation ::
  "string \<Rightarrow> backend_observation \<Rightarrow> bool option \<Rightarrow> 'o registry \<Rightarrow> 'o registry" where
  "update_observation h obs schema = modify_published h (\<lambda>p.
     let p = p\<lparr>ph_observation := obs\<rparr>
     in case schema of None \<Rightarrow> p | Some b \<Rightarrow> p\<lparr>ph_schema_observed := b\<rparr>)"

definition update_schema_dirty :: "string \<Rightarrow> bool \<Rightarrow> 'o registry \<Rightarrow> 'o registry" where
  "update_schema_dirty h dirty = modify_published h (\<lambda>p. p\<lparr>ph_schema_dirty := dirty\<rparr>)"

definition publish_unknown :: "string \<Rightarrow> 'o registry \<Rightarrow> 'o registry" where
  "publish_unknown h = modify_published h (\<lambda>p. p\<lparr>
     ph_observation := \<lparr>bo_connection = BcBad, bo_transaction = TsUnknown, bo_busy = False\<rparr>,
     ph_schema_observed := False, ph_schema_dirty := False\<rparr>)"

definition publish_closed :: "string \<Rightarrow> 'o registry \<Rightarrow> 'o registry" where
  "publish_closed h = modify_published h (\<lambda>p. p\<lparr>ph_closed := True,
     ph_schema_observed := False, ph_schema_dirty := False, ph_observation := gone\<rparr>)"

section \<open>Admission\<close>

record core_failure =
  kf_error :: core_error
  kf_handle_state :: "handle_state option"
  kf_sqlstate :: "string option"
  kf_outcome_unknown :: bool

definition failure_process :: "core_error \<Rightarrow> core_failure" where
  "failure_process e = \<lparr>kf_error = e, kf_handle_state = None, kf_sqlstate = None,
     kf_outcome_unknown = ce_outcome_unknown e\<rparr>"

text \<open>\<open>CoreFailure::for_handle\<close> locks the registry to read the state.\<close>

definition failure_for_handle :: "string \<Rightarrow> core_error \<Rightarrow> 'o registry \<Rightarrow> core_failure" where
  "failure_for_handle h e rg = \<lparr>kf_error = e, kf_handle_state = current_state h rg,
     kf_sqlstate = None, kf_outcome_unknown = ce_outcome_unknown e\<rparr>"

definition failure_from_backend :: "handle_state option \<Rightarrow> backend_failure \<Rightarrow> core_failure" where
  "failure_from_backend hs f = \<lparr>kf_error = bf_error f, kf_handle_state = hs,
     kf_sqlstate = bf_sqlstate f, kf_outcome_unknown = bf_outcome_unknown f\<rparr>"

definition channel_capacity :: "config \<Rightarrow> nat" where
  "channel_capacity c = max (outstanding_requests c) 1"

text \<open>The timeouts of a request, from the first lock of \<open>dispatch\<close>.\<close>

definition dispatch_timeouts :: "string \<Rightarrow> 'o registry \<Rightarrow> core_failure + nat \<times> nat" where
  "dispatch_timeouts h rg =
     (case bt_get h (rg_handles rg) of
        None \<Rightarrow> Err (failure_process (core_error HandleUnknown))
      | Some e \<Rightarrow> Ok (request_timeout (we_config e), cancel_drain_grace (we_config e)))"

text \<open>
  The second critical section of \<open>dispatch\<close>. On a closed handle the failure is built by
  \<open>for_handle\<close>, which locks the mutex the section already holds.
\<close>

definition dispatch_admit ::
  "string \<Rightarrow> 'o request \<Rightarrow> 'o registry \<Rightarrow> ((core_failure + unit) \<times> 'o registry) option" where
  "dispatch_admit h request rg =
     (if rg_lifecycle rg \<noteq> Running then Some (Err (failure_process (core_error ServerStopping)), rg)
      else case bt_get h (rg_handles rg) of
          None \<Rightarrow> Some (Err (failure_process (core_error HandleUnknown)), rg)
        | Some e \<Rightarrow>
            let state = published_state (we_published e);
                refuse = (\<lambda>c u. Some (Err \<lparr>kf_error = core_error c, kf_handle_state = Some state,
                  kf_sqlstate = None, kf_outcome_unknown = u\<rparr>, rg))
            in if ph_closed (we_published e) then None
               else if outstanding_requests (we_config e) \<le> we_admitted e then refuse QueueFull False
               else if \<not> we_receiving e then refuse ConnectionLost True
               else if channel_capacity (we_config e) \<le> length (we_queue e)
               then refuse QueueFull False
               else Some (Ok (), modify_entry h (\<lambda>e. e\<lparr>we_admitted := we_admitted e + 1,
                      we_queue := we_queue e @ [request]\<rparr>) rg))"

text \<open>\<open>AdmissionGuard::drop\<close>, and the worker taking its next request.\<close>

definition release_admission :: "string \<Rightarrow> 'o registry \<Rightarrow> 'o registry" where
  "release_admission h = modify_entry h (\<lambda>e. e\<lparr>we_admitted := saturating_sub (we_admitted e) 1\<rparr>)"

definition take_request :: "string \<Rightarrow> 'o registry \<Rightarrow> ('o request \<times> 'o registry) option" where
  "take_request h rg = (case bt_get h (rg_handles rg) of
     None \<Rightarrow> None
   | Some e \<Rightarrow> (case we_queue e of
       [] \<Rightarrow> None
     | r # rs \<Rightarrow> Some (r, modify_entry h (\<lambda>e. e\<lparr>we_queue := tl (we_queue e)\<rparr>) rg)))"

text \<open>
  \<open>try_send\<close> or \<open>send\<close> of a shutdown request, when the queue has room; the end of the worker
  loop, which drops the receiver and the requests still in it; and the end of its thread.
\<close>

definition send_shutdown :: "string \<Rightarrow> bool \<Rightarrow> 'o registry \<Rightarrow> 'o registry option" where
  "send_shutdown h reply rg = (case bt_get h (rg_handles rg) of
     None \<Rightarrow> None
   | Some e \<Rightarrow>
       if \<not> we_receiving e \<or> channel_capacity (we_config e) \<le> length (we_queue e) then None
       else Some (modify_entry h (\<lambda>e. e\<lparr>we_queue := we_queue e @ [ShutdownRequest reply]\<rparr>) rg))"

definition worker_exit :: "string \<Rightarrow> 'o registry \<Rightarrow> 'o registry" where
  "worker_exit h = modify_entry h (\<lambda>e. e\<lparr>we_receiving := False, we_queue := []\<rparr>)"

definition thread_finished :: "string \<Rightarrow> 'o registry \<Rightarrow> 'o registry" where
  "thread_finished h = modify_entry h (\<lambda>e. e\<lparr>we_join := map_option (\<lambda>_. True) (we_join e)\<rparr>)"

section \<open>Stopping\<close>

datatype begin_shutdown = AlreadyFrozen shutdown_report | NotOwner | Owner "string list" "string list"

text \<open>\<open>pending.shutdown.cancel()\<close> for every reservation.\<close>

definition cancel_pending :: "(string, pending_open) btree \<Rightarrow> (string, pending_open) btree" where
  "cancel_pending m = map (\<lambda>e. (fst e, (snd e)\<lparr>po_cancelled := True\<rparr>)) m"

text \<open>Exactly one caller moves the lifecycle out of \<open>Running\<close> and owns the cleanup.\<close>

definition shutdown_begin :: "'o registry \<Rightarrow> begin_shutdown \<times> 'o registry" where
  "shutdown_begin rg = (case rg_frozen rg of
     Some report \<Rightarrow> (AlreadyFrozen report, rg)
   | None \<Rightarrow>
       if rg_lifecycle rg \<noteq> Running then (NotOwner, rg)
       else (Owner (bt_keys (rg_handles rg)) (bt_keys (rg_pending rg)),
         rg\<lparr>rg_lifecycle := Stopping,
            rg_pending := cancel_pending (rg_pending rg)\<rparr>))"

definition shutdown_freeze :: "shutdown_report \<Rightarrow> 'o registry \<Rightarrow> shutdown_report \<times> 'o registry" where
  "shutdown_freeze report rg =
     (let rg = rg\<lparr>rg_lifecycle := Stopped\<rparr> in
      case rg_frozen rg of
        Some existing \<Rightarrow> (existing, rg)
      | None \<Rightarrow> (report, rg\<lparr>rg_frozen := Some report\<rparr>))"

text \<open>\<open>join_worker\<close>: whether the worker's thread is known to have ended.\<close>

definition join_worker :: "string \<Rightarrow> 'o registry \<Rightarrow> bool \<times> 'o registry" where
  "join_worker h rg = (case bt_get h (rg_handles rg) of
     None \<Rightarrow> (True, rg)
   | Some e \<Rightarrow> (case we_join e of
       Some True \<Rightarrow> (True, modify_entry h (\<lambda>e. e\<lparr>we_join := None\<rparr>) rg)
     | Some False \<Rightarrow> (False, rg)
     | None \<Rightarrow> (True, rg)))"

definition sort_report :: "shutdown_report \<Rightarrow> shutdown_report" where
  "sort_report r = sort_key se_handle r"

end
