(* ===== verification/Concurrency.thy ===== *)
theory Concurrency
  imports Registry
begin

text \<open>
  The threads of the server as a transition system. A state is the registry and the workers that
  are executing an operation; a step is one critical section of some thread, so every
  interleaving of callers, workers and the shutdown owner is a path of \<open>critical_section\<close>. The
  invariant \<open>registry_inv\<close> and the order \<open>registry_before\<close> are proved of every step and reach
  all paths through the locales of \<open>System\<close>.
\<close>

record 'o system =
  sy_registry :: "'o registry"
  sy_executing :: "string set"

definition system_start :: "'o system" where
  "system_start = \<lparr>sy_registry = registry_new, sy_executing = {}\<rparr>"

datatype section_label =
    Reserve string | Finish string | PublishOpen string | Admit string | Take string
  | PublishState string | Release string | SendShutdown string | ExitWorker string
  | ThreadEnd string | BeginShutdown | Freeze | Join string

text \<open>What a worker writes to its published handle.\<close>

datatype publication =
    Observed backend_observation "bool option" | Dirty bool | UnknownOutcome | Disposed

fun publish :: "string \<Rightarrow> publication \<Rightarrow> 'o registry \<Rightarrow> 'o registry" where
  "publish h (Observed obs schema) = update_observation h obs schema"
| "publish h (Dirty b) = update_schema_dirty h b"
| "publish h UnknownOutcome = publish_unknown h"
| "publish h Disposed = publish_closed h"

text \<open>A worker that has closed its handle publishes nothing but that its connection is gone.\<close>

definition closed_handle :: "string \<Rightarrow> 'o registry \<Rightarrow> bool" where
  "closed_handle h rg = (case bt_get h (rg_handles rg) of
     None \<Rightarrow> False | Some e \<Rightarrow> ph_closed (we_published e))"

definition may_publish :: "string \<Rightarrow> publication \<Rightarrow> 'o registry \<Rightarrow> bool" where
  "may_publish h change rg \<longleftrightarrow>
     \<not> closed_handle h rg \<or> change = Observed gone None \<or> change = Disposed"

text \<open>
  The premises are the control flow of the threads: an opener publishes the reservation it made,
  with the configuration of its profile; a worker takes a request when it has finished the last,
  publishes as \<open>may_publish\<close> says (\<open>round_refines_sections\<close> shows that its code does), releases
  an admission it holds, and its thread ends after its loop.
\<close>

inductive critical_section ::
  "core \<Rightarrow> 'o system \<Rightarrow> section_label \<Rightarrow> 'o system \<Rightarrow> bool" for core where
  section_reserve: "reserve_open core profile rg = (r, rg') \<Longrightarrow>
    critical_section core \<lparr>sy_registry = rg, sy_executing = ex\<rparr> (Reserve profile)
      \<lparr>sy_registry = rg', sy_executing = ex\<rparr>"
| section_finish:
    "critical_section core \<lparr>sy_registry = rg, sy_executing = ex\<rparr> (Finish h)
      \<lparr>sy_registry = finish_open h rg, sy_executing = ex\<rparr>"
| section_publish_open: "bt_get h (rg_pending rg) = Some p \<Longrightarrow>
    profile_lookup core (po_profile p) = Ok found \<Longrightarrow>
    publish_open h (po_profile p) (effective_config core found) database obs rg = Some rg' \<Longrightarrow>
    critical_section core \<lparr>sy_registry = rg, sy_executing = ex\<rparr> (PublishOpen h)
      \<lparr>sy_registry = rg', sy_executing = ex\<rparr>"
| section_admit: "dispatch_admit h (OperationRequest x) rg = Some (r, rg') \<Longrightarrow>
    critical_section core \<lparr>sy_registry = rg, sy_executing = ex\<rparr> (Admit h)
      \<lparr>sy_registry = rg', sy_executing = ex\<rparr>"
| section_take: "h \<notin> ex \<Longrightarrow> take_request h rg = Some (request, rg') \<Longrightarrow>
    critical_section core \<lparr>sy_registry = rg, sy_executing = ex\<rparr> (Take h)
      \<lparr>sy_registry = rg', sy_executing =
        (case request of OperationRequest x \<Rightarrow> insert h ex | ShutdownRequest b \<Rightarrow> ex)\<rparr>"
| section_publish: "may_publish h change rg \<Longrightarrow>
    critical_section core \<lparr>sy_registry = rg, sy_executing = ex\<rparr> (PublishState h)
      \<lparr>sy_registry = publish h change rg, sy_executing = ex\<rparr>"
| section_release: "h \<in> ex \<Longrightarrow>
    critical_section core \<lparr>sy_registry = rg, sy_executing = ex\<rparr> (Release h)
      \<lparr>sy_registry = release_admission h rg, sy_executing = ex - {h}\<rparr>"
| section_send: "send_shutdown h reply rg = Some rg' \<Longrightarrow>
    critical_section core \<lparr>sy_registry = rg, sy_executing = ex\<rparr> (SendShutdown h)
      \<lparr>sy_registry = rg', sy_executing = ex\<rparr>"
| section_exit: "h \<notin> ex \<Longrightarrow>
    critical_section core \<lparr>sy_registry = rg, sy_executing = ex\<rparr> (ExitWorker h)
      \<lparr>sy_registry = worker_exit h rg, sy_executing = ex\<rparr>"
| section_thread: "bt_get h (rg_handles rg) = Some e \<Longrightarrow> \<not> we_receiving e \<Longrightarrow>
    critical_section core \<lparr>sy_registry = rg, sy_executing = ex\<rparr> (ThreadEnd h)
      \<lparr>sy_registry = thread_finished h rg, sy_executing = ex\<rparr>"
| section_begin: "shutdown_begin rg = (b, rg') \<Longrightarrow>
    critical_section core \<lparr>sy_registry = rg, sy_executing = ex\<rparr> BeginShutdown
      \<lparr>sy_registry = rg', sy_executing = ex\<rparr>"
| section_freeze: "rg_lifecycle rg \<noteq> Running \<Longrightarrow> shutdown_freeze report rg = (r, rg') \<Longrightarrow>
    critical_section core \<lparr>sy_registry = rg, sy_executing = ex\<rparr> Freeze
      \<lparr>sy_registry = rg', sy_executing = ex\<rparr>"
| section_join: "join_worker h rg = (b, rg') \<Longrightarrow>
    critical_section core \<lparr>sy_registry = rg, sy_executing = ex\<rparr> (Join h)
      \<lparr>sy_registry = rg', sy_executing = ex\<rparr>"

inductive_cases admit_sectionE: "critical_section core s (Admit h) s'"
inductive_simps publish_section: "critical_section core s (PublishState h) s'"

section \<open>The invariant\<close>

definition profile_count :: "'o registry \<Rightarrow> string \<Rightarrow> nat" where
  "profile_count rg profile = profile_handles rg profile + profile_pending rg profile"

definition is_operation :: "'o request \<Rightarrow> bool" where
  "is_operation r = (case r of OperationRequest _ \<Rightarrow> True | ShutdownRequest _ \<Rightarrow> False)"

lemma is_operation_simps [simp]: "is_operation (OperationRequest x)" "\<not> is_operation (ShutdownRequest b)"
  by (simp_all add: is_operation_def)

text \<open>
  An entry carries its key as its id; its admissions are within the limit and are exactly the
  operations queued or executing while the worker receives; its queue is within the channel's
  capacity, and empty once the worker has stopped receiving.
\<close>

definition entry_inv :: "string set \<Rightarrow> string \<Rightarrow> 'o worker_entry \<Rightarrow> bool" where
  "entry_inv ex h e \<longleftrightarrow>
     ph_id (we_published e) = h \<and>
     we_admitted e \<le> outstanding_requests (we_config e) \<and>
     length (we_queue e) \<le> channel_capacity (we_config e) \<and>
     (if we_receiving e
      then we_admitted e = length (filter is_operation (we_queue e)) + (if h \<in> ex then 1 else 0)
      else we_queue e = [] \<and> h \<notin> ex)"

definition fresh_names :: "'o registry \<Rightarrow> bool" where
  "fresh_names rg \<longleftrightarrow> fst ` set (rg_handles rg) \<union> fst ` set (rg_pending rg)
     \<subseteq> handle_name ` {..<rg_next rg}"

text \<open>
  The invariant holds until the counter of names is exhausted (\<open>allocate_handle\<close> saturates at
  \<open>2 ^ 64 - 1\<close> and would reuse that name).
\<close>

definition system_inv :: "core \<Rightarrow> 'o registry \<Rightarrow> string set \<Rightarrow> bool" where
  "system_inv core rg ex \<longleftrightarrow>
     bt_ok (rg_handles rg) \<and> bt_ok (rg_pending rg) \<and>
     (\<forall>profile found. profile_lookup core profile = Ok found \<longrightarrow>
        profile_count rg profile \<le> max_handles (effective_config core found)) \<and>
     (\<forall>h e. bt_get h (rg_handles rg) = Some e \<longrightarrow> entry_inv ex h e) \<and>
     (\<forall>h \<in> ex. bt_get h (rg_handles rg) \<noteq> None) \<and>
     (rg_frozen rg \<noteq> None \<longrightarrow> rg_lifecycle rg = Stopped) \<and>
     fresh_names rg \<and>
     (\<forall>h. bt_get h (rg_pending rg) \<noteq> None \<longrightarrow> bt_get h (rg_handles rg) = None)"

text \<open>\<open>max_handles\<close> is a \<open>usize\<close> in every configuration.\<close>

definition core_fits :: "core \<Rightarrow> bool" where
  "core_fits core \<longleftrightarrow> (\<forall>profile found. profile_lookup core profile = Ok found \<longrightarrow>
     max_handles (effective_config core found) \<le> usize_max)"

definition registry_inv :: "core \<Rightarrow> 'o system \<Rightarrow> bool" where
  "registry_inv core s \<longleftrightarrow> (core_fits core \<longrightarrow> rg_next (sy_registry s) \<noteq> - 1 \<longrightarrow>
     system_inv core (sy_registry s) (sy_executing s))"

section \<open>Preservation\<close>

lemma modify_entry_fields [simp]:
  "rg_handles (modify_entry h f rg) = bt_modify h f (rg_handles rg)"
  "rg_pending (modify_entry h f rg) = rg_pending rg"
  "rg_next (modify_entry h f rg) = rg_next rg"
  "rg_lifecycle (modify_entry h f rg) = rg_lifecycle rg"
  "rg_frozen (modify_entry h f rg) = rg_frozen rg"
  by (simp_all add: modify_entry_def)

lemma fst_bt_modify [simp]: "fst ` set (bt_modify h f m) = fst ` set m"
  by (metis bt_keys_modify list.set_map)

lemma modify_entry_inv:
  assumes inv: "system_inv core rg ex"
    and profile: "\<And>e. we_profile (f e) = we_profile e"
    and entry: "\<And>e. bt_get h (rg_handles rg) = Some e \<Longrightarrow> entry_inv ex h e \<Longrightarrow> entry_inv ex' h (f e)"
    and other: "\<And>k. k \<noteq> h \<Longrightarrow> k \<in> ex' \<longleftrightarrow> k \<in> ex"
    and here: "h \<in> ex' \<Longrightarrow> bt_get h (rg_handles rg) \<noteq> None"
  shows "system_inv core (modify_entry h f rg) ex'"
proof -
  have count: "profile_count (modify_entry h f rg) = profile_count rg"
    using profile
    by (auto simp: profile_count_def profile_handles_def profile_pending_def bt_count_modify fun_eq_iff)
  have "entry_inv ex' k e" if "bt_get k (bt_modify h f (rg_handles rg)) = Some e" for k e
  proof (cases "k = h")
    case True
    with that inv entry show ?thesis by (auto simp: system_inv_def)
  next
    case False
    with that inv have "entry_inv ex k e" by (simp add: system_inv_def)
    with False other show ?thesis by (simp add: entry_inv_def)
  qed
  moreover have "bt_get k (bt_modify h f (rg_handles rg)) \<noteq> None" if "k \<in> ex'" for k
    using that inv other here by (cases "k = h") (auto simp: system_inv_def)
  ultimately show ?thesis
    using inv unfolding system_inv_def count
    by (simp add: fresh_names_def bt_get_modify)
qed

lemma executing_subset: "system_inv core rg ex \<Longrightarrow> h \<in> ex \<Longrightarrow> \<exists>e. bt_get h (rg_handles rg) = Some e"
  by (auto simp: system_inv_def)

lemma publish_inv: "system_inv core rg ex \<Longrightarrow> system_inv core (publish h change rg) ex"
  by (cases change)
    (auto simp: update_observation_def update_schema_dirty_def publish_unknown_def publish_closed_def
      modify_published_def Let_def entry_inv_def executing_subset
      intro!: modify_entry_inv split: option.split)

lemma admit_inv:
  "system_inv core rg ex \<Longrightarrow> dispatch_admit h (OperationRequest x) rg = Some (r, rg') \<Longrightarrow>
     system_inv core rg' ex"
  by (auto simp: dispatch_admit_def Let_def entry_inv_def executing_subset
      intro!: modify_entry_inv split: if_splits option.splits)

lemma take_inv:
  assumes "system_inv core rg ex" and "h \<notin> ex" and "take_request h rg = Some (request, rg')"
  shows "system_inv core rg'
    (case request of OperationRequest x \<Rightarrow> insert h ex | ShutdownRequest b \<Rightarrow> ex)"
proof -
  from assms(3) obtain e rs where e: "bt_get h (rg_handles rg) = Some e" "we_queue e = request # rs"
    "rg' = modify_entry h (\<lambda>e. e\<lparr>we_queue := tl (we_queue e)\<rparr>) rg"
    by (auto simp: take_request_def split: option.splits list.splits)
  show ?thesis
    unfolding e(3) by (rule modify_entry_inv[OF assms(1)])
      (use e assms(2) in \<open>auto simp: entry_inv_def split: request.splits if_splits\<close>)
qed

lemma release_inv:
  "system_inv core rg ex \<Longrightarrow> h \<in> ex \<Longrightarrow> system_inv core (release_admission h rg) (ex - {h})"
  unfolding release_admission_def
  by (rule modify_entry_inv) (auto simp: entry_inv_def saturating_sub_def split: if_splits)

lemma send_inv:
  "system_inv core rg ex \<Longrightarrow> send_shutdown h reply rg = Some rg' \<Longrightarrow> system_inv core rg' ex"
  by (auto simp: send_shutdown_def Let_def entry_inv_def executing_subset
      intro!: modify_entry_inv split: if_splits option.splits)

lemma exit_inv:
  "system_inv core rg ex \<Longrightarrow> h \<notin> ex \<Longrightarrow> system_inv core (worker_exit h rg) ex"
  unfolding worker_exit_def by (rule modify_entry_inv) (auto simp: entry_inv_def)

lemma thread_inv: "system_inv core rg ex \<Longrightarrow> system_inv core (thread_finished h rg) ex"
  unfolding thread_finished_def
  by (rule modify_entry_inv) (auto simp: entry_inv_def executing_subset)

lemma join_inv: "system_inv core rg ex \<Longrightarrow> join_worker h rg = (b, rg') \<Longrightarrow> system_inv core rg' ex"
  by (auto simp: join_worker_def entry_inv_def executing_subset
      intro!: modify_entry_inv split: if_splits option.splits bool.splits)

text \<open>Sections that keep the handles and only cancel or drop reservations.\<close>

lemma pending_inv:
  assumes inv: "system_inv core rg ex"
    and same: "rg_handles rg' = rg_handles rg" "rg_next rg' = rg_next rg"
    and frozen: "rg_frozen rg' \<noteq> None \<Longrightarrow> rg_lifecycle rg' = Stopped"
    and ok: "bt_ok (rg_pending rg')"
    and keys: "fst ` set (rg_pending rg') \<subseteq> fst ` set (rg_pending rg)"
    and count: "\<And>profile. profile_pending rg' profile \<le> profile_pending rg profile"
  shows "system_inv core rg' ex"
proof -
  have handles: "profile_handles rg' = profile_handles rg"
    using same(1) by (simp add: profile_handles_def fun_eq_iff)
  have "profile_count rg' profile \<le> max_handles (effective_config core found)"
    if "profile_lookup core profile = Ok found" for profile found
  proof -
    have "profile_count rg' profile \<le> profile_count rg profile"
      using count[of profile] by (simp add: profile_count_def handles)
    also have "\<dots> \<le> max_handles (effective_config core found)"
      using inv that by (simp add: system_inv_def)
    finally show ?thesis .
  qed
  moreover have "fresh_names rg" using inv by (simp add: system_inv_def)
  then have "fresh_names rg'" using keys unfolding fresh_names_def same by (meson Un_subset_iff order_trans)
  moreover have "bt_get h (rg_handles rg) = None" if "bt_get h (rg_pending rg') \<noteq> None" for h
  proof -
    have "bt_ok (rg_pending rg)" using inv by (simp add: system_inv_def)
    with that keys have "bt_get h (rg_pending rg) \<noteq> None"
      using bt.mem_keys[OF ok, of h] bt.mem_keys[of "rg_pending rg" h] by blast
    with inv show ?thesis by (simp add: system_inv_def)
  qed
  ultimately show ?thesis
    using inv frozen ok unfolding system_inv_def same
    by simp
qed

lemma bt_ok_filter: "bt_ok m \<Longrightarrow> bt_ok (filter P m)"
  by (simp add: bt_ok_def sorted_wrt_map sorted_wrt_filter)

lemma length_filter_mono: "length (filter (\<lambda>x. Q x \<and> P x) xs) \<le> length (filter P xs)"
  by (induction xs) auto

lemma system_inv_ok: "system_inv core rg ex \<Longrightarrow> bt_ok (rg_handles rg) \<and> bt_ok (rg_pending rg)"
  by (simp add: system_inv_def)

lemma system_inv_frozen: "system_inv core rg ex \<Longrightarrow> rg_frozen rg \<noteq> None \<Longrightarrow> rg_lifecycle rg = Stopped"
  by (simp add: system_inv_def)

lemma finish_inv:
  assumes inv: "system_inv core rg ex"
  shows "system_inv core (finish_open h rg) ex"
proof (rule pending_inv[OF inv])
  show "profile_pending (finish_open h rg) profile \<le> profile_pending rg profile" for profile
    by (simp add: finish_open_def bt_remove_def profile_pending_def length_filter_mono)
qed (use system_inv_ok[OF inv] system_inv_frozen[OF inv] in
  \<open>auto simp: finish_open_def bt_remove_def bt_ok_filter\<close>)

lemma freeze_inv:
  assumes inv: "system_inv core rg ex" and step: "shutdown_freeze report rg = (r, rg')"
  shows "system_inv core rg' ex"
proof (rule pending_inv[OF inv])
  show "profile_pending rg' profile \<le> profile_pending rg profile" for profile
    using step by (auto simp: shutdown_freeze_def Let_def profile_pending_def split: option.splits)
qed (use system_inv_ok[OF inv] step in \<open>auto simp: shutdown_freeze_def Let_def split: option.splits\<close>)

lemma cancel_pending_keys [simp]: "map fst (cancel_pending m) = map fst m"
  by (simp add: cancel_pending_def)

lemma cancel_pending_ok [simp]: "bt_ok (cancel_pending m) = bt_ok m"
  by (simp add: bt_ok_def)

lemma cancel_pending_fst [simp]: "fst ` set (cancel_pending m) = fst ` set m"
  by (metis cancel_pending_keys list.set_map)

lemma cancel_pending_mem: "(h, p) \<in> set (cancel_pending m) \<Longrightarrow> h \<in> fst ` set m"
  by (metis cancel_pending_fst fst_conv image_eqI)

lemma cancel_pending_count [simp]:
  "length (filter (\<lambda>e. po_profile (snd e) = profile) (cancel_pending m)) =
   length (filter (\<lambda>e. po_profile (snd e) = profile) m)"
  by (induction m) (auto simp: cancel_pending_def)

lemma begin_inv:
  assumes inv: "system_inv core rg ex" and step: "shutdown_begin rg = (b, rg')"
  shows "system_inv core rg' ex"
proof (rule pending_inv[OF inv])
  show "profile_pending rg' profile \<le> profile_pending rg profile" for profile
    using step by (auto simp: shutdown_begin_def profile_pending_def split: option.splits if_splits)
qed (use system_inv_ok[OF inv] system_inv_frozen[OF inv] step in
  \<open>auto simp: shutdown_begin_def dest: cancel_pending_mem split: option.splits if_splits\<close>)

lemma handle_name_inj: "handle_name m = handle_name n \<Longrightarrow> m = n"
proof -
  assume "handle_name m = handle_name n"
  then have "unat m = unat n"
    using hex_digits_inj[of "unat m" 16 "unat n"] unsigned_less[of m] unsigned_less[of n]
    by (simp add: handle_name_def)
  then show "m = n" by (simp add: word_unat_eq_iff)
qed

lemma saturating_succ_less: "n \<noteq> - 1 \<Longrightarrow> n < saturating_succ n"
  using unatSuc[of n]
  by (auto simp: saturating_succ_def word_less_nat_alt add.commute eq_neg_iff_add_eq_0)

lemma reserve_open_Err: "reserve_open core profile rg = (Err e, rg') \<Longrightarrow> rg' = rg"
  by (cases "profile_lookup core profile")
    (auto simp: reserve_open_def allocate_handle_def Let_def split: if_splits)

lemma reserve_open_Ok:
  assumes "reserve_open core profile rg = (Ok x, rg')"
  shows "\<exists>found. profile_lookup core profile = Ok found \<and>
    saturating_add (profile_handles rg profile) (profile_pending rg profile)
      < max_handles (effective_config core found) \<and>
    rg' = rg\<lparr>rg_next := saturating_succ (rg_next rg), rg_pending := bt_insert (handle_name (rg_next rg))
      \<lparr>po_profile = profile, po_cancelled = False\<rparr> (rg_pending rg)\<rparr> \<and>
    rg_lifecycle rg = Running \<and> fst x = handle_name (rg_next rg)"
  using assms
  by (cases "profile_lookup core profile")
    (auto simp: reserve_open_def allocate_handle_def Let_def split: if_splits)

lemma reserve_inv:
  assumes inv: "system_inv core rg ex" and fits: "core_fits core" and room: "rg_next rg \<noteq> - 1"
    and step: "reserve_open core profile rg = (r, rg')"
  shows "system_inv core rg' ex"
proof (cases "is_ok r")
  case False
  with step inv show ?thesis by (auto simp: not_is_ok_iff dest: reserve_open_Err)
next
  case True
  define h where "h = handle_name (rg_next rg)"
  from True obtain x where "r = Ok x" by (auto simp: is_ok_iff)
  with reserve_open_Ok[of core profile rg x rg'] step
  obtain found where found: "profile_lookup core profile = Ok found"
    and few: "saturating_add (profile_handles rg profile) (profile_pending rg profile)
      < max_handles (effective_config core found)"
    and rg': "rg' = rg\<lparr>rg_next := saturating_succ (rg_next rg), rg_pending :=
      bt_insert h \<lparr>po_profile = profile, po_cancelled = False\<rparr> (rg_pending rg)\<rparr>"
    unfolding h_def by blast
  have ok: "bt_ok (rg_handles rg)" "bt_ok (rg_pending rg)" using system_inv_ok[OF inv] by auto
  have names: "fst ` set (rg_handles rg) \<union> fst ` set (rg_pending rg) \<subseteq> handle_name ` {..<rg_next rg}"
    using inv by (simp add: system_inv_def fresh_names_def)
  then have "h \<notin> fst ` set (rg_handles rg)" "h \<notin> fst ` set (rg_pending rg)"
    by (auto simp: h_def dest!: handle_name_inj)
  then have new: "bt_get h (rg_handles rg) = None" "bt_get h (rg_pending rg) = None"
    using bt.mem_keys ok by blast+
  have "profile_count rg profile < max_handles (effective_config core found)"
    using few fits[unfolded core_fits_def, rule_format, OF found]
    by (simp add: profile_count_def saturating_add_def min_less_iff_disj)
  then have "profile_count rg' p \<le> max_handles (effective_config core f)"
    if "profile_lookup core p = Ok f" for p f
    using inv that found bt.count_insert_fresh[OF ok(2) new(2)]
    by (cases "p = profile") (auto simp: system_inv_def profile_count_def profile_handles_def
      profile_pending_def rg')
  moreover have "fresh_names rg'"
  proof -
    have "{..<rg_next rg} \<subseteq> {..<saturating_succ (rg_next rg)}"
      using saturating_succ_less[OF room] by auto
    moreover have "h \<in> handle_name ` {..<saturating_succ (rg_next rg)}"
      using saturating_succ_less[OF room] by (auto simp: h_def)
    ultimately show ?thesis
      using names image_mono[of "{..<rg_next rg}" "{..<saturating_succ (rg_next rg)}" handle_name]
      by (simp add: fresh_names_def rg' bt_insert_keys) blast
  qed
  moreover have "bt_get k (rg_handles rg) = None" if "bt_get k (rg_pending rg') \<noteq> None" for k
    using that inv new ok by (auto simp: rg' bt.get_insert system_inv_def split: if_splits)
  ultimately show ?thesis
    using inv ok by (simp add: system_inv_def rg' bt.invar_insert)
qed

lemma publish_open_inv:
  assumes inv: "system_inv core rg ex" and p: "bt_get h (rg_pending rg) = Some p"
    and step: "publish_open h (po_profile p) c database obs rg = Some rg'"
  shows "system_inv core rg' ex"
proof -
  obtain e where e: "rg' = rg\<lparr>rg_pending := bt_remove h (rg_pending rg), rg_handles := bt_insert h e (rg_handles rg)\<rparr>"
    "ph_id (we_published e) = h" "we_profile e = po_profile p" "we_queue e = []" "we_receiving e" "we_admitted e = 0"
    using step by (auto simp: publish_open_def published_new_def split: if_splits)
  have ok: "bt_ok (rg_handles rg)" "bt_ok (rg_pending rg)" using system_inv_ok[OF inv] by auto
  have new: "bt_get h (rg_handles rg) = None" using inv p by (simp add: system_inv_def)
  have idle: "h \<notin> ex" using inv new by (auto simp: system_inv_def)
  have count: "profile_count rg' q = profile_count rg q" for q
    using bt.count_insert_fresh[OF ok(1) new, of "\<lambda>x. we_profile (snd x) = q" e]
      bt.count_remove[OF ok(2) p, of "\<lambda>x. po_profile (snd x) = q"]
    by (auto simp: profile_count_def profile_handles_def profile_pending_def e)
  have "fresh_names rg'"
  proof -
    have "h \<in> fst ` set (rg_pending rg)" using p bt.mem_keys[OF ok(2)] by blast
    moreover have "fresh_names rg" using inv by (simp add: system_inv_def)
    moreover have "fst ` set (rg_pending rg') \<subseteq> fst ` set (rg_pending rg)"
      by (auto simp: e(1) bt_remove_def)
    ultimately show ?thesis
      by (simp add: fresh_names_def e(1) bt_insert_keys subset_iff)
  qed
  moreover have "entry_inv ex k d" if "bt_get k (rg_handles rg') = Some d" for k d
  proof (cases "k = h")
    case True
    with that ok have "d = e" by (simp add: e(1) bt.get_insert)
    with True e(2,4-6) idle show ?thesis by (simp add: entry_inv_def)
  next
    case False
    with that ok inv show ?thesis by (simp add: e(1) bt.get_insert system_inv_def)
  qed
  moreover have "bt_get k (rg_handles rg') \<noteq> None" if "k \<in> ex" for k
    using that inv ok by (simp add: e(1) bt.get_insert system_inv_def)
  moreover have "bt_get k (rg_handles rg') = None" if "bt_get k (rg_pending rg') \<noteq> None" for k
    using that inv ok by (simp add: e(1) bt.get_insert bt.get_remove system_inv_def split: if_splits)
  ultimately show ?thesis
    using inv ok unfolding system_inv_def count by (simp add: e(1) bt.invar_insert bt.invar_remove)
qed

section \<open>Every interleaving\<close>

lemma system_start_inv: "registry_inv core system_start"
  by (simp add: registry_inv_def system_inv_def system_start_def registry_new_def bt_ok_def
      profile_count_def profile_handles_def profile_pending_def bt_get_def fresh_names_def)

lemma shutdown_begin_next: "shutdown_begin rg = (b, rg') \<Longrightarrow> rg_next rg' = rg_next rg"
  by (auto simp: shutdown_begin_def split: option.splits if_splits)

lemma reserve_open_next:
  "reserve_open core profile rg = (r, rg') \<Longrightarrow>
     rg_next rg' = rg_next rg \<or> rg_next rg' = saturating_succ (rg_next rg)"
  by (cases r) (auto dest: reserve_open_Err reserve_open_Ok)

lemma saturated: "saturating_succ (- 1) = - 1"
  by (simp add: saturating_succ_def)

lemma take_request_next: "take_request h rg = Some (x, rg') \<Longrightarrow> rg_next rg' = rg_next rg"
  by (auto simp: take_request_def split: option.splits list.splits)

lemma publish_next: "rg_next (publish h change rg) = rg_next rg"
  by (cases change) (simp_all add: update_observation_def update_schema_dirty_def
      publish_unknown_def publish_closed_def modify_published_def)

lemmas next_simps = shutdown_begin_next take_request_next publish_next finish_open_def
  publish_open_def dispatch_admit_def Let_def release_admission_def send_shutdown_def
  worker_exit_def thread_finished_def shutdown_freeze_def join_worker_def

lemma critical_section_next:
  assumes "critical_section core s l s'" and "rg_next (sy_registry s') \<noteq> - 1"
  shows "rg_next (sy_registry s) \<noteq> - 1"
  using assms
proof cases
  case (section_reserve profile rg r rg' ex)
  with assms(2) show ?thesis by (auto simp: saturated dest!: reserve_open_next)
qed (auto simp: next_simps split: if_splits option.splits bool.splits)

lemma critical_section_inv:
  assumes inv: "registry_inv core s" and step: "critical_section core s l s'"
  shows "registry_inv core s'"
  unfolding registry_inv_def
proof (intro impI)
  assume fits: "core_fits core" and "rg_next (sy_registry s') \<noteq> - 1"
  with critical_section_next[OF step] have room: "rg_next (sy_registry s) \<noteq> - 1" by blast
  with inv fits have "system_inv core (sy_registry s) (sy_executing s)" by (simp add: registry_inv_def)
  with step fits room show "system_inv core (sy_registry s') (sy_executing s')"
    by cases (auto intro: reserve_inv finish_inv publish_open_inv admit_inv take_inv publish_inv
        release_inv send_inv exit_inv thread_inv begin_inv freeze_inv join_inv)
qed

section \<open>What never goes back\<close>

text \<open>The order of \<open>RegistryLifecycle\<close>, by its byte.\<close>

fun lifecycle_byte :: "lifecycle \<Rightarrow> 8 word" where
  "lifecycle_byte Running = 0"
| "lifecycle_byte Stopping = 1"
| "lifecycle_byte Stopped = 2"

fun lifecycle_from_byte :: "8 word \<Rightarrow> lifecycle" where
  "lifecycle_from_byte b = (if b = 1 then Stopping else if b = 2 then Stopped else Running)"

lemma lifecycle_from_byte_byte [simp]: "lifecycle_from_byte (lifecycle_byte l) = l"
  by (cases l) simp_all

instantiation lifecycle :: linorder
begin

definition less_eq_lifecycle :: "lifecycle \<Rightarrow> lifecycle \<Rightarrow> bool" where
  "less_eq_lifecycle a b \<longleftrightarrow> lifecycle_byte a \<le> lifecycle_byte b"

definition less_lifecycle :: "lifecycle \<Rightarrow> lifecycle \<Rightarrow> bool" where
  "less_lifecycle a b \<longleftrightarrow> lifecycle_byte a < lifecycle_byte b"

instance
proof
  fix a b :: lifecycle
  assume "a \<le> b" and "b \<le> a"
  then have "lifecycle_byte a = lifecycle_byte b" by (simp add: less_eq_lifecycle_def)
  then show "a = b" by (metis lifecycle_from_byte_byte)
qed (auto simp: less_eq_lifecycle_def less_lifecycle_def)

end

lemma running_least [simp]: "Running \<le> l"
  by (simp add: less_eq_lifecycle_def)

lemma stopped_greatest [simp]: "l \<le> Stopped"
  by (cases l) (simp_all add: less_eq_lifecycle_def)

lemma past_running: "l \<noteq> Running \<Longrightarrow> l \<le> m \<Longrightarrow> m \<noteq> Running"
  by (cases l; cases m) (simp_all add: less_eq_lifecycle_def)

text \<open>
  An entry keeps its identity and configuration, stays closed once closed, and admits nothing
  more once it is closed or the server is stopping.
\<close>

definition entry_before :: "bool \<Rightarrow> 'o worker_entry \<Rightarrow> 'o worker_entry \<Rightarrow> bool" where
  "entry_before stopping e e' \<longleftrightarrow>
     ph_id (we_published e') = ph_id (we_published e) \<and>
     ph_database (we_published e') = ph_database (we_published e) \<and>
     we_profile e' = we_profile e \<and> we_config e' = we_config e \<and>
     (ph_closed (we_published e) \<longrightarrow> ph_closed (we_published e')) \<and>
     (\<not> we_receiving e \<longrightarrow> \<not> we_receiving e') \<and>
     (stopping \<or> ph_closed (we_published e) \<longrightarrow> we_admitted e' \<le> we_admitted e)"

definition handles_before ::
  "bool \<Rightarrow> (string, 'o worker_entry) btree \<Rightarrow> (string, 'o worker_entry) btree \<Rightarrow> bool" where
  "handles_before stopping m m' \<longleftrightarrow>
     (\<forall>h e. bt_get h m = Some e \<longrightarrow> (\<exists>e'. bt_get h m' = Some e' \<and> entry_before stopping e e')) \<and>
     (stopping \<longrightarrow> (\<forall>h. bt_get h m = None \<longrightarrow> bt_get h m' = None))"

definition registry_before :: "core \<Rightarrow> 'o system \<Rightarrow> 'o system \<Rightarrow> bool" where
  "registry_before core s t \<longleftrightarrow> (let a = sy_registry s; b = sy_registry t in
     rg_lifecycle a \<le> rg_lifecycle b \<and>
     (rg_frozen a \<noteq> None \<longrightarrow> rg_frozen b = rg_frozen a) \<and>
     (rg_next b \<noteq> - 1 \<longrightarrow> rg_next a \<noteq> - 1) \<and>
     (core_fits core \<longrightarrow> rg_next b \<noteq> - 1 \<longrightarrow>
        handles_before (rg_lifecycle a \<noteq> Running) (rg_handles a) (rg_handles b) \<and>
        (rg_lifecycle a \<noteq> Running \<longrightarrow>
           set (bt_keys (rg_pending b)) \<subseteq> set (bt_keys (rg_pending a)))))"

lemma entry_before_refl [simp]: "entry_before stopping e e"
  by (simp add: entry_before_def)

lemma handles_before_refl [simp]: "handles_before stopping m m"
  by (simp add: handles_before_def)

lemma entry_before_trans:
  "entry_before st e f \<Longrightarrow> entry_before st' f g \<Longrightarrow> (st \<Longrightarrow> st') \<Longrightarrow> entry_before st e g"
  by (auto simp: entry_before_def)

lemma handles_before_trans:
  assumes "handles_before st m n" and "handles_before st' n p" and "st \<Longrightarrow> st'"
  shows "handles_before st m p"
  unfolding handles_before_def
proof (intro conjI allI impI)
  fix h e
  assume "bt_get h m = Some e"
  with assms(1) obtain f where f: "bt_get h n = Some f" "entry_before st e f"
    unfolding handles_before_def by blast
  with assms(2) obtain g where "bt_get h p = Some g" "entry_before st' f g"
    unfolding handles_before_def by blast
  with f(2) assms(3) show "\<exists>g. bt_get h p = Some g \<and> entry_before st e g"
    by (blast intro: entry_before_trans)
next
  fix h
  assume "st" and "bt_get h m = None"
  with assms show "bt_get h p = None" unfolding handles_before_def by blast
qed

lemma registry_before_trans:
  assumes st: "registry_before core s t" and tu: "registry_before core t u"
  shows "registry_before core s u"
proof -
  have le: "rg_lifecycle (sy_registry s) \<le> rg_lifecycle (sy_registry t)"
    and past: "rg_lifecycle (sy_registry s) \<noteq> Running \<Longrightarrow> rg_lifecycle (sy_registry t) \<noteq> Running"
    using st by (auto simp: registry_before_def Let_def dest: past_running)
  show ?thesis
    using st tu order.trans[OF le]
    unfolding registry_before_def Let_def
    by (auto intro: handles_before_trans[OF _ _ past] dest: past)
qed

text \<open>Every critical section goes up.\<close>

lemma modify_entry_before:
  "(\<And>e. bt_get h m = Some e \<Longrightarrow> entry_before st e (f e)) \<Longrightarrow> handles_before st m (bt_modify h f m)"
  by (auto simp: handles_before_def bt_get_modify)

lemma publish_before:
  "handles_before st (rg_handles rg) (rg_handles (publish h change rg))"
  by (cases change)
    (auto simp: update_observation_def update_schema_dirty_def publish_unknown_def publish_closed_def
      modify_published_def Let_def entry_before_def intro!: modify_entry_before split: option.split)

lemma publish_fields [simp]:
  "rg_lifecycle (publish h change rg) = rg_lifecycle rg"
  "rg_frozen (publish h change rg) = rg_frozen rg"
  "rg_pending (publish h change rg) = rg_pending rg"
  by (cases change; simp add: update_observation_def update_schema_dirty_def publish_unknown_def
      publish_closed_def modify_published_def)+

lemma handles_before_insert:
  "bt_ok m \<Longrightarrow> bt_get h m = None \<Longrightarrow> handles_before False m (bt_insert h e m)"
  by (auto simp: handles_before_def bt.get_insert)

lemma finish_mem: "k \<in> set (bt_keys (bt_remove h m)) \<Longrightarrow> k \<in> set (bt_keys m)"
  by (auto simp: bt_keys_def bt_remove_def)

lemma finish_keys: "set (bt_keys (bt_remove h m)) \<subseteq> set (bt_keys m)"
  by (auto simp: bt_keys_def bt_remove_def)

lemma cancel_keys [simp]: "bt_keys (cancel_pending m) = bt_keys m"
  by (simp add: bt_keys_def)

lemmas section_defs = Let_def release_admission_def send_shutdown_def worker_exit_def
  thread_finished_def shutdown_freeze_def join_worker_def dispatch_admit_def take_request_def
  finish_open_def shutdown_begin_def publish_open_def

lemma critical_section_before:
  assumes inv: "registry_inv core s" and step: "critical_section core s l s'"
  shows "registry_before core s s'"
proof -
  have next_mono: "rg_next (sy_registry s') \<noteq> - 1 \<Longrightarrow> rg_next (sy_registry s) \<noteq> - 1"
    using critical_section_next[OF step] .
  from step show ?thesis
  proof cases
    case (section_reserve profile rg r rg' ex)
    then show ?thesis
      using next_mono
      by (cases r) (auto simp: registry_before_def Let_def dest: reserve_open_Err reserve_open_Ok)
  next
    case (section_publish_open h rg p found database obs rg' ex)
    then show ?thesis
      using next_mono inv finish_keys[of h "rg_pending rg"]
      by (auto simp: registry_before_def Let_def publish_open_def registry_inv_def system_inv_def
          split: if_splits intro!: handles_before_insert)
  next
    case (section_publish rg ex h change)
    then show ?thesis by (simp add: registry_before_def publish_next publish_before)
  qed (auto dest: finish_mem simp: registry_before_def section_defs entry_before_def
      saturating_sub_def intro!: modify_entry_before
      split: if_splits option.splits list.splits bool.splits)
qed

interpretation threads: monotone_system "\<lambda>s. s = system_start" "critical_section core"
    "registry_inv core" "registry_before core" for core
proof unfold_locales
  fix s t u :: "'a system" and l
  show "s = system_start \<Longrightarrow> registry_inv core s" by (simp add: system_start_inv)
  show "registry_inv core s \<Longrightarrow> critical_section core s l t \<Longrightarrow> registry_inv core t"
    by (rule critical_section_inv)
  show "registry_before core s s" by (simp add: registry_before_def)
  show "registry_before core s t \<Longrightarrow> registry_before core t u \<Longrightarrow> registry_before core s u"
    by (rule registry_before_trans)
  show "registry_inv core s \<Longrightarrow> critical_section core s l t \<Longrightarrow> registry_before core s t"
    by (rule critical_section_before)
qed

section \<open>Closed handles\<close>

lemma published_state_closed:
  "ph_closed p \<Longrightarrow> ph_observation p = gone \<Longrightarrow> published_state p = handle_state_closed (ph_id p) (ph_database p)"
  by (simp add: published_state_def handle_state_new_def handle_state_closed_def gone_def)

lemma published_state_open_ok: "\<not> ph_closed p \<Longrightarrow> state_ok (published_state p)"
  by (cases "bo_connection (ph_observation p)") (simp_all add: published_state_def)

text \<open>A closed handle shows nothing of its connection.\<close>

definition closed_gone :: "'o worker_entry \<Rightarrow> bool" where
  "closed_gone e \<longleftrightarrow> (ph_closed (we_published e) \<longrightarrow> ph_observation (we_published e) = gone)"

definition handles_gone :: "(string, 'o worker_entry) btree \<Rightarrow> bool" where
  "handles_gone m \<longleftrightarrow> bt_ok m \<and> (\<forall>h e. bt_get h m = Some e \<longrightarrow> closed_gone e)"

definition closed_inv :: "'o system \<Rightarrow> bool" where
  "closed_inv s \<longleftrightarrow> handles_gone (rg_handles (sy_registry s))"

lemma handles_gone_modify:
  "handles_gone m \<Longrightarrow> (\<And>e. bt_get h m = Some e \<Longrightarrow> closed_gone e \<Longrightarrow> closed_gone (f e)) \<Longrightarrow>
     handles_gone (bt_modify h f m)"
  by (auto simp: handles_gone_def bt_get_modify split: if_splits)

lemma handles_gone_insert: "handles_gone m \<Longrightarrow> closed_gone e \<Longrightarrow> handles_gone (bt_insert h e m)"
  by (auto simp: handles_gone_def bt_insert_ok bt.get_insert)

lemma publish_gone:
  "handles_gone (rg_handles rg) \<Longrightarrow> may_publish h change rg \<Longrightarrow>
     handles_gone (rg_handles (publish h change rg))"
  by (cases change)
    (auto simp: update_observation_def update_schema_dirty_def publish_unknown_def publish_closed_def
      modify_published_def closed_gone_def may_publish_def closed_handle_def Let_def
      intro!: handles_gone_modify split: option.split)

text \<open>So the state of every handle validates.\<close>

lemma closed_gone_state: "closed_gone e \<Longrightarrow> state_ok (published_state (we_published e))"
  by (cases "ph_closed (we_published e)")
    (simp_all add: closed_gone_def published_state_closed published_state_open_ok)

lemma closed_gone_published: "we_published e' = we_published e \<Longrightarrow> closed_gone e \<Longrightarrow> closed_gone e'"
  by (simp add: closed_gone_def)

lemma critical_section_gone:
  assumes "closed_inv s" and "critical_section core s l s'"
  shows "closed_inv s'"
  using assms(2,1) unfolding closed_inv_def
proof cases
  case (section_reserve profile rg r rg' ex)
  with assms(1) show "handles_gone (rg_handles (sy_registry s'))"
    by (cases r) (auto simp: closed_inv_def dest: reserve_open_Err reserve_open_Ok)
next
  case (section_publish h change rg ex)
  with assms(1) show "handles_gone (rg_handles (sy_registry s'))"
    by (simp add: closed_inv_def publish_gone)
qed (auto simp: section_defs closed_gone_def published_new_def
    intro!: handles_gone_modify handles_gone_insert split: if_splits option.splits list.splits bool.splits)

interpretation closing: invariant_system "\<lambda>s. s = system_start" "critical_section core" closed_inv for core
proof unfold_locales
  fix s t :: "'a system" and l
  show "s = system_start \<Longrightarrow> closed_inv s"
    by (simp add: closed_inv_def handles_gone_def system_start_def registry_new_def bt_ok_def bt_get_def)
  show "closed_inv s \<Longrightarrow> critical_section core s l t \<Longrightarrow> closed_inv t"
    by (rule critical_section_gone)
qed

text \<open>The states the server can reach, from its start.\<close>

definition server_reachable :: "core \<Rightarrow> 'o system \<Rightarrow> bool" where
  "server_reachable core = reachable (\<lambda>s. s = system_start) (critical_section core)"

lemma server_step:
  "server_reachable core s \<Longrightarrow> critical_section core s l s' \<Longrightarrow> server_reachable core s'"
  unfolding server_reachable_def by (rule reachable_step)

lemma server_inv:
  "server_reachable core s \<Longrightarrow> core_fits core \<Longrightarrow> rg_next (sy_registry s) \<noteq> - 1 \<Longrightarrow>
     system_inv core (sy_registry s) (sy_executing s)"
  using threads.reachable_inv[of core s] by (simp add: server_reachable_def registry_inv_def)

lemma server_closed_gone:
  "server_reachable core s \<Longrightarrow> bt_get h (rg_handles (sy_registry s)) = Some e \<Longrightarrow> closed_gone e"
  using closing.reachable_inv[of core s] by (simp add: server_reachable_def closed_inv_def handles_gone_def)

lemma server_bt_ok: "server_reachable core s \<Longrightarrow> bt_ok (rg_handles (sy_registry s))"
  using closing.reachable_inv[of core s] by (simp add: server_reachable_def closed_inv_def handles_gone_def)

lemma server_path: "server_reachable core s \<Longrightarrow> path (critical_section core) s ls t \<Longrightarrow> server_reachable core t"
  unfolding server_reachable_def by (rule reachable_path)

lemma server_before:
  "server_reachable core s \<Longrightarrow> path (critical_section core) s ls t \<Longrightarrow> registry_before core s t"
  unfolding server_reachable_def by (blast intro: threads.path_before threads.reachable_inv)

section \<open>A run\<close>

text \<open>A core without profiles opens one handle, then a request is admitted to it.\<close>

definition sample_core :: core where
  "sample_core = \<lparr>core_config = config_default, core_profiles = None, core_dsn = ''dbname=app''\<rparr>"

definition sample_entry :: "'o worker_entry" where
  "sample_entry = \<lparr>we_published = published_new (handle_name 1) ''app''
       \<lparr>bo_connection = BcOk, bo_transaction = TsIdle, bo_busy = False\<rparr>,
     we_profile = ''main'', we_config = config_default, we_queue = [], we_receiving = True,
     we_join = Some False, we_admitted = 0\<rparr>"

definition sample_registry :: "'o worker_entry \<Rightarrow> 'o registry" where
  "sample_registry e = \<lparr>rg_lifecycle = Running, rg_handles = [(handle_name 1, e)], rg_pending = [],
     rg_next = 2, rg_frozen = None\<rparr>"

definition sample_admitted :: "unit worker_entry" where
  "sample_admitted = sample_entry\<lparr>we_admitted := 1, we_queue := [OperationRequest ()]\<rparr>"

definition sample_closed :: "unit worker_entry" where
  "sample_closed = sample_entry\<lparr>we_published := (we_published (sample_entry :: unit worker_entry))
     \<lparr>ph_closed := True, ph_observation := gone\<rparr>\<rparr>"

lemma sample_lookup: "profile_lookup sample_core p = Ok None" "effective_config sample_core None = config_default"
  by (simp_all add: profile_lookup_def effective_config_def sample_core_def)

lemma sample_limits: "max_handles config_default = 16" "outstanding_requests config_default = 32"
  by (simp_all add: config_default_eq default_unchecked_def config_constants)

lemma sample_fits: "core_fits sample_core"
  by (simp add: core_fits_def sample_lookup sample_limits usize_max_def)

lemma sample_opened:
  "server_reachable sample_core \<lparr>sy_registry = sample_registry (sample_entry :: 'a worker_entry), sy_executing = {}\<rparr>"
proof -
  define rg :: "'a registry" where "rg = registry_new\<lparr>rg_next := 2,
    rg_pending := [(handle_name 1, \<lparr>po_profile = ''main'', po_cancelled = False\<rparr>)]\<rparr>"
  have "reserve_open sample_core ''main'' registry_new =
      (Ok (handle_name 1, connection_timeout config_default, cancel_drain_grace config_default), rg)"
    by (simp add: reserve_open_def registry_new_def sample_lookup sample_limits allocate_handle_def
        saturating_succ_def profile_handles_def profile_pending_def saturating_add_def rg_def)
  from section_reserve[OF this] have "critical_section sample_core system_start (Reserve ''main'')
      \<lparr>sy_registry = rg, sy_executing = {}\<rparr>" by (simp add: system_start_def)
  then have rg: "server_reachable sample_core \<lparr>sy_registry = rg, sy_executing = {}\<rparr>"
    unfolding server_reachable_def by (blast intro: reachable.intros)
  have "publish_open (handle_name 1) ''main'' (effective_config sample_core None) ''app''
      \<lparr>bo_connection = BcOk, bo_transaction = TsIdle, bo_busy = False\<rparr> rg = Some (sample_registry sample_entry)"
    by (simp add: publish_open_def rg_def registry_new_def sample_registry_def sample_entry_def
        sample_lookup bt_remove_def)
  then have "critical_section sample_core \<lparr>sy_registry = rg, sy_executing = {}\<rparr> (PublishOpen (handle_name 1))
      \<lparr>sy_registry = sample_registry sample_entry, sy_executing = {}\<rparr>"
    by (intro section_publish_open[where found = None and p = "\<lparr>po_profile = ''main'', po_cancelled = False\<rparr>"])
      (simp_all add: rg_def bt_get_def sample_lookup)
  from server_step[OF rg this] show ?thesis .
qed

lemma sample_admit:
  "server_reachable sample_core \<lparr>sy_registry = sample_registry sample_admitted, sy_executing = {}\<rparr>"
proof (rule server_step[OF sample_opened section_admit])
  show "dispatch_admit (handle_name 1) (OperationRequest ()) (sample_registry sample_entry) =
      Some (Ok (), sample_registry sample_admitted)"
    by (simp add: dispatch_admit_def sample_registry_def sample_entry_def sample_admitted_def
        bt_get_def published_new_def sample_limits channel_capacity_def modify_entry_def bt_modify_def)
qed

lemma sample_close:
  "server_reachable sample_core \<lparr>sy_registry = sample_registry sample_closed, sy_executing = {}\<rparr>"
proof -
  have "may_publish (handle_name 1) Disposed (sample_registry (sample_entry :: unit worker_entry))"
    by (simp add: may_publish_def)
  moreover have "sample_registry sample_closed =
      publish (handle_name 1) Disposed (sample_registry sample_entry)"
    by (simp add: sample_registry_def sample_closed_def sample_entry_def Let_def publish_closed_def
        modify_published_def modify_entry_def bt_modify_def published_new_def gone_def)
  ultimately show ?thesis using server_step[OF sample_opened section_publish] by metis
qed

text \<open>The shutdown owner's first section.\<close>

lemma sample_begin:
  "critical_section sample_core \<lparr>sy_registry = sample_registry e, sy_executing = {}\<rparr> BeginShutdown
     \<lparr>sy_registry = (sample_registry e)\<lparr>rg_lifecycle := Stopping\<rparr>, sy_executing = {}\<rparr>"
  by (rule section_begin) (simp add: shutdown_begin_def sample_registry_def cancel_pending_def)

section \<open>Properties\<close>

text \<open>
  C2. The limits hold in every interleaving of callers, openers, workers and the shutdown owner:
  a profile never has more handles and reservations than its \<open>max_handles\<close>; a handle never has
  more admitted requests than \<open>outstanding_requests\<close>, its queue never exceeds its channel, and
  while its worker receives, the admissions are exactly the operations queued or executing, so
  no slot is lost. (Until the 64-bit counter of handle names is exhausted.)
\<close>

theorem limits_hold:
  assumes "server_reachable core s" and "core_fits core" and "rg_next (sy_registry s) \<noteq> - 1"
  shows "(\<forall>profile found. profile_lookup core profile = Ok found \<longrightarrow>
      profile_count (sy_registry s) profile \<le> max_handles (effective_config core found)) \<and>
    (\<forall>h e. bt_get h (rg_handles (sy_registry s)) = Some e \<longrightarrow>
      we_admitted e \<le> outstanding_requests (we_config e) \<and>
      length (we_queue e) \<le> channel_capacity (we_config e) \<and>
      (we_receiving e \<longrightarrow> we_admitted e =
         length (filter is_operation (we_queue e)) + (if h \<in> sy_executing s then 1 else 0)))"
proof (intro conjI allI impI)
  note inv = server_inv[OF assms]
  show "profile_count (sy_registry s) profile \<le> max_handles (effective_config core found)"
    if "profile_lookup core profile = Ok found" for profile found
    using inv that by (simp add: system_inv_def)
  fix h e
  assume "bt_get h (rg_handles (sy_registry s)) = Some e"
  with inv have e: "entry_inv (sy_executing s) h e" by (simp add: system_inv_def)
  then show "we_admitted e \<le> outstanding_requests (we_config e)"
    and "length (we_queue e) \<le> channel_capacity (we_config e)" by (simp_all add: entry_inv_def)
  show "we_admitted e = length (filter is_operation (we_queue e)) + (if h \<in> sy_executing s then 1 else 0)"
    if "we_receiving e" using e that by (simp add: entry_inv_def)
qed

theorem limits_hold_witness:
  "profile_count (sample_registry sample_admitted) ''main'' \<le> 16 \<and>
   we_admitted sample_admitted = length (filter is_operation (we_queue sample_admitted))"
  using limits_hold[OF sample_admit sample_fits]
  by (simp add: sample_registry_def sample_lookup sample_limits bt_get_def)
    (simp add: sample_admitted_def sample_entry_def)

text \<open>
  C23. A handle is forever: once published it is listed in every later state with the same id,
  database, profile and configuration; a closed handle stays closed, admits nothing more and is
  listed as closed, its connection gone.
  (A closed handle therefore counts toward \<open>max_handles\<close> of its profile until the server ends.)
\<close>

theorem handles_are_permanent:
  assumes "server_reachable core s" and "path (critical_section core) s ls t"
    and "core_fits core" and "rg_next (sy_registry t) \<noteq> - 1"
    and "bt_get h (rg_handles (sy_registry s)) = Some e"
  shows "\<exists>e'. bt_get h (rg_handles (sy_registry t)) = Some e' \<and>
    ph_id (we_published e') = h \<and> ph_database (we_published e') = ph_database (we_published e) \<and>
    we_profile e' = we_profile e \<and> we_config e' = we_config e \<and>
    (ph_closed (we_published e) \<longrightarrow> ph_closed (we_published e') \<and> we_admitted e' \<le> we_admitted e \<and>
       published_state (we_published e') = handle_state_closed h (ph_database (we_published e)))"
proof -
  have closed: "ph_closed (we_published e') \<Longrightarrow> published_state (we_published e') =
      handle_state_closed (ph_id (we_published e')) (ph_database (we_published e'))"
    if "bt_get h (rg_handles (sy_registry t)) = Some e'" for e'
    using server_closed_gone[OF server_path[OF assms(1,2)] that]
    by (simp add: closed_gone_def published_state_closed)
  have b: "registry_before core s t" using assms(1,2) by (rule server_before)
  then have "rg_next (sy_registry s) \<noteq> - 1" using assms(4) by (simp add: registry_before_def Let_def)
  from server_inv[OF assms(1,3) this] assms(5) have "ph_id (we_published e) = h"
    by (simp add: system_inv_def entry_inv_def)
  moreover have "handles_before (rg_lifecycle (sy_registry s) \<noteq> Running) (rg_handles (sy_registry s))
      (rg_handles (sy_registry t))"
    using b assms(3,4) by (simp add: registry_before_def Let_def)
  then obtain e' where "bt_get h (rg_handles (sy_registry t)) = Some e'"
      "entry_before (rg_lifecycle (sy_registry s) \<noteq> Running) e e'"
    using assms(5) unfolding handles_before_def by blast
  ultimately show ?thesis using closed by (auto simp: entry_before_def)
qed

theorem handles_are_permanent_witness:
  "\<exists>e'. bt_get (handle_name 1) (rg_handles ((sample_registry sample_closed)\<lparr>rg_lifecycle := Stopping\<rparr>)) = Some e' \<and>
     ph_id (we_published e') = handle_name 1 \<and> ph_closed (we_published e') \<and>
     hs_connection (published_state (we_published e')) = CsClosed"
  using handles_are_permanent[OF sample_close path_single[where step = "critical_section sample_core", OF sample_begin] sample_fits,
      of "handle_name 1" sample_closed]
  by (auto simp: sample_registry_def bt_get_def sample_closed_def handle_state_closed_def)

text \<open>
  C22. Stopping closes admission for good: from any state that is no longer running, no later
  state runs again, has a new handle or reservation, or has admitted another request; a frozen
  report never changes; and no later caller of \<open>shutdown\<close> becomes its owner.
\<close>

theorem stopping_is_final:
  assumes "server_reachable core s" and "path (critical_section core) s ls t"
    and "core_fits core" and "rg_next (sy_registry t) \<noteq> - 1"
    and "rg_lifecycle (sy_registry s) \<noteq> Running"
  shows "rg_lifecycle (sy_registry t) \<noteq> Running \<and>
    (bt_get h (rg_handles (sy_registry s)) = None \<longrightarrow> bt_get h (rg_handles (sy_registry t)) = None) \<and>
    set (bt_keys (rg_pending (sy_registry t))) \<subseteq> set (bt_keys (rg_pending (sy_registry s))) \<and>
    (bt_get h (rg_handles (sy_registry s)) = Some e \<longrightarrow>
      (\<exists>e'. bt_get h (rg_handles (sy_registry t)) = Some e' \<and> we_admitted e' \<le> we_admitted e)) \<and>
    (rg_frozen (sy_registry s) = Some report \<longrightarrow> rg_frozen (sy_registry t) = Some report) \<and>
    fst (shutdown_begin (sy_registry t)) \<noteq> Owner hs ps"
proof -
  have b: "registry_before core s t" using assms(1,2) by (rule server_before)
  then have past: "rg_lifecycle (sy_registry t) \<noteq> Running"
    using assms(5) by (auto simp: registry_before_def Let_def dest: past_running)
  then have "fst (shutdown_begin (sy_registry t)) \<noteq> Owner hs ps"
    by (simp add: shutdown_begin_def split: option.split)
  with past b assms(3-5) show ?thesis
    by (fastforce simp: registry_before_def Let_def handles_before_def entry_before_def)
qed

theorem stopping_is_final_witness:
  "rg_frozen ((sample_registry sample_closed)\<lparr>rg_lifecycle := Stopped, rg_frozen := Some []\<rparr>) = Some [] \<and>
   fst (shutdown_begin ((sample_registry sample_closed)\<lparr>rg_lifecycle := Stopped, rg_frozen := Some []\<rparr>))
     \<noteq> Owner [] []"
proof -
  let ?s = "\<lparr>sy_registry = (sample_registry sample_closed)\<lparr>rg_lifecycle := Stopping\<rparr>, sy_executing = {}\<rparr>"
  let ?t = "\<lparr>sy_registry = (sample_registry sample_closed)\<lparr>rg_lifecycle := Stopped, rg_frozen := Some []\<rparr>,
    sy_executing = {}\<rparr>"
  have "critical_section sample_core ?s Freeze ?t"
    by (rule section_freeze[where report = "[]" and r = "[]"])
      (simp_all add: shutdown_freeze_def sample_registry_def)
  then have "path (critical_section sample_core) ?s [Freeze] ?t" by (rule path_single)
  from stopping_is_final[OF server_step[OF sample_close sample_begin] this sample_fits,
      of "handle_name 1" sample_closed "[]" "[]" "[]"]
  show ?thesis by (simp add: sample_registry_def)
qed


end
