(* ===== verification/Worker.thy ===== *)
theory Worker
  imports Concurrency
begin

text \<open>
  The worker of \<open>worker.rs\<close>: \<open>operation_precondition\<close>, \<open>execute_operation\<close>, one round of
  \<open>worker_loop\<close> and the loop over the requests it receives. The state is the registry and the
  backend with the world; each section under the registry's mutex is a function of the registry
  (see \<open>Concurrency\<close>), which other threads may interleave with sections of their own that leave
  this worker's published handle alone. The backend is any record of operations; the lemmas are
  proved from its contract (\<open>backend_contract\<close>) and hold of \<open>LibpqBackend\<close> by interpretation.
\<close>

section \<open>Operations\<close>

datatype operation =
    OpGetSchema | OpOpenRead | OpOpenWrite | OpQuery query_request | OpCommit | OpRollback | OpClose

text \<open>The precondition of an operation on the published handle it finds.\<close>

definition open_precondition :: "published_handle \<Rightarrow> core_error option" where
  "open_precondition p =
     (if \<not> ph_schema_observed p then Some (core_error SchemaRequired)
      else if bo_transaction (ph_observation p) \<noteq> TsIdle then
        Some (if bo_transaction (ph_observation p) = TsInError
              then core_error TxFailed else core_error TxAlreadyOpen)
      else None)"

fun published_precondition :: "operation \<Rightarrow> published_handle \<Rightarrow> core_error option" where
  "published_precondition OpGetSchema p =
     (if bo_transaction (ph_observation p) \<noteq> TsIdle then Some (core_error TxAlreadyOpen) else None)"
| "published_precondition OpOpenRead p = open_precondition p"
| "published_precondition OpOpenWrite p = open_precondition p"
| "published_precondition (OpQuery request) p =
     (if \<not> ph_schema_observed p then Some (core_error SchemaRequired)
      else case bo_transaction (ph_observation p) of
          TsInTransaction \<Rightarrow> None
        | TsInError \<Rightarrow> Some (core_error TxFailed)
        | TsActive \<Rightarrow> Some (core_error QueueFull)
        | TsIdle \<Rightarrow> Some (core_error NoTxOpen)
        | TsUnknown \<Rightarrow> Some (core_error ConnectionLost))"
| "published_precondition OpCommit p =
     (case bo_transaction (ph_observation p) of
        TsInTransaction \<Rightarrow> None
      | TsInError \<Rightarrow> Some (core_error TxFailed)
      | _ \<Rightarrow> Some (core_error NoTxOpen))"
| "published_precondition OpRollback p =
     (if bo_transaction (ph_observation p) = TsActive \<or> bo_transaction (ph_observation p) = TsUnknown
      then Some (core_error ConnectionLost) else None)"
| "published_precondition OpClose p =
     (if bo_transaction (ph_observation p) = TsInTransaction \<or> bo_transaction (ph_observation p) = TsInError
      then Some (core_error ActiveTransaction) else None)"

definition operation_precondition :: "string \<Rightarrow> operation \<Rightarrow> 'o registry \<Rightarrow> core_error option" where
  "operation_precondition h op rg =
     (case bt_get h (rg_handles rg) of
        None \<Rightarrow> None
      | Some e \<Rightarrow>
          if ph_closed (we_published e) then Some (core_error HandleUnknown)
          else published_precondition op (we_published e))"

fun error_code_for_validation :: "validation_error \<Rightarrow> error_code" where
  "error_code_for_validation VeParameterCountLimit = InvalidInput"
| "error_code_for_validation VeParameterByteLimit = InvalidInput"
| "error_code_for_validation VeEmbeddedNul = InvalidInput"
| "error_code_for_validation VeInvalidQuery = InvalidInput"
| "error_code_for_validation VeSchemaLimit = SchemaLimit"
| "error_code_for_validation _ = ResultLimit"

section \<open>The worker's state\<close>

type_synonym ('o, 'b, 'w, 'a) worker_op =
  "('o registry \<times> ('b \<times> 'w), core_failure, 'a) eff"

definition on_backend :: "('s, 'e, 'a) eff \<Rightarrow> ('r \<times> 's, 'e, 'a) eff" where
  "on_backend m s = (case m (snd s) of
     None \<Rightarrow> None | Some (r, s') \<Rightarrow> Some (r, (fst s, s')))"

definition on_registry :: "('r \<Rightarrow> 'r) \<Rightarrow> ('r \<times> 's, 'e, unit) eff" where
  "on_registry f = modify (\<lambda>s. (f (fst s), snd s))"

definition get_registry :: "('r \<times> 's, 'e, 'r) eff" where
  "get_registry = bind get_state (\<lambda>s. ret (fst s))"

definition read_world :: "('a, 'w) reader \<Rightarrow> ('r \<times> ('b \<times> 'w), 'e, 'a) eff" where
  "read_world f = on_backend (rd f)"

type_synonym reply = "json envelope"

text \<open>\<open>success_envelope\<close> with the handle's current state.\<close>

definition success :: "string \<Rightarrow> json \<Rightarrow> ('o, 'b, 'w, reply) worker_op" where
  "success h r = bind get_registry (\<lambda>rg. ret (handle_state_envelope (current_state h rg) r))"

definition error_envelope_for :: "string \<Rightarrow> core_error \<Rightarrow> ('o, 'b, 'w, reply) worker_op" where
  "error_envelope_for h e = bind get_registry (\<lambda>rg.
     ret (error_envelope (current_state h rg) e (ce_outcome_unknown e)))"

definition fail_for_handle :: "string \<Rightarrow> core_error \<Rightarrow> ('o, 'b, 'w, 'a) worker_op" where
  "fail_for_handle h e = bind get_registry (\<lambda>rg. throw (failure_for_handle h e rg))"

text \<open>A request stopped before dispatch; only for a query is the outcome called unknown.\<close>

definition stopped_error :: "operation \<Rightarrow> error_code \<Rightarrow> core_error" where
  "stopped_error op c = (case op of OpQuery _ \<Rightarrow> core_error_unknown c | _ \<Rightarrow> core_error c)"

section \<open>Execution\<close>

text \<open>\<open>serde_json::to_value\<close>: an object's members in the order of its keys.\<close>

definition to_value :: "json \<Rightarrow> json" where
  "to_value v = canonicalize v"

text \<open>The result of the backend, published and wrapped.\<close>

fun publish_result ::
  "renderer \<Rightarrow> string \<Rightarrow> config \<Rightarrow> backend_failure + backend_result \<Rightarrow> ('o, 'b, 'w, reply) worker_op"
where
  "publish_result render h c (Inr (Opened mode obs)) =
     bind (on_registry (update_observation h obs None)) (\<lambda>_.
     success h (JObject [(''opened'', JString mode)]))"
| "publish_result render h c (Inr (SchemaRead schema obs)) =
     (if \<not> is_ok (schema_result_validate render c schema)
      then fail_for_handle h (core_error SchemaLimit)
      else
        bind (on_registry (update_observation h obs (Some True))) (\<lambda>_.
        bind (on_registry (update_schema_dirty h False)) (\<lambda>_.
        success h (to_value (en_schema_result schema)))))"
| "publish_result render h c (Inr (Queried query obs direct_ddl)) =
     (if \<not> is_ok (query_result_validate render c query)
      then fail_for_handle h (core_error ResultLimit)
      else
        bind (if direct_ddl then on_registry (update_schema_dirty h True) else ret ()) (\<lambda>_.
        bind (on_registry (update_observation h obs None)) (\<lambda>_.
        success h (to_value (en_query_result query)))))"
| "publish_result render h c (Inr (Committed obs)) =
     bind get_registry (\<lambda>rg.
     bind (on_registry (update_observation h obs
       (if current_schema_dirty h rg then Some False else None))) (\<lambda>_.
     bind (on_registry (update_schema_dirty h False)) (\<lambda>_.
     success h (JObject [(''committed'', JBool True)]))))"
| "publish_result render h c (Inr (RolledBack changed obs)) =
     bind (on_registry (update_observation h obs None)) (\<lambda>_.
     bind (on_registry (update_schema_dirty h False)) (\<lambda>_.
     success h (JObject [(''rolled_back'', JBool changed)])))"
| "publish_result render h c (Inr (Closed obs cleanup_verified)) =
     bind (on_registry (update_observation h obs (Some False))) (\<lambda>_.
     if cleanup_verified then
       bind (on_registry (publish_closed h)) (\<lambda>_.
       bind get_registry (\<lambda>rg.
       ret (handle_state_envelope (Some (handle_state_closed h (current_database h rg)))
         (JObject [(''cleanup_verified'', JBool True), (''disposed'', JBool True),
                   (''transaction_outcome'', JNull)]))))
     else fail_for_handle h (core_error_unknown CleanupUncertain))"
| "publish_result render h c (Inl f) =
     bind (on_registry (update_observation h (bf_observation f) None)) (\<lambda>_.
     bind get_registry (\<lambda>rg.
     ret (error_envelope_with_sqlstate (current_state h rg) (bf_error f)
       (bf_outcome_unknown f) (bf_sqlstate f))))"

fun backend_call ::
  "('b, 'w) backend_ops \<Rightarrow> config \<Rightarrow> 'w request_context \<Rightarrow> operation \<Rightarrow>
     ('b \<times> 'w, backend_failure, backend_result) eff" where
  "backend_call ops c ctx OpGetSchema = op_get_schema ops c ctx"
| "backend_call ops c ctx OpOpenRead = op_open_read ops ctx"
| "backend_call ops c ctx OpOpenWrite = op_open_write ops ctx"
| "backend_call ops c ctx (OpQuery request) = op_query ops request c ctx"
| "backend_call ops c ctx OpCommit = op_commit ops ctx"
| "backend_call ops c ctx OpRollback = op_rollback ops ctx"
| "backend_call ops c ctx OpClose = op_close ops ctx"

text \<open>A query is validated before it is dispatched.\<close>

definition request_error :: "config \<Rightarrow> operation \<Rightarrow> core_error option" where
  "request_error c op = (case op of
     OpQuery request \<Rightarrow> (case query_request_validate c request of
       Inl e \<Rightarrow> Some (core_error (error_code_for_validation e)) | Inr _ \<Rightarrow> None)
   | _ \<Rightarrow> None)"

text \<open>The backend's operation, then the publication of its result.\<close>

definition dispatch_operation ::
  "('b, 'w) backend_ops \<Rightarrow> renderer \<Rightarrow> string \<Rightarrow> config \<Rightarrow> operation \<Rightarrow> 'w request_context \<Rightarrow>
     ('o, 'b, 'w, reply) worker_op" where
  "dispatch_operation ops render h c op ctx =
     bind (on_backend (attempt (backend_call ops c ctx op))) (publish_result render h c)"

definition execute_operation ::
  "('b, 'w) backend_ops \<Rightarrow> renderer \<Rightarrow> string \<Rightarrow> config \<Rightarrow> operation \<Rightarrow> 'w request_context \<Rightarrow>
     ('o, 'b, 'w, reply) worker_op" where
  "execute_operation ops render h c op ctx =
     bind get_registry (\<lambda>rg.
     case operation_precondition h op rg of
       Some e \<Rightarrow> error_envelope_for h e
     | None \<Rightarrow>
         bind (read_world (rc_stopping ctx)) (\<lambda>b.
         if b then error_envelope_for h (core_error ServerStopping)
         else bind (read_world (rc_cancelled ctx)) (\<lambda>b.
         if b then error_envelope_for h (stopped_error op Cancelled)
         else bind (read_world (expired ctx)) (\<lambda>b.
         if b then error_envelope_for h (stopped_error op DeadlineExceeded)
         else case request_error c op of
             Some e \<Rightarrow> error_envelope_for h e
           | None \<Rightarrow>
               dispatch_operation ops render h c op ctx))))"

section \<open>The loop\<close>

definition outcome_unknown :: "core_failure + reply \<Rightarrow> bool" where
  "outcome_unknown r = (case r of
     Inl f \<Rightarrow> kf_outcome_unknown f
   | Inr e \<Rightarrow> (case env_error e of None \<Rightarrow> False
       | Some p \<Rightarrow> ep_transaction_outcome p = Some OutcomeUnknown))"

definition close_succeeded :: "operation \<Rightarrow> core_failure + reply \<Rightarrow> bool" where
  "close_succeeded op r \<longleftrightarrow> op = OpClose \<and>
     (case r of Inl _ \<Rightarrow> False | Inr e \<Rightarrow> env_result e \<noteq> None)"

definition refresh_envelope_state :: "string \<Rightarrow> 'o registry \<Rightarrow> reply \<Rightarrow> bool \<Rightarrow> reply" where
  "refresh_envelope_state h rg envelope verified_close =
     (if verified_close then envelope
      else envelope\<lparr>env_handle_state := current_state h rg,
        env_next_moves := (case current_state h rg of None \<Rightarrow> [] | Some s \<Rightarrow> next_moves s)\<rparr>)"

datatype worker_reply = OperationReply "core_failure + reply" | ShutdownReply shutdown_entry

text \<open>
  One round of the loop: the reply and whether the worker ends. The admission is released after
  the reply has been sent.
\<close>

definition finish_operation ::
  "('b, 'w) backend_ops \<Rightarrow> string \<Rightarrow> operation \<Rightarrow> core_failure + reply \<Rightarrow>
     ('o, 'b, 'w, worker_reply \<times> bool) worker_op" where
  "finish_operation ops h op result =
     bind get_state (\<lambda>s.
     let obs = op_observe ops (snd s) in
     bind (on_registry (update_observation h obs None)) (\<lambda>_.
     bind (if outcome_unknown result
           then if op = OpCommit then on_registry (publish_unknown h)
                else on_registry (update_observation h obs (Some False))
           else ret ()) (\<lambda>_.
     bind get_registry (\<lambda>rg.
     let closed = close_succeeded op result;
         result = (case result of Inl f \<Rightarrow> Inl f
           | Inr e \<Rightarrow> Inr (refresh_envelope_state h rg e closed))
     in bind (on_registry (release_admission h)) (\<lambda>_.
        ret (OperationReply result, closed))))))"

definition run_operation ::
  "('b, 'w) backend_ops \<Rightarrow> renderer \<Rightarrow> string \<Rightarrow> config \<Rightarrow> operation \<Rightarrow> 'w request_context \<Rightarrow>
     ('o, 'b, 'w, worker_reply \<times> bool) worker_op" where
  "run_operation ops render h c op ctx =
     bind (attempt (execute_operation ops render h c op ctx)) (finish_operation ops h op)"

text \<open>
  A backend's shutdown has a report and no error: the last alternative is never taken (\<open>Backend\<close>).
\<close>

definition run_shutdown ::
  "('b, 'w) backend_ops \<Rightarrow> string \<Rightarrow> 'w request_context \<Rightarrow>
     ('o, 'b, 'w, worker_reply \<times> bool) worker_op" where
  "run_shutdown ops h ctx =
     bind (on_backend (attempt (op_shutdown ops ctx))) (\<lambda>r.
     let entry = (case r of Inr Verified \<Rightarrow> entry_verified h
       | Inr (Uncertain stage) \<Rightarrow> entry_uncertain h stage
       | Inl _ \<Rightarrow> entry_uncertain h ''rollback'')
     in bind (on_registry (publish_closed h)) (\<lambda>_. ret (ShutdownReply entry, True)))"

datatype 'w worker_request = DoOperation operation "'w request_context" | DoShutdown "'w request_context"

definition worker_round ::
  "('b, 'w) backend_ops \<Rightarrow> renderer \<Rightarrow> string \<Rightarrow> config \<Rightarrow> 'w worker_request \<Rightarrow>
     ('o, 'b, 'w, worker_reply \<times> bool) worker_op" where
  "worker_round ops render h c request = (case request of
     DoOperation op ctx \<Rightarrow> run_operation ops render h c op ctx
   | DoShutdown ctx \<Rightarrow> run_shutdown ops h ctx)"

text \<open>The requests the worker receives, in order, until one ends it or all senders are gone.\<close>

fun worker_loop ::
  "('b, 'w) backend_ops \<Rightarrow> renderer \<Rightarrow> string \<Rightarrow> config \<Rightarrow> 'w worker_request list \<Rightarrow>
     ('o, 'b, 'w, worker_reply list) worker_op" where
  "worker_loop ops render h c [] = ret []"
| "worker_loop ops render h c (request # requests) =
     bind (worker_round ops render h c request) (\<lambda>(reply, stop).
     if stop then ret [reply]
     else bind (worker_loop ops render h c requests) (\<lambda>replies. ret (reply # replies)))"

section \<open>Running a worker\<close>

lemma on_backend_post [simp, post_rules]:
  "post (on_backend m) Q (rg, s) = post m (\<lambda>r s'. Q r (rg, s')) s"
  by (simp add: post_def on_backend_def split: option.split prod.split)

lemma on_registry_post [simp, post_rules]:
  "post (on_registry f) Q (rg, s) = Q (Inr ()) (f rg, s)"
  by (simp add: on_registry_def)

lemma get_registry_post [simp, post_rules]: "post get_registry Q s = Q (Inr (fst s)) s"
  by (simp add: get_registry_def)

lemma read_world_post [simp, post_rules]:
  "post (read_world f) Q (rg, (b, w)) = Q (Inr (fst (f w))) (rg, (b, snd (f w)))"
  by (simp add: read_world_def)

text \<open>The handle a worker publishes.\<close>

definition published :: "string \<Rightarrow> 'o registry \<Rightarrow> published_handle option" where
  "published h rg = map_option we_published (bt_get h (rg_handles rg))"

lemma published_modify [simp]:
  "published h (modify_published h f rg) = map_option f (published h rg)"
  by (simp add: published_def modify_published_def option.map_comp comp_def)

lemma published_release [simp]: "published h (release_admission h rg) = published h rg"
  by (simp add: published_def release_admission_def option.map_comp comp_def)

lemma current_state_published: "current_state h rg = map_option published_state (published h rg)"
  by (simp add: current_state_def published_def option.map_comp comp_def)

lemma current_database_published: "published h rg = Some p \<Longrightarrow> current_database h rg = ph_database p"
  by (auto simp: current_database_def published_def)

lemma current_schema_dirty_published: "published h rg = Some p \<Longrightarrow> current_schema_dirty h rg = ph_schema_dirty p"
  by (auto simp: current_schema_dirty_def published_def)

lemma precondition_published:
  "published h rg = Some p \<Longrightarrow> operation_precondition h op rg =
     (if ph_closed p then Some (core_error HandleUnknown) else published_precondition op p)"
  by (auto simp: operation_precondition_def published_def)

lemmas publication_simps = update_observation_def update_schema_dirty_def publish_unknown_def
  publish_closed_def current_database_published current_schema_dirty_published Let_def

lemma success_post [simp]:
  "post (success h r) Q (rg, s) = Q (Inr (handle_state_envelope (current_state h rg) r)) (rg, s)"
  by (simp add: success_def)

lemma error_envelope_for_post [simp]:
  "post (error_envelope_for h e) Q (rg, s) =
     Q (Inr (error_envelope (current_state h rg) e (ce_outcome_unknown e))) (rg, s)"
  by (simp add: error_envelope_for_def)

lemma fail_for_handle_post [simp]:
  "post (fail_for_handle h e) Q (rg, s) = Q (Inl (failure_for_handle h e rg)) (rg, s)"
  by (simp add: fail_for_handle_def)

lemma envelope_sel [simp]:
  "env_result (handle_state_envelope hs r) = Some r" "env_error (handle_state_envelope hs r) = None"
  "env_result (error_envelope_with_sqlstate hs e u q) = None"
  "env_error (error_envelope_with_sqlstate hs e u q) \<noteq> None"
  "env_result (error_envelope hs e u) = None" "env_error (error_envelope hs e u) \<noteq> None"
  by (simp_all add: handle_state_envelope_def envelope_success_def error_envelope_def
      error_envelope_with_sqlstate_def envelope_failure_def Let_def)

lemma envelope_base [simp]:
  "env_version (handle_state_envelope hs r) = envelope_version"
  "env_version (error_envelope_with_sqlstate hs e u q) = envelope_version"
  "env_version (error_envelope hs e u) = envelope_version"
  "pred_option payload_ok (env_error (error_envelope_with_sqlstate hs e u q))"
  "pred_option payload_ok (env_error (error_envelope hs e u))"
  using sqlstate_fallback_ok[where s = q and c = "ce_code e"] sqlstate_fallback_ok[where s = None and c = "ce_code e"]
  by (auto simp: handle_state_envelope_def envelope_success_def error_envelope_def
      error_envelope_with_sqlstate_def envelope_failure_def Let_def)

text \<open>What a successful operation does to the schema bookkeeping of its handle.\<close>

fun schema_effect :: "operation \<Rightarrow> bool \<Rightarrow> bool \<times> bool \<Rightarrow> bool \<times> bool" where
  "schema_effect OpGetSchema ddl (observed, dirty) = (True, False)"
| "schema_effect OpOpenRead ddl (observed, dirty) = (observed, dirty)"
| "schema_effect OpOpenWrite ddl (observed, dirty) = (observed, dirty)"
| "schema_effect (OpQuery request) ddl (observed, dirty) = (observed, dirty \<or> ddl)"
| "schema_effect OpCommit ddl (observed, dirty) = (observed \<and> \<not> dirty, False)"
| "schema_effect OpRollback ddl (observed, dirty) = (observed, False)"
| "schema_effect OpClose ddl (observed, dirty) = (False, False)"

definition schema_flags :: "published_handle \<Rightarrow> bool \<times> bool" where
  "schema_flags p = (ph_schema_observed p, ph_schema_dirty p)"

text \<open>Whether the command tag of a query's result is classified as changing the catalog.\<close>

definition ran_ddl :: "operation \<Rightarrow> reply \<Rightarrow> bool \<Rightarrow> bool" where
  "ran_ddl op e ddl \<longleftrightarrow> (case op of
     OpQuery _ \<Rightarrow> (\<exists>query. env_result e = Some (to_value (en_query_result query)) \<and>
       ddl = direct_ddl_command_tag (q_command_tag query))
   | _ \<Rightarrow> True)"

text \<open>The published handle after \<open>execute_operation\<close>.\<close>

definition executed ::
  "operation \<Rightarrow> published_handle \<Rightarrow> backend_observation \<Rightarrow> core_failure + reply \<Rightarrow>
     published_handle \<Rightarrow> bool" where
  "executed op p obs r p' \<longleftrightarrow>
     ph_id p' = ph_id p \<and> ph_database p' = ph_database p \<and>
     (case r of
        Inl f \<Rightarrow> \<not> kf_outcome_unknown f \<and> pred_option state_ok (kf_handle_state f) \<and>
          \<not> ph_closed p' \<and> schema_flags p' = schema_flags p
      | Inr e \<Rightarrow>
          env_version e = envelope_version \<and> pred_option payload_ok (env_error e) \<and>
          (if env_result e = None
          then env_error e \<noteq> None \<and> \<not> ph_closed p' \<and> schema_flags p' = schema_flags p
          else env_error e = None \<and>
            (\<exists>ddl. ran_ddl op e ddl \<and> schema_flags p' = schema_effect op ddl (schema_flags p)) \<and>
            (if op = OpClose
             then ph_closed p' \<and> obs = gone \<and>
               env_handle_state e = Some (handle_state_closed (ph_id p) (ph_database p)) \<and>
               env_next_moves e = []
             else \<not> ph_closed p')))"

lemma next_moves_closed [simp]: "next_moves (handle_state_closed h d) = []"
  by (simp add: next_moves_def moves_for_state_def handle_state_closed_def handle_state_validate_def
      unwrap_or_default_def)

lemma publish_error:
  assumes "published h rg = Some p" and "\<not> ph_closed p"
  shows "post (publish_result render h c (Inl f)) (\<lambda>r (rg', s'). s' = s \<and>
    (\<exists>p'. published h rg' = Some p' \<and> executed op p obs r p')) (rg, s)"
  using assms by (simp add: publication_simps executed_def schema_flags_def)

text \<open>The result an operation's success carries, by the contract.\<close>

definition result_shape :: "operation \<Rightarrow> backend_observation \<Rightarrow> backend_result \<Rightarrow> bool" where
  "result_shape op obs r \<longleftrightarrow> (case op of
     OpGetSchema \<Rightarrow> \<exists>schema. r = SchemaRead schema obs
   | OpOpenRead \<Rightarrow> r = Opened ''read'' obs
   | OpOpenWrite \<Rightarrow> r = Opened ''write'' obs
   | OpQuery _ \<Rightarrow> \<exists>q. r = Queried q obs (direct_ddl_command_tag (q_command_tag q))
   | OpCommit \<Rightarrow> r = Committed obs \<and> bo_transaction obs = TsIdle
   | OpRollback \<Rightarrow> (\<exists>changed. r = RolledBack changed obs) \<and> bo_transaction obs = TsIdle
   | OpClose \<Rightarrow> r = Closed gone True \<and> obs = gone)"

lemma publish_success:
  assumes p: "published h rg = Some p" "\<not> ph_closed p" "ph_id p = h"
    and shape: "result_shape op obs result"
  shows "post (publish_result render h c (Inr result)) (\<lambda>r (rg', s'). s' = s \<and>
    (\<exists>p'. published h rg' = Some p' \<and> executed op p obs r p')) (rg, s)"
proof (cases op)
  case OpGetSchema
  with p shape show ?thesis
    by (auto simp: result_shape_def publication_simps executed_def schema_flags_def failure_for_handle_def
        core_error_def current_state_published published_state_open_ok ran_ddl_def)
next
  case (OpQuery request)
  with shape obtain q where q: "result = Queried q obs (direct_ddl_command_tag (q_command_tag q))"
    by (auto simp: result_shape_def)
  have "ran_ddl op (handle_state_envelope hs (to_value (en_query_result q)))
      (direct_ddl_command_tag (q_command_tag q))" for hs
    unfolding ran_ddl_def OpQuery by auto
  with p OpQuery show ?thesis
    by (auto simp: q publication_simps executed_def schema_flags_def failure_for_handle_def
        core_error_def current_state_published published_state_open_ok)
next
  case OpClose
  with p shape show ?thesis
    by (simp add: result_shape_def publication_simps executed_def schema_flags_def ran_ddl_def)
      (simp add: handle_state_envelope_def envelope_success_def current_database_published)
qed (use p shape in \<open>auto simp: result_shape_def publication_simps executed_def schema_flags_def
    ran_ddl_def\<close>)

context backend_contract
begin

lemma backend_call_shape:
  "backend_call ops c ctx op s = Some (Ok result, s') \<Longrightarrow> result_shape op (op_observe ops s') result"
  using open_read_ok open_write_ok get_schema_ok query_ok commit_ok rollback_ok close_ok
  by (cases op) (auto simp: result_shape_def)

lemma dispatched_call:
  assumes p: "published h rg = Some p" "\<not> ph_closed p" "ph_id p = h"
  shows "post (dispatch_operation ops render h c op ctx)
    (\<lambda>r (rg', s'). \<exists>p'. published h rg' = Some p' \<and> executed op p (op_observe ops s') r p') (rg, s)"
  unfolding dispatch_operation_def post_bind on_backend_post post_attempt sum.case
proof (rule postI)
  fix r s'
  assume r: "backend_call ops c ctx op s = Some (r, s')"
  show "post (publish_result render h c r) (\<lambda>r (rg', s'). \<exists>p'. published h rg' = Some p' \<and>
      executed op p (op_observe ops s') r p') (rg, s')"
  proof (cases r)
    case (Inl f)
    show ?thesis unfolding Inl
      by (rule post_mono[OF publish_error[OF p(1,2), where obs = "op_observe ops s'" and op = op]]) auto
  next
    case (Inr result)
    with r have "result_shape op (op_observe ops s') result" by (simp add: backend_call_shape)
    show ?thesis unfolding Inr
      by (rule post_mono[OF publish_success[OF p \<open>result_shape _ _ _\<close>]]) auto
  qed
qed

lemma execute_effect:
  assumes p: "published h rg = Some p" "\<not> ph_closed p" "ph_id p = h"
  shows "post (execute_operation ops render h c op ctx)
    (\<lambda>r (rg', s'). \<exists>p'. published h rg' = Some p' \<and> executed op p (op_observe ops s') r p') (rg, s)"
proof -
  have err: "executed op p obs (Inr (error_envelope hs e u)) p" for obs hs e u
    using p(2) by (simp add: executed_def)
  show ?thesis
    using p(1) err dispatched_call[OF p]
    unfolding execute_operation_def
    by (cases s) (simp split: option.split)
qed

end

text \<open>The published handle and the reply after a round.\<close>

definition bad_unknown :: backend_observation where
  "bad_unknown = \<lparr>bo_connection = BcBad, bo_transaction = TsUnknown, bo_busy = False\<rparr>"

definition round_done ::
  "operation \<Rightarrow> published_handle \<Rightarrow> backend_observation \<Rightarrow> core_failure + reply \<Rightarrow> bool \<Rightarrow>
     published_handle \<Rightarrow> bool" where
  "round_done op p obs r closed p' \<longleftrightarrow>
     ph_id p' = ph_id p \<and> ph_database p' = ph_database p \<and> ph_closed p' = closed \<and>
     ph_observation p' = (if op = OpCommit \<and> outcome_unknown r then bad_unknown else obs) \<and>
     (closed \<longrightarrow> op = OpClose \<and> obs = gone) \<and>
     (case r of
        Inl f \<Rightarrow> \<not> kf_outcome_unknown f \<and> pred_option state_ok (kf_handle_state f) \<and>
          \<not> closed \<and> schema_flags p' = schema_flags p
      | Inr e \<Rightarrow>
          env_handle_state e = Some (published_state p') \<and>
          env_next_moves e = next_moves (published_state p') \<and>
          env_version e = envelope_version \<and> pred_option payload_ok (env_error e) \<and>
          (if env_result e \<noteq> None
           then env_error e = None \<and> closed = (op = OpClose) \<and>
             (\<exists>ddl. ran_ddl op e ddl \<and> schema_flags p' = schema_effect op ddl (schema_flags p))
           else env_error e \<noteq> None \<and> \<not> closed \<and> schema_flags p' =
             (if outcome_unknown r
              then (False, ph_schema_dirty p \<and> op \<noteq> OpCommit) else schema_flags p)))"

definition operation_reply :: "worker_reply \<Rightarrow> core_failure + reply" where
  "operation_reply r = (case r of OperationReply x \<Rightarrow> x | ShutdownReply _ \<Rightarrow> Inl (failure_process (core_error Internal)))"

lemma refresh_sel [simp]:
  "env_result (refresh_envelope_state h rg e b) = env_result e"
  "env_error (refresh_envelope_state h rg e b) = env_error e"
  "ran_ddl op (refresh_envelope_state h rg e b) ddl = ran_ddl op e ddl"
  "published h rg = Some p \<Longrightarrow> \<not> b \<Longrightarrow>
     env_handle_state (refresh_envelope_state h rg e b) = Some (published_state p)"
  "published h rg = Some p \<Longrightarrow> \<not> b \<Longrightarrow>
     env_next_moves (refresh_envelope_state h rg e b) = next_moves (published_state p)"
  "env_version (refresh_envelope_state h rg e b) = env_version e"
  by (simp_all add: refresh_envelope_state_def ran_ddl_def current_state_published split: operation.split)

lemma published_envelope_ok:
  assumes "env_version e = envelope_version" "(env_result e \<noteq> None) \<noteq> (env_error e \<noteq> None)"
    and "pred_option payload_ok (env_error e)"
    and "env_handle_state e = Some s" "env_next_moves e = next_moves s" "state_ok s"
  shows "envelope_ok e"
  using assms by (auto simp: envelope_ok_iff next_moves_valid)

text \<open>The publication that follows an executed operation.\<close>

definition publish_round ::
  "string \<Rightarrow> operation \<Rightarrow> backend_observation \<Rightarrow> core_failure + reply \<Rightarrow> 'o registry \<Rightarrow> 'o registry"
where
  "publish_round h op obs r rg = (let rg = update_observation h obs None rg in
     if outcome_unknown r then if op = OpCommit then publish_unknown h rg
       else update_observation h obs (Some False) rg else rg)"

definition round_reply ::
  "string \<Rightarrow> operation \<Rightarrow> 'o registry \<Rightarrow> core_failure + reply \<Rightarrow> core_failure + reply" where
  "round_reply h op rg r = (case r of Inl f \<Rightarrow> Inl f
     | Inr e \<Rightarrow> Inr (refresh_envelope_state h rg e (close_succeeded op r)))"

lemma finish_operation_post:
  "post (finish_operation ops h op r) Q (rg, s) =
     (let rg = publish_round h op (op_observe ops s) r rg
      in Q (Inr (OperationReply (round_reply h op rg r), close_succeeded op r)) (release_admission h rg, s))"
  by (cases r) (simp_all add: finish_operation_def publish_round_def round_reply_def Let_def)

lemma finish_round:
  assumes ex: "executed op p obs r p'" and p': "published h rg = Some p'" and h: "ph_id p = h"
  shows "\<exists>p''. published h (publish_round h op obs r rg) = Some p'' \<and>
    round_done op p obs (round_reply h op (publish_round h op obs r rg) r) (close_succeeded op r) p''"
proof (cases r)
  case (Inl f)
  with ex p' h show ?thesis
    by (simp add: executed_def round_done_def outcome_unknown_def close_succeeded_def publication_simps publish_round_def round_reply_def
        schema_flags_def)
next
  case (Inr e)
  show ?thesis
  proof (cases "env_result e")
    case None
    with ex p' h Inr show ?thesis
      by (simp add: executed_def round_done_def outcome_unknown_def close_succeeded_def publication_simps publish_round_def round_reply_def
          schema_flags_def refresh_envelope_state_def current_state_published bad_unknown_def)
  next
    case (Some v)
    with ex Inr have ok: "env_error e = None" "outcome_unknown r = False"
      by (auto simp: executed_def outcome_unknown_def)
    show ?thesis
    proof (cases "op = OpClose")
      case True
      with ex p' h Inr Some ok show ?thesis
        by (simp add: executed_def round_done_def close_succeeded_def publication_simps publish_round_def round_reply_def
          schema_flags_def published_state_closed refresh_envelope_state_def outcome_unknown_def
          ran_ddl_def)
    next
      case False
      with ex p' h Inr Some ok show ?thesis
        by (simp add: executed_def round_done_def close_succeeded_def publication_simps publish_round_def round_reply_def
          schema_flags_def outcome_unknown_def)
    qed
  qed
qed

lemma round_state_ok: "round_done op p obs r closed p' \<Longrightarrow> state_ok (published_state p')"
  by (cases closed) (auto simp: round_done_def published_state_open_ok published_state_closed)

lemma round_envelope_ok: "round_done op p obs (Inr e) closed p' \<Longrightarrow> envelope_ok e"
  using round_state_ok[of op p obs "Inr e" closed p']
  by (intro published_envelope_ok[where s = "published_state p'"])
    (auto simp: round_done_def split: if_splits)

lemma round_done_reply:
  assumes round: "round_done op p obs r closed p'"
  shows "(case r of Inl f \<Rightarrow> \<not> closed
     | Inr e \<Rightarrow> env_handle_state e = Some (published_state p') \<and>
         env_next_moves e = next_moves (published_state p') \<and> envelope_ok e \<and>
         closed = (op = OpClose \<and> env_result e \<noteq> None))"
proof (cases r)
  case (Inl f)
  with round show ?thesis by (simp add: round_done_def)
next
  case (Inr e)
  from round Inr have "envelope_ok e" by (simp add: round_envelope_ok)
  with round Inr show ?thesis by (auto simp: round_done_def split: if_splits)
qed

lemma round_done_handle:
  assumes "round_done op p obs r closed p'"
  shows "ph_id p' = ph_id p" "ph_database p' = ph_database p" "ph_closed p' = closed"
    "ph_observation p' = (if op = OpCommit \<and> outcome_unknown r then bad_unknown else obs)"
  using assms by (simp_all add: round_done_def)

context backend_contract
begin

lemma run_operation_call:
  assumes p: "published h rg = Some p" "\<not> ph_closed p" "ph_id p = h"
  shows "post (run_operation ops render h c op ctx)
    (\<lambda>x (rg', s'). \<exists>r closed p'. x = Inr (OperationReply r, closed) \<and> published h rg' = Some p' \<and>
       round_done op p (op_observe ops s') r closed p') (rg, s)"
  unfolding run_operation_def post_bind post_attempt sum.case
  by (rule post_mono[OF execute_effect[OF p]])
    (auto simp: finish_operation_post Let_def dest!: finish_round[OF _ _ p(3)])

end

section \<open>The worker among the other threads\<close>

text \<open>A registry changed only by publications of the handle \<open>h\<close>.\<close>

inductive publishes :: "string \<Rightarrow> 'o registry \<Rightarrow> 'o registry \<Rightarrow> bool" for h where
  publishes_refl: "publishes h rg rg"
| publishes_step: "publishes h rg rg' \<Longrightarrow> may_publish h change rg' \<Longrightarrow> publishes h rg (publish h change rg')"

lemma closed_handle_published:
  "published h rg = Some p \<Longrightarrow> closed_handle h rg = ph_closed p"
  by (auto simp: closed_handle_def published_def)

lemma closed_handle_update [simp]:
  "closed_handle h (update_observation h obs schema rg) = closed_handle h rg"
  "closed_handle h (update_schema_dirty h b rg) = closed_handle h rg"
  by (auto simp: closed_handle_def update_observation_def update_schema_dirty_def modify_published_def
      Let_def split: option.split)

lemma may_publish_simps [simp]:
  "may_publish h (Observed obs schema) rg \<longleftrightarrow> \<not> closed_handle h rg \<or> obs = gone \<and> schema = None"
  "may_publish h (Dirty b) rg \<longleftrightarrow> \<not> closed_handle h rg"
  "may_publish h UnknownOutcome rg \<longleftrightarrow> \<not> closed_handle h rg"
  "may_publish h Disposed rg"
  by (auto simp: may_publish_def)

lemma publishes_rules:
  "publishes h rg rg' \<Longrightarrow> may_publish h (Observed obs schema) rg' \<Longrightarrow>
     publishes h rg (update_observation h obs schema rg')"
  "publishes h rg rg' \<Longrightarrow> may_publish h (Dirty b) rg' \<Longrightarrow> publishes h rg (update_schema_dirty h b rg')"
  "publishes h rg rg' \<Longrightarrow> may_publish h UnknownOutcome rg' \<Longrightarrow> publishes h rg (publish_unknown h rg')"
  "publishes h rg rg' \<Longrightarrow> publishes h rg (publish_closed h rg')"
  using publishes_step[of h rg rg' "Observed obs schema"] publishes_step[of h rg rg' "Dirty b"]
    publishes_step[of h rg rg' UnknownOutcome] publishes_step[of h rg rg' Disposed]
  by auto

lemma publish_result_publishes:
  assumes "published h rg = Some p" and "\<not> ph_closed p"
  shows "post (publish_result render h c r) (\<lambda>_ (rg', s'). publishes h rg rg') (rg, s)"
  using assms
  by (cases "(render, h, c, r)" rule: publish_result.cases)
    (auto simp: closed_handle_published[OF assms(1)] publishes_refl intro!: publishes_rules)

lemma dispatch_publishes:
  assumes "published h rg = Some p" and "\<not> ph_closed p"
  shows "post (dispatch_operation ops render h c op ctx) (\<lambda>_ (rg', s'). publishes h rg rg') (rg, s)"
  unfolding dispatch_operation_def
  by (simp, rule postI) (rule publish_result_publishes[OF assms])

lemma execute_publishes:
  assumes "published h rg = Some p" and "\<not> ph_closed p"
  shows "post (execute_operation ops render h c op ctx) (\<lambda>_ (rg', s'). publishes h rg rg') (rg, s)"
  unfolding execute_operation_def
  by (cases s) (auto simp: dispatch_publishes[OF assms] publishes_refl split: option.split)

lemma publishes_path:
  "publishes h rg rg' \<Longrightarrow> \<exists>n. path (critical_section core) \<lparr>sy_registry = rg, sy_executing = ex\<rparr>
     (replicate n (PublishState h)) \<lparr>sy_registry = rg', sy_executing = ex\<rparr>"
proof (induction rule: publishes.induct)
  case (publishes_refl rg)
  show ?case by (rule exI[of _ 0]) (simp add: path_refl)
next
  case (publishes_step rg rg' change)
  from publishes_step.IH obtain n where n: "path (critical_section core) \<lparr>sy_registry = rg, sy_executing = ex\<rparr>
      (replicate n (PublishState h)) \<lparr>sy_registry = rg', sy_executing = ex\<rparr>" ..
  show ?case
    by (rule exI[of _ "Suc n"]) (use path_append[OF n section_publish[OF publishes_step.hyps(2), of core ex]] in
      \<open>simp add: replicate_append_same\<close>)
qed

lemma publish_round_publishes:
  assumes "publishes h rg rg'" and "published h rg' = Some p'" and "executed op p obs r p'"
  shows "publishes h rg (publish_round h op obs r rg')"
proof (cases "ph_closed p'")
  case True
  with assms(3) have "obs = gone" "\<not> outcome_unknown r"
    by (auto simp: executed_def outcome_unknown_def split: sum.splits if_splits)
  with assms(1) show ?thesis by (auto simp: publish_round_def intro!: publishes_rules)
next
  case False
  with assms(1) show ?thesis
    by (auto simp: publish_round_def Let_def closed_handle_published[OF assms(2)]
        intro!: publishes_rules)
qed

context backend_contract
begin

lemma run_operation_sections:
  assumes "published h rg = Some p" and "\<not> ph_closed p" and "ph_id p = h"
  shows "post (run_operation ops render h c op ctx)
     (\<lambda>_ (rg', s'). \<exists>mid. publishes h rg mid \<and> rg' = release_admission h mid) (rg, s)"
  unfolding run_operation_def post_bind post_attempt sum.case
  by (rule post_mono[OF post_conj[OF execute_publishes[OF assms(1,2)] execute_effect[OF assms]]])
    (force simp: finish_operation_post Let_def dest: publish_round_publishes)

end

section \<open>Tools and operations\<close>

text \<open>The operation behind a tool, the query's SQL and parameters aside.\<close>

definition tool_operation :: "query_request \<Rightarrow> string \<Rightarrow> operation option" where
  "tool_operation request tool = map_of [(''get_schema'', OpGetSchema), (''open_read'', OpOpenRead),
     (''open_write'', OpOpenWrite), (''query'', OpQuery request), (''commit'', OpCommit),
     (''rollback'', OpRollback), (''close_database'', OpClose)] tool"

section \<open>A commit on the simulated server\<close>

definition sim_published :: published_handle where
  "sim_published = (published_new (handle_name 1) ''app''
     \<lparr>bo_connection = BcOk, bo_transaction = TsInTransaction, bo_busy = False\<rparr>)
     \<lparr>ph_schema_observed := True, ph_schema_dirty := True\<rparr>"

definition sim_registry :: "unit registry" where
  "sim_registry = sample_registry (sample_admitted\<lparr>we_published := sim_published, we_queue := []\<rparr>)"

definition sim_run :: "(core_failure + worker_reply \<times> bool) \<times>
    unit registry \<times> (connection option \<times> sim)" where
  "sim_run = the (run_operation (libpq_ops sim_env sim_render) sim_render (handle_name 1) config_default
     OpCommit sim_context (sim_registry, (Some ready, sim_in_transaction)))"

lemma sim_published_facts:
  "published (handle_name 1) sim_registry = Some sim_published" "\<not> ph_closed sim_published"
  "ph_id sim_published = handle_name 1" "ph_observation sim_published =
    \<lparr>bo_connection = BcOk, bo_transaction = TsInTransaction, bo_busy = False\<rparr>"
  by (simp_all add: published_def sim_registry_def sample_registry_def bt_get_def sim_published_def
      published_new_def)

lemma on_backend_run: "m s = Some (r, s') \<Longrightarrow> on_backend m (rg, s) = Some (r, (rg, s'))"
  by (simp add: on_backend_def)

lemma sim_worker_run:
  "run_operation (libpq_ops sim_env sim_render) sim_render (handle_name 1) config_default OpCommit
     sim_context (sim_registry, (Some ready, sim_in_transaction)) = Some sim_run"
proof -
  have pre: "operation_precondition (handle_name 1) OpCommit sim_registry = None"
    using sim_published_facts by (simp add: precondition_published)
  have quiet: "rc_stopping sim_context w = (False, w)" "rc_cancelled sim_context w = (False, w)"
      "expired sim_context sim_in_transaction = (False, sim_in_transaction)" for w
    by (simp_all add: sim_context_def expired_def past_def sim_in_transaction_def sim_start_def)
  have call: "op_commit (libpq_ops sim_env sim_render) sim_context
      (Some ready, sim_in_transaction) =
      Some (Ok (Committed \<lparr>bo_connection = BcOk, bo_transaction = TsIdle, bo_busy = False\<rparr>),
        (Some ready, sim_after ''COMMIT'' sim_in_transaction))"
    by (simp add: libpq_ops_def sim_commit_run)
  have "returns (run_operation (libpq_ops sim_env sim_render) sim_render (handle_name 1) config_default
     OpCommit sim_context) (sim_registry, (Some ready, sim_in_transaction))"
    by (simp add: returns_def run_operation_def execute_operation_def dispatch_operation_def
        finish_operation_def get_registry_def read_world_def on_registry_def success_def request_error_def
        bind_def attempt_def get_state_def modify_def ret_def rd_def on_backend_def pre quiet call Let_def)
  then show ?thesis by (auto simp: returns_def sim_run_def)
qed

lemma sim_worker:
  assumes "post (run_operation (libpq_ops sim_env sim_render) sim_render (handle_name 1)
    config_default OpCommit sim_context) Q (sim_registry, (Some ready, sim_in_transaction))"
  shows "Q (fst sim_run) (snd sim_run)"
  using postD[OF assms, of "fst sim_run" "snd sim_run"] sim_worker_run by simp

section \<open>Properties\<close>

text \<open>
  C10. The reply to an operation is the published truth: when a worker has run an operation on an
  open handle, the handle's published observation is the backend's own observation of the state
  it left (or "bad, unknown" after a commit of unknown outcome), its identity is unchanged, it
  is closed exactly when the worker ends, and the envelope of the reply is valid and carries
  that published state with the moves for it.
\<close>

theorem reply_is_published_state:
  assumes "published h rg = Some p" and "\<not> ph_closed p" and "ph_id p = h"
  shows "post (run_operation (libpq_ops env render) render h c op ctx) (\<lambda>x (rg', s').
     \<exists>r closed p'. x = Ok (OperationReply r, closed) \<and> published h rg' = Some p' \<and>
       ph_id p' = h \<and> ph_database p' = ph_database p \<and> ph_closed p' = closed \<and>
       ph_observation p' = (if op = OpCommit \<and> outcome_unknown r then bad_unknown
         else observation env s') \<and>
       (case r of Inl f \<Rightarrow> \<not> closed
        | Inr e \<Rightarrow> env_handle_state e = Some (published_state p') \<and>
            env_next_moves e = next_moves (published_state p') \<and> envelope_ok e \<and>
            closed = (op = OpClose \<and> env_result e \<noteq> None))) (rg, s)"
proof (rule post_mono[OF libpq.run_operation_call[OF assms]], clarify)
  fix rg' s' r closed p'
  assume "published h rg' = Some p'"
    and round: "round_done op p (op_observe (libpq_ops env render) s') r closed p'"
  then show "\<exists>q closed' p''. Ok (OperationReply r, closed) = Ok (OperationReply q, closed') \<and>
      published h rg' = Some p'' \<and> ph_id p'' = h \<and> ph_database p'' = ph_database p \<and>
      ph_closed p'' = closed' \<and> ph_observation p'' =
        (if op = OpCommit \<and> outcome_unknown q then bad_unknown else observation env s') \<and>
      (case q of Inl f \<Rightarrow> \<not> closed'
       | Inr e \<Rightarrow> env_handle_state e = Some (published_state p'') \<and>
           env_next_moves e = next_moves (published_state p'') \<and> envelope_ok e \<and>
           closed' = (op = OpClose \<and> env_result e \<noteq> None))"
    using assms(3) round_done_handle[OF round] round_done_reply[OF round]
    by (intro exI[of _ r] exI[of _ closed] exI[of _ p']) (simp add: libpq_ops_def)
qed

theorem reply_is_published_state_witness:
  "\<exists>r closed p. fst sim_run = Ok (OperationReply r, closed) \<and>
     published (handle_name 1) (fst (snd sim_run)) = Some p \<and> ph_closed p = closed \<and>
     ph_id p = handle_name 1"
  using sim_worker[OF reply_is_published_state[OF sim_published_facts(1-3)]]
  unfolding case_prod_beta by blast

text \<open>
  C26. The schema bookkeeping refines its specification \<open>schema_effect\<close>: a successful inspection
  marks the schema observed and clean; opening keeps both; a query marks it dirty when its
  command tag is classified as changing the catalog; a commit forgets the observation exactly
  when the transaction was dirty; a rollback keeps the observation; a close clears both. A
  failure keeps both, except that an unknown outcome forgets the observation.
\<close>

theorem schema_bookkeeping:
  assumes "published h rg = Some p" and "\<not> ph_closed p" and "ph_id p = h"
  shows "post (run_operation (libpq_ops env render) render h c op ctx) (\<lambda>x (rg', s').
     \<exists>r closed p'. x = Ok (OperationReply r, closed) \<and> published h rg' = Some p' \<and>
       (case r of Inl f \<Rightarrow> schema_flags p' = schema_flags p
        | Inr e \<Rightarrow>
            if env_result e \<noteq> None
            then \<exists>ddl. ran_ddl op e ddl \<and> schema_flags p' = schema_effect op ddl (schema_flags p)
            else if outcome_unknown r then \<not> ph_schema_observed p'
            else schema_flags p' = schema_flags p)) (rg, s)"
proof (rule post_mono[OF libpq.run_operation_call[OF assms]], clarify)
  fix rg' s' r closed p'
  assume p': "published h rg' = Some p'"
    and round: "round_done op p (op_observe (libpq_ops env render) s') r closed p'"
  have "case r of Inl f \<Rightarrow> schema_flags p' = schema_flags p
        | Inr e \<Rightarrow>
            if env_result e \<noteq> None
            then \<exists>ddl. ran_ddl op e ddl \<and> schema_flags p' = schema_effect op ddl (schema_flags p)
            else if outcome_unknown r then \<not> ph_schema_observed p'
            else schema_flags p' = schema_flags p"
    using round by (cases r) (auto simp: round_done_def schema_flags_def)
  with p' show "\<exists>q closed' p''. Ok (OperationReply r, closed) = Ok (OperationReply q, closed') \<and>
      published h rg' = Some p'' \<and>
      (case q of Inl f \<Rightarrow> schema_flags p'' = schema_flags p
        | Inr e \<Rightarrow>
            if env_result e \<noteq> None
            then \<exists>ddl. ran_ddl op e ddl \<and> schema_flags p'' = schema_effect op ddl (schema_flags p)
            else if outcome_unknown q then \<not> ph_schema_observed p''
            else schema_flags p'' = schema_flags p)" by blast
qed

theorem schema_bookkeeping_witness:
  "\<exists>r closed p. fst sim_run = Ok (OperationReply r, closed) \<and>
     published (handle_name 1) (fst (snd sim_run)) = Some p \<and>
     (\<forall>e. r = Inr e \<longrightarrow> env_result e \<noteq> None \<longrightarrow> schema_flags p = (False, False))"
proof -
  have flags: "schema_flags sim_published = (True, True)"
    by (simp add: schema_flags_def sim_published_def)
  from sim_worker[OF schema_bookkeeping[OF sim_published_facts(1-3)]]
  obtain r closed p where run: "fst sim_run = Ok (OperationReply r, closed)"
    and p: "published (handle_name 1) (fst (snd sim_run)) = Some p"
    and r: "case r of Inl f \<Rightarrow> schema_flags p = schema_flags sim_published
        | Inr e \<Rightarrow>
            if env_result e \<noteq> None
            then \<exists>ddl. ran_ddl OpCommit e ddl \<and>
              schema_flags p = schema_effect OpCommit ddl (schema_flags sim_published)
            else if outcome_unknown r then \<not> ph_schema_observed p
            else schema_flags p = schema_flags sim_published"
    by (auto simp: case_prod_beta)
  have "schema_flags p = (False, False)" if "r = Inr e" "env_result e \<noteq> None" for e
    using r that by (auto simp: flags)
  with run p show ?thesis by blast
qed



end
