(* ===== verification/Worker_Loop.thy ===== *)
theory Worker_Loop
  imports Worker
begin

text \<open>
  What the worker's loop guarantees beyond one reply: requests it refuses never reach the
  backend, the moves it recommends are operations it accepts, its rounds are sequences of the
  critical sections of \<open>Concurrency\<close>, and when it ends its connection has been given up.
\<close>

section \<open>Refusals\<close>

text \<open>The reads of the request's context between its admission and its dispatch.\<close>

definition always :: "(bool, 'w) reader \<Rightarrow> bool" where
  "always f \<longleftrightarrow> (\<forall>w. fst (f w))"

definition refused :: "string \<Rightarrow> config \<Rightarrow> operation \<Rightarrow> 'w request_context \<Rightarrow> 'o registry \<Rightarrow> bool" where
  "refused h c op ctx rg \<longleftrightarrow> operation_precondition h op rg \<noteq> None \<or> request_error c op \<noteq> None \<or>
     always (rc_stopping ctx) \<or> always (rc_cancelled ctx) \<or> always (expired ctx)"

lemma error_reply_result [simp]:
  "outcome_unknown (Ok (error_envelope hs e u)) = (u \<or> ce_outcome_unknown e)"
  using sqlstate_fallback_ok[where s = None and c = "ce_code e"]
  by (auto simp: outcome_unknown_def error_envelope_def error_envelope_with_sqlstate_def
      envelope_failure_def Let_def with_unknown_outcome_def error_payload_def try_with_sqlstate_def
      split: sum.split)

lemma precondition_known: "operation_precondition h op rg = Some e \<Longrightarrow> \<not> ce_outcome_unknown e"
  by (cases op) (auto simp: operation_precondition_def open_precondition_def core_error_def
      split: option.splits if_splits transaction_status.splits)

lemma request_error_known: "request_error c op = Some e \<Longrightarrow> \<not> ce_outcome_unknown e"
  by (auto simp: request_error_def core_error_def split: operation.splits sum.splits)

lemma error_envelope_for_run:
  "error_envelope_for h e s = Some (Ok (error_envelope (current_state h (fst s)) e (ce_outcome_unknown e)), s)"
  by (simp add: error_envelope_for_def bind_def get_registry_def get_state_def ret_def)

lemma read_world_run: "f w = (a, w') \<Longrightarrow> read_world f (rg, (b, w)) = Some (Ok a, (rg, (b, w')))"
  by (simp add: read_world_def on_backend_def rd_def)

lemma get_registry_run: "get_registry s = Some (Ok (fst s), s)"
  by (simp add: get_registry_def bind_def get_state_def ret_def)

text \<open>The four gates of \<open>execute_operation\<close>, in the order of the code.\<close>

definition gate :: "string \<Rightarrow> config \<Rightarrow> operation \<Rightarrow> 'w request_context \<Rightarrow> 'o registry \<Rightarrow> 'w \<Rightarrow>
    core_error option \<times> 'w" where
  "gate h c op ctx rg w = (case operation_precondition h op rg of
     Some e \<Rightarrow> (Some e, w)
   | None \<Rightarrow>
       let (b, w) = rc_stopping ctx w in
       if b then (Some (core_error ServerStopping), w)
       else let (b, w) = rc_cancelled ctx w in
       if b then (Some (stopped_error op Cancelled), w)
       else let (b, w) = expired ctx w in
       if b then (Some (stopped_error op DeadlineExceeded), w)
       else (request_error c op, w))"

lemma execute_gate:
  "execute_operation ops render h c op ctx (rg, (b, w)) = (case gate h c op ctx rg w of
     (Some e, w') \<Rightarrow> Some (Ok (error_envelope (current_state h rg) e (ce_outcome_unknown e)), (rg, (b, w')))
   | (None, w') \<Rightarrow> dispatch_operation ops render h c op ctx (rg, (b, w')))"
proof (cases "operation_precondition h op rg")
  case None
  obtain x w1 where w1: "rc_stopping ctx w = (x, w1)" by fastforce
  obtain y w2 where w2: "rc_cancelled ctx w1 = (y, w2)" by fastforce
  obtain z w3 where w3: "expired ctx w2 = (z, w3)" by fastforce
  have runs: "read_world (rc_stopping ctx) (rg, (b, w)) = Some (Ok x, (rg, (b, w1)))"
    "read_world (rc_cancelled ctx) (rg, (b, w1)) = Some (Ok y, (rg, (b, w2)))"
    "read_world (expired ctx) (rg, (b, w2)) = Some (Ok z, (rg, (b, w3)))"
    using w1 w2 w3 by (simp_all add: read_world_run)
  from None w1 w2 w3 show ?thesis
    by (cases x; cases y; cases z) (simp_all add: execute_operation_def gate_def bind_def runs
        get_registry_run error_envelope_for_run split: option.split)
next
  case (Some e)
  then show ?thesis
    by (simp add: execute_operation_def gate_def bind_def get_registry_run error_envelope_for_run)
qed

lemma refused_gate: "refused h c op ctx rg \<Longrightarrow> \<exists>e w'. gate h c op ctx rg w = (Some e, w')"
  unfolding refused_def always_def gate_def Let_def
  by (auto split: option.split prod.split) (metis fst_conv)+

lemma gate_outcome:
  "gate h c op ctx rg w = (Some e, w') \<Longrightarrow> ce_outcome_unknown e \<Longrightarrow> \<exists>request. op = OpQuery request"
  using precondition_known[of h op rg e] request_error_known[of c op e]
  by (auto simp: gate_def Let_def stopped_error_def core_error_def
      split: option.splits prod.splits if_splits operation.splits)

section \<open>Rounds\<close>

text \<open>The backend holds no live connection.\<close>

definition released :: "connection option \<times> 'w \<Rightarrow> bool" where
  "released s \<longleftrightarrow> (case fst s of None \<Rightarrow> True | Some c \<Rightarrow> \<not> cn_alive c)"

lemma observation_gone: "observation env s = gone \<longleftrightarrow> released s"
  by (auto simp: observation_def gone_def released_def status_def Let_def split: option.split)

text \<open>
  A round serves its request: the worker ends exactly when it has published the handle as closed,
  and then the connection has been given up.
\<close>

fun answers :: "string \<Rightarrow> 'w worker_request \<Rightarrow> worker_reply \<Rightarrow> bool" where
  "answers h (DoOperation op ctx) (OperationReply r) \<longleftrightarrow> True"
| "answers h (DoShutdown ctx) (ShutdownReply entry) \<longleftrightarrow> se_handle entry = h"
| "answers h _ _ \<longleftrightarrow> False"

definition is_shutdown :: "'w worker_request \<Rightarrow> bool" where
  "is_shutdown request = (case request of DoShutdown _ \<Rightarrow> True | DoOperation _ _ \<Rightarrow> False)"

definition served ::
  "string \<Rightarrow> 'w worker_request \<Rightarrow> core_failure + worker_reply \<times> bool \<Rightarrow> 'o registry \<Rightarrow>
     connection option \<times> 'w \<Rightarrow> bool" where
  "served h request x rg s \<longleftrightarrow> (\<exists>reply stop p. x = Ok (reply, stop) \<and> published h rg = Some p \<and>
     ph_id p = h \<and> ph_closed p = stop \<and> (stop \<longrightarrow> released s) \<and>
     (is_shutdown request \<longrightarrow> stop) \<and> answers h request reply)"

lemma run_operation_served:
  assumes "published h rg = Some p" "\<not> ph_closed p" "ph_id p = h"
  shows "post (run_operation (libpq_ops env render) render h c op ctx)
    (\<lambda>x (rg', s'). served h (DoOperation op ctx) x rg' s') (rg, s)"
proof (rule post_mono[OF libpq.run_operation_call[OF assms]], clarify)
  fix rg' s' r closed p'
  assume p': "published h rg' = Some p'"
    and round: "round_done op p (op_observe (libpq_ops env render) s') r closed p'"
  have "released s'" if closed
    using round that by (simp add: round_done_def libpq_ops_def flip: observation_gone[of env])
  with p' assms(3) show "served h (DoOperation op ctx) (Ok (OperationReply r, closed)) rg' s'"
    using round_done_handle[OF round] by (simp add: served_def is_shutdown_def)
qed

lemma run_shutdown_served:
  assumes "published h rg = Some p" "ph_id p = h"
  shows "post (run_shutdown (libpq_ops env render) h ctx) (\<lambda>x (rg', s').
    served h (DoShutdown ctx) x rg' s') (rg, s)"
  unfolding run_shutdown_def post_bind on_backend_post post_attempt sum.case libpq_ops_def
    backend_ops.select_convs
  by (rule post_mono[OF shutdown_post])
    (use assms in \<open>auto simp: served_def is_shutdown_def publish_closed_def released_def
        entry_verified_def entry_uncertain_def\<close>)

lemma round_served:
  assumes "published h rg = Some p" "\<not> ph_closed p" "ph_id p = h"
  shows "post (worker_round (libpq_ops env render) render h c request)
    (\<lambda>x (rg', s'). served h request x rg' s') (rg, s)"
  using run_operation_served[OF assms] run_shutdown_served[OF assms(1,3)]
  by (cases request) (simp_all add: worker_round_def)

text \<open>What has been served when the loop returns.\<close>

definition all_served ::
  "string \<Rightarrow> 'w worker_request list \<Rightarrow> worker_reply list \<Rightarrow> published_handle \<Rightarrow>
     connection option \<times> 'w \<Rightarrow> bool" where
  "all_served h requests replies p s \<longleftrightarrow>
     ph_id p = h \<and> length replies \<le> length requests \<and>
     list_all2 (answers h) (take (length replies) requests) replies \<and>
     (if ph_closed p then released s
      else length replies = length requests \<and> \<not> list_ex is_shutdown requests)"

lemma all_served_Cons:
  "all_served h requests replies p s \<Longrightarrow> answers h request reply \<Longrightarrow> \<not> is_shutdown request \<Longrightarrow>
     all_served h (request # requests) (reply # replies) p s"
  by (auto simp: all_served_def split: if_splits)

lemma loop_served:
  fixes rg :: "'o registry" and s :: "connection option \<times> 'w"
  assumes "published h rg = Some p" "\<not> ph_closed p" "ph_id p = h"
  shows "post (worker_loop (libpq_ops env render) render h c requests)
    (\<lambda>x (rg', s'). \<exists>replies p'. x = Ok replies \<and> published h rg' = Some p' \<and>
       all_served h requests replies p' s') (rg, s)"
  using assms
proof (induction requests arbitrary: rg s p)
  case Nil
  then show ?case by (simp add: all_served_def)
next
  case (Cons request requests)
  let ?rest = "worker_loop (libpq_ops env render) render h c requests"
  let ?Q = "\<lambda>(x :: core_failure + worker_reply list) (rg' :: 'o registry, s' :: connection option \<times> 'w).
    \<exists>replies p'. x = Ok replies \<and> published h rg' = Some p' \<and>
      all_served h (request # requests) replies p' s'"
  have "post (worker_round (libpq_ops env render) render h c request) (\<lambda>x t. case x of
      Inl e \<Rightarrow> ?Q (Inl e) t
    | Inr (reply, stop) \<Rightarrow> post (if stop then ret [reply] else
        bind ?rest (\<lambda>replies. ret (reply # replies))) ?Q t) (rg, s)"
  proof (rule post_mono[OF round_served[OF Cons.prems]])
    fix x :: "core_failure + worker_reply \<times> bool" and t :: "'o registry \<times> connection option \<times> 'w"
    obtain rg' s' where t: "t = (rg', s')" by (cases t)
    assume "case t of (rg', s') \<Rightarrow> served h request x rg' s'"
    then obtain reply stop p' where x: "x = Ok (reply, stop)" and p': "published h rg' = Some p'"
      "ph_id p' = h" "ph_closed p' = stop" "stop \<longrightarrow> released s'"
      "is_shutdown request \<longrightarrow> stop" "answers h request reply"
      by (auto simp: served_def t)
    have "post (if stop then ret [reply] else bind ?rest (\<lambda>replies. ret (reply # replies))) ?Q (rg', s')"
    proof (cases stop)
      case True
      with p' show ?thesis by (simp add: all_served_def)
    next
      case False
      with p' Cons.IH[of rg' p' s'] have "post ?rest (\<lambda>x (rg', s'). \<exists>replies p'. x = Ok replies \<and>
        published h rg' = Some p' \<and> all_served h requests replies p' s') (rg', s')" by simp
      then show ?thesis
        unfolding if_not_P[OF False] post_bind
        by (rule post_mono) (use False p' in \<open>auto intro: all_served_Cons\<close>)
    qed
    then show "case x of Inl e \<Rightarrow> ?Q (Inl e) t
      | Inr (reply, stop) \<Rightarrow> post (if stop then ret [reply] else
          bind ?rest (\<lambda>replies. ret (reply # replies))) ?Q t" by (simp add: x t)
  qed
  then show ?case
    unfolding worker_loop.simps prod.case_eq_if
      post_bind[of "worker_round (libpq_ops env render) render h c request"] .
qed

section \<open>Moves\<close>

text \<open>The moves of a valid state, without the \<open>Result\<close> around them.\<close>

lemma next_moves_state:
  assumes "state_ok s"
  shows "next_moves s =
    (let h = hs_handle s in
     if hs_connection s = CsClosed then []
     else if hs_connection s = CsBad \<or> hs_transaction s = TsUnknown then
       [for_handle ''close_database'' h unknown_close_guidance]
     else if hs_busy s \<or> hs_transaction s = TsActive then []
     else case hs_transaction s of
       TsInError \<Rightarrow> [for_handle ''rollback'' h inerror_rollback_guidance]
     | TsInTransaction \<Rightarrow> [for_handle ''query'' h query_guidance,
         for_handle ''commit'' h commit_guidance, for_handle ''rollback'' h rollback_guidance]
     | _ \<Rightarrow> if hs_schema_observed s
         then [for_handle ''open_read'' h open_read_guidance,
           for_handle ''open_write'' h open_write_guidance,
           for_handle ''get_schema'' h schema_guidance,
           for_handle ''close_database'' h close_guidance]
         else [for_handle ''get_schema'' h schema_guidance,
           for_handle ''close_database'' h close_guidance])"
proof -
  have valid: "handle_state_validate s = Ok ()" using assms by simp
  show ?thesis
    by (cases "hs_transaction s")
      (simp_all add: valid next_moves_def moves_for_state_def unwrap_or_default_def Let_def)
qed

lemma published_state_sel:
  assumes "\<not> ph_closed p"
  shows "hs_handle (published_state p) = ph_id p"
    "hs_connection (published_state p) = connection_protocol (bo_connection (ph_observation p))"
    "hs_transaction (published_state p) = bo_transaction (ph_observation p)"
    "hs_busy (published_state p) = bo_busy (ph_observation p)"
    "hs_schema_observed (published_state p) = ph_schema_observed p"
  using assms by (simp_all add: published_state_def handle_state_new_def)

section \<open>Properties\<close>



text \<open>
  C27. The moves an envelope recommends are operations its worker accepts in that state, with two
  exceptions: a query is recommended in a transaction whose schema is unobserved and refused with
  SCHEMA_REQUIRED, and closing is recommended on a lost connection whose transaction libpq still
  reports open and refused with ACTIVE_TRANSACTION.
\<close>

theorem moves_sound:
  assumes "\<not> ph_closed p"
  shows "list_all (\<lambda>m. \<exists>op. tool_operation request (mv_tool m) = Some op \<and>
    (published_precondition op p = None \<or>
     (mv_tool m = ''query'' \<and> \<not> ph_schema_observed p \<and>
        published_precondition op p = Some (core_error SchemaRequired)) \<or>
     (mv_tool m = ''close_database'' \<and> bo_connection (ph_observation p) \<noteq> BcOk \<and>
        published_precondition op p = Some (core_error ActiveTransaction))))
    (next_moves (published_state p))"
proof -
  show ?thesis
    using assms
    by (cases "bo_connection (ph_observation p)"; cases "bo_transaction (ph_observation p)")
      (simp_all add: next_moves_state[OF published_state_open_ok[OF assms]] published_state_sel
        tool_operation_def open_precondition_def Let_def)
qed

theorem moves_sound_witness:
  "list_all (\<lambda>m. mv_tool m = ''query'' \<or> mv_tool m = ''commit'' \<or> mv_tool m = ''rollback'')
     (next_moves (published_state sim_published)) \<and> next_moves (published_state sim_published) \<noteq> [] \<and>
   list_all (\<lambda>m. \<exists>op. tool_operation \<lparr>qr_sql = ''SELECT 1'', qr_parameters = []\<rparr> (mv_tool m) = Some op)
     (next_moves (published_state sim_published))"
proof -
  from moves_sound[OF sim_published_facts(2), of "\<lparr>qr_sql = ''SELECT 1'', qr_parameters = []\<rparr>"]
  have "list_all (\<lambda>m. \<exists>op. tool_operation \<lparr>qr_sql = ''SELECT 1'', qr_parameters = []\<rparr> (mv_tool m) = Some op)
     (next_moves (published_state sim_published))" by (auto simp: list_all_iff)
  then show ?thesis
    by (simp add: next_moves_state[OF published_state_open_ok[OF sim_published_facts(2)]] Let_def
        published_state_sel[OF sim_published_facts(2)] sim_published_facts(4))
qed

text \<open>
  C14. The worker's detailed code refines the interleaving semantics: running one operation on
  an open handle is, on the registry, a sequence of publications of its own handle, each of them
  allowed by \<open>may_publish\<close>, followed by one release of its admission, so every invariant of the
  critical sections holds at every point another thread can observe it.
\<close>

theorem round_refines_sections:
  assumes "published h rg = Some p" and "\<not> ph_closed p" and "ph_id p = h" and "h \<in> ex"
    and "run_operation (libpq_ops env render) render h c op ctx (rg, s) = Some (x, (rg', s'))"
  shows "\<exists>n. path (critical_section core) \<lparr>sy_registry = rg, sy_executing = ex\<rparr>
    (replicate n (PublishState h) @ [Release h]) \<lparr>sy_registry = rg', sy_executing = ex - {h}\<rparr>"
proof -
  from postD[OF libpq.run_operation_sections[OF assms(1-3)] assms(5)] obtain mid where
    mid: "publishes h rg mid" "rg' = release_admission h mid" by auto
  from publishes_path[OF mid(1)] obtain n where
    "path (critical_section core) \<lparr>sy_registry = rg, sy_executing = ex\<rparr>
      (replicate n (PublishState h)) \<lparr>sy_registry = mid, sy_executing = ex\<rparr>" by blast
  from path_append[OF this section_release[OF assms(4)]] mid(2) show ?thesis by blast
qed

theorem round_refines_sections_witness:
  "\<exists>n. path (critical_section sample_core)
     \<lparr>sy_registry = sim_registry, sy_executing = {handle_name 1}\<rparr>
     (replicate n (PublishState (handle_name 1)) @ [Release (handle_name 1)])
     \<lparr>sy_registry = fst (snd sim_run), sy_executing = {handle_name 1} - {handle_name 1}\<rparr>"
proof (rule round_refines_sections[OF sim_published_facts(1-3)])
  show "run_operation (libpq_ops sim_env sim_render) sim_render (handle_name 1) config_default OpCommit
      sim_context (sim_registry, (Some ready, sim_in_transaction)) =
      Some (fst sim_run, (fst (snd sim_run), snd (snd sim_run)))"
    using sim_worker_run by simp
qed simp

text \<open>
  C3. A worker serves its queue in order: its replies answer a prefix of the requests one by one,
  and the loop ends either with every request answered, no shutdown among them and the handle
  still open, or with the handle published as closed and its connection given up; a shutdown
  request always ends it that way.
\<close>

theorem worker_loop_serves:
  assumes "published h rg = Some p" and "\<not> ph_closed p" and "ph_id p = h"
  shows "post (worker_loop (libpq_ops env render) render h c requests) (\<lambda>x (rg', s').
     \<exists>replies p'. x = Ok replies \<and> published h rg' = Some p' \<and> ph_id p' = h \<and>
       length replies \<le> length requests \<and>
       list_all2 (answers h) (take (length replies) requests) replies \<and>
       (if ph_closed p' then released s'
        else length replies = length requests \<and> \<not> list_ex is_shutdown requests)) (rg, s)"
  by (rule post_mono[OF loop_served[OF assms]]) (auto simp: all_served_def)

theorem worker_loop_serves_witness:
  "post (worker_loop (libpq_ops sim_env sim_render) sim_render (handle_name 1) config_default
     [DoOperation OpCommit sim_context, DoShutdown sim_context]) (\<lambda>x (rg', s').
     \<exists>replies p'. x = Ok replies \<and> published (handle_name 1) rg' = Some p' \<and> ph_closed p' \<and> released s')
     (sim_registry, (Some ready, sim_in_transaction))"
  by (rule post_mono[OF worker_loop_serves[OF sim_published_facts(1-3)]])
    (auto simp: is_shutdown_def split: if_splits)

end
