(* ===== verification/Opening.thy ===== *)
theory Opening
  imports Worker_Loop
begin

text \<open>
  Opening a database: \<open>Core::open_database\<close> and \<open>connect_and_publish\<close> of \<open>worker.rs\<close>. The state
  is the registry and the world; resolving the DSN, connecting and spawning the worker's thread
  happen without the registry's mutex, and the sections under it are those of \<open>Registry\<close>.
\<close>

section \<open>Environment\<close>

text \<open>
  The DSN command, the factory, the backend's operations, the drop of a backend (which finishes
  its connection) and \<open>thread::Builder::spawn\<close>.
\<close>

record ('b, 'w) open_env =
  oe_dsn :: "'w dsn_env"
  oe_factory :: "string \<Rightarrow> 'w request_context \<Rightarrow> 'w \<Rightarrow> ((backend_failure + 'b \<times> string) \<times> 'w) option"
  oe_ops :: "('b, 'w) backend_ops"
  oe_drop :: "'b \<times> 'w \<Rightarrow> 'w"
  oe_spawn :: "(bool, 'w) reader"

type_synonym ('o, 'w, 'a) open_op = "('o registry \<times> 'w, core_failure, 'a) eff"

definition on_world :: "('w, 'x, 'a) eff \<Rightarrow> ('o, 'w, 'x + 'a) open_op" where
  "on_world m = on_backend (attempt m)"

definition read_state :: "('a, 'w) reader \<Rightarrow> ('o, 'w, 'a) open_op" where
  "read_state f = on_backend (\<lambda>w. case f w of (a, w') \<Rightarrow> Some (Ok a, w'))"

definition change_world :: "('w \<Rightarrow> 'w) \<Rightarrow> ('o, 'w, unit) open_op" where
  "change_world f = modify (\<lambda>s. (fst s, f (snd s)))"

text \<open>The worker thread an opening leaves: none, serving a handle, or told to shut down at once.\<close>

datatype ('b, 'w) spawned = NoThread | Serving 'b config | StopOnly 'b "'w request_context"

section \<open>Connecting\<close>

text \<open>\<open>self.finish_open(&id); return Err(...)\<close>\<close>

definition give_up :: "string \<Rightarrow> core_failure \<Rightarrow> ('o, 'w, 'a) open_op" where
  "give_up h f = bind (on_registry (finish_open h)) (\<lambda>_. throw f)"

definition resolve_failed ::
  "string \<Rightarrow> 'w request_context \<Rightarrow> config_error \<Rightarrow> ('o, 'w, 'a) open_op" where
  "resolve_failed h ctx e = (case e of
     UnknownProfile \<Rightarrow> give_up h (failure_process (core_error DatabaseUnknown))
   | DsnTimeout \<Rightarrow>
       bind (on_registry (finish_open h)) (\<lambda>_.
       bind (read_state (rc_stopping ctx)) (\<lambda>stopping.
       if stopping then throw (failure_process (core_error ServerStopping))
       else bind (read_state (rc_cancelled ctx)) (\<lambda>cancelled.
       throw (failure_process (if cancelled then core_error Cancelled
         else core_error_unknown DeadlineExceeded)))))
   | _ \<Rightarrow> give_up h (failure_process (core_error ConfigError)))"

definition resolve_dsn ::
  "core \<Rightarrow> ('b, 'w) open_env \<Rightarrow> string \<Rightarrow> string \<Rightarrow> 'w request_context \<Rightarrow>
     ('o, 'w, config \<times> string) open_op" where
  "resolve_dsn core oe h profile ctx = (case core_profiles core of
     None \<Rightarrow> ret (core_config core, core_dsn core)
   | Some profiles \<Rightarrow>
       bind (on_world (resolve_with_context (oe_dsn oe) profiles profile ctx)) (\<lambda>r.
       case r of Inr x \<Rightarrow> ret x | Inl e \<Rightarrow> resolve_failed h ctx e))"

text \<open>\<open>let _ = backend.close(&context)\<close>\<close>

definition close_backend ::
  "('b, 'w) open_env \<Rightarrow> 'w request_context \<Rightarrow> 'b \<Rightarrow> ('o, 'w, 'b) open_op" where
  "close_backend oe ctx b = on_backend (\<lambda>w. case op_close (oe_ops oe) ctx (b, w) of
     None \<Rightarrow> None | Some (r, (b', w')) \<Rightarrow> Some (Ok b', w'))"

definition drop_backend :: "('b, 'w) open_env \<Rightarrow> 'b \<Rightarrow> ('o, 'w, unit) open_op" where
  "drop_backend oe b = change_world (\<lambda>w. oe_drop oe (b, w))"

text \<open>Closing an unwanted connection: close, give up the reservation, answer, drop the backend.\<close>

definition stopped_open ::
  "('b, 'w) open_env \<Rightarrow> string \<Rightarrow> 'w request_context \<Rightarrow> 'b \<Rightarrow> ('o, 'w, 'a) open_op" where
  "stopped_open oe h ctx b =
     bind (close_backend oe ctx b) (\<lambda>b.
     bind (on_registry (finish_open h)) (\<lambda>_.
     bind (read_state (rc_stopping ctx)) (\<lambda>stopping.
     bind (if stopping then ret (core_error ServerStopping)
           else bind (read_state (expired ctx)) (\<lambda>expired.
             ret (core_error_unknown (if expired then DeadlineExceeded else Cancelled)))) (\<lambda>e.
     bind (drop_backend oe b) (\<lambda>_. throw (failure_process e))))))"

definition unhealthy_open ::
  "('b, 'w) open_env \<Rightarrow> string \<Rightarrow> 'w request_context \<Rightarrow> 'b \<Rightarrow> ('o, 'w, 'a) open_op" where
  "unhealthy_open oe h ctx b =
     bind (close_backend oe ctx b) (\<lambda>b.
     bind (on_registry (finish_open h)) (\<lambda>_.
     bind (drop_backend oe b) (\<lambda>_.
     throw (failure_process (core_error_unknown ConnectionLost)))))"

section \<open>Publishing\<close>

text \<open>
  The thread is spawned before the last critical section; when that finds admission closed, the
  worker is sent a shutdown request (its channel is empty) and its sender is dropped.
\<close>

definition publish_or_stop ::
  "'w request_context \<Rightarrow> string \<Rightarrow> string \<Rightarrow> config \<Rightarrow> string \<Rightarrow> backend_observation \<Rightarrow> 'b \<Rightarrow>
     ('o, 'w, (core_failure + reply) \<times> ('b, 'w) spawned) open_op" where
  "publish_or_stop stop h profile c database obs b =
     bind get_registry (\<lambda>rg.
     case publish_open h profile c database obs rg of
       None \<Rightarrow>
         bind (read_state (rc_now stop)) (\<lambda>t.
         bind (on_registry (finish_open h)) (\<lambda>_.
         ret (Err (failure_process (core_error ServerStopping)),
              StopOnly b (stop\<lparr>rc_cancelled := (\<lambda>w. (False, w)),
                rc_deadline := t + cancel_drain_grace c, rc_grace := cancel_drain_grace c\<rparr>))))
     | Some rg' \<Rightarrow>
         bind (on_registry (\<lambda>_. rg')) (\<lambda>_.
         ret (Ok (handle_state_envelope (Some (published_state (published_new h database obs)))
                (JObject [(''handle'', JString h)])), Serving b c)))"

definition start_worker ::
  "('b, 'w) open_env \<Rightarrow> 'w request_context \<Rightarrow> string \<Rightarrow> string \<Rightarrow> config \<Rightarrow> string \<Rightarrow>
     backend_observation \<Rightarrow> 'b \<Rightarrow> ('o, 'w, (core_failure + reply) \<times> ('b, 'w) spawned) open_op" where
  "start_worker oe stop h profile c database obs b =
     bind (read_state (oe_spawn oe)) (\<lambda>spawned.
     if spawned then publish_or_stop stop h profile c database obs b
     else bind (drop_backend oe b) (\<lambda>_. give_up h (failure_process (core_error Internal))))"

definition any_stop :: "'w request_context \<Rightarrow> (bool, 'w) reader" where
  "any_stop ctx = or_read (rc_stopping ctx) (or_read (rc_cancelled ctx) (expired ctx))"

definition connect_dsn ::
  "('b, 'w) open_env \<Rightarrow> 'w request_context \<Rightarrow> string \<Rightarrow> string \<Rightarrow> 'w request_context \<Rightarrow>
     config \<times> string \<Rightarrow> ('o, 'w, (core_failure + reply) \<times> ('b, 'w) spawned) open_op" where
  "connect_dsn oe stop h profile ctx = (\<lambda>(c, dsn).
     bind (on_world (oe_factory oe dsn ctx)) (\<lambda>connected.
     case connected of
       Inl f \<Rightarrow> give_up h (failure_from_backend None f)
     | Inr (b, database) \<Rightarrow>
         bind get_state (\<lambda>s.
         let obs = op_observe (oe_ops oe) (b, snd s) in
         bind (read_state (any_stop ctx)) (\<lambda>stop_requested.
         if stop_requested then stopped_open oe h ctx b
         else if bo_connection obs \<noteq> BcOk \<or> bo_transaction obs \<noteq> TsIdle
         then unhealthy_open oe h ctx b
         else start_worker oe stop h profile c database obs b))))"

definition connect_and_publish ::
  "core \<Rightarrow> ('b, 'w) open_env \<Rightarrow> 'w request_context \<Rightarrow> string \<Rightarrow> string \<Rightarrow> 'w request_context \<Rightarrow>
     ('o, 'w, (core_failure + reply) \<times> ('b, 'w) spawned) open_op" where
  "connect_and_publish core oe stop h profile ctx =
     bind (resolve_dsn core oe h profile ctx) (connect_dsn oe stop h profile ctx)"

text \<open>
  \<open>cancelled\<close> reads the caller's token and \<open>token h\<close> the shutdown token of the reservation \<open>h\<close>;
  \<open>stop\<close> holds the core's own shutdown token and the clock.
\<close>

definition open_database ::
  "core \<Rightarrow> ('b, 'w) open_env \<Rightarrow> 'w request_context \<Rightarrow> (string \<Rightarrow> (bool, 'w) reader) \<Rightarrow>
     (bool, 'w) reader \<Rightarrow> string \<Rightarrow> ('o, 'w, (core_failure + reply) \<times> ('b, 'w) spawned) open_op" where
  "open_database core oe stop token cancelled profile =
     bind get_registry (\<lambda>rg.
     case reserve_open core profile rg of
       (Inl e, rg') \<Rightarrow> throw (failure_process e)
     | (Inr (h, timeout, grace), rg') \<Rightarrow>
         bind (on_registry (\<lambda>_. rg')) (\<lambda>_.
         bind (read_state (rc_now stop)) (\<lambda>t.
         connect_and_publish core oe stop h profile
           \<lparr>rc_cancelled = cancelled, rc_stopping = token h, rc_now = rc_now stop,
            rc_deadline = t + timeout, rc_grace = grace\<rparr>)))"

text \<open>The environment of the server: libpq's factory and backend.\<close>

definition libpq_open_env ::
  "'w libpq_env \<Rightarrow> renderer \<Rightarrow> (string \<Rightarrow> conninfo_option list option) \<Rightarrow> 'w dsn_env \<Rightarrow>
     (bool, 'w) reader \<Rightarrow> (connection option, 'w) open_env" where
  "libpq_open_env env render conninfo_parse dsn spawn = \<lparr>
     oe_dsn = dsn, oe_factory = factory_connect env render conninfo_parse,
     oe_ops = libpq_ops env render,
     oe_drop = (\<lambda>(b, w). case b of None \<Rightarrow> w | Some c \<Rightarrow> if cn_alive c then pq_finish env w else w),
     oe_spawn = spawn\<rparr>"

section \<open>Running an opening\<close>

lemma read_state_post [simp, post_rules]:
  "post (read_state f) Q (rg, w) = Q (Ok (fst (f w))) (rg, snd (f w))"
  by (simp add: read_state_def post_def on_backend_def case_prod_beta)

lemma change_world_post [simp, post_rules]: "post (change_world f) Q (rg, w) = Q (Ok ()) (rg, f w)"
  by (simp add: change_world_def)

lemma on_world_post [simp, post_rules]:
  "post (on_world m) Q (rg, w) = post m (\<lambda>r w'. Q (Ok r) (rg, w')) w"
  by (simp add: on_world_def)

lemma give_up_post [simp, post_rules]: "post (give_up h f) Q (rg, w) = Q (Err f) (finish_open h rg, w)"
  by (simp add: give_up_def)

lemma drop_backend_post [simp, post_rules]:
  "post (drop_backend oe b) Q (rg, w) = Q (Ok ()) (rg, oe_drop oe (b, w))"
  by (simp add: drop_backend_def)

lemma close_backend_post:
  "(\<And>b' w'. Q (Ok b') (rg, w')) \<Longrightarrow> post (close_backend oe ctx b) Q (rg, w)"
  by (auto simp: close_backend_def post_def on_backend_def split: option.split prod.split)

lemma failure_no_state [simp]:
  "kf_handle_state (failure_process e) = None" "kf_handle_state (failure_from_backend hs f) = hs"
  by (simp_all add: failure_process_def failure_from_backend_def)

text \<open>Every refusal gives up the reservation and touches nothing else of the registry.\<close>

definition gave_up :: "string \<Rightarrow> 'o registry \<Rightarrow> core_failure + 'a \<Rightarrow> 'o registry \<Rightarrow> bool" where
  "gave_up h rg x rg' \<longleftrightarrow> rg' = finish_open h rg \<and>
     (case x of Inl f \<Rightarrow> kf_handle_state f = None | Inr _ \<Rightarrow> False)"

lemma gave_up_Err [simp]:
  "gave_up h rg (Err f) rg' \<longleftrightarrow> rg' = finish_open h rg \<and> kf_handle_state f = None"
  by (simp add: gave_up_def)

lemma resolve_failed_gives_up:
  "post (resolve_failed h ctx e) (\<lambda>x (rg', w'). gave_up h rg x rg') (rg, w)"
  by (cases e) (simp_all add: resolve_failed_def)

lemma stopped_open_gives_up:
  "post (stopped_open oe h ctx b) (\<lambda>x (rg', w'). gave_up h rg x rg') (rg, w)"
  unfolding stopped_open_def post_bind by (rule close_backend_post) simp

lemma unhealthy_open_gives_up:
  "post (unhealthy_open oe h ctx b) (\<lambda>x (rg', w'). gave_up h rg x rg') (rg, w)"
  unfolding unhealthy_open_def post_bind by (rule close_backend_post) simp

text \<open>The configuration of an opened handle is its profile's.\<close>

definition profile_has :: "core \<Rightarrow> string \<Rightarrow> config \<Rightarrow> bool" where
  "profile_has core profile c \<longleftrightarrow>
     (\<exists>found. profile_lookup core profile = Ok found \<and> c = effective_config core found)"

lemma resolved_profile:
  "resolve_with_context env f name ctx w = Some (Ok (c, dsn), w') \<Longrightarrow> profile_config f name = Ok c"
  by (auto simp: resolve_with_context_def Let_def profile_config_def profile_config_for_profile_def
        dsn_of_output_Ok bind_eq_Some_conv split: sum.splits prod.splits if_splits dest!: dsn_wait_Ok)

lemma resolve_dsn_post:
  "post (resolve_dsn core oe h profile ctx) (\<lambda>x (rg', w'). case x of
     Inl f \<Rightarrow> rg' = finish_open h rg \<and> kf_handle_state f = None
   | Inr (c, dsn) \<Rightarrow> rg' = rg \<and> profile_has core profile c) (rg, w)"
proof (cases "core_profiles core")
  case None
  then show ?thesis
    by (simp add: resolve_dsn_def profile_has_def profile_lookup_def effective_config_def)
next
  case (Some profiles)
  show ?thesis
    unfolding resolve_dsn_def Some option.case post_bind on_world_post sum.case
  proof (rule postI)
    fix r w'
    assume r: "resolve_with_context (oe_dsn oe) profiles profile ctx w = Some (r, w')"
    show "post (case r of Inr x \<Rightarrow> ret x | Inl e \<Rightarrow> resolve_failed h ctx e) (\<lambda>x (rg', w'). case x of
       Inl f \<Rightarrow> rg' = finish_open h rg \<and> kf_handle_state f = None
     | Inr (c, dsn) \<Rightarrow> rg' = rg \<and> profile_has core profile c) (rg, w')"
    proof (cases r)
      case (Inl e)
      show ?thesis
        unfolding Inl sum.case by (rule post_mono[OF resolve_failed_gives_up]) (auto simp: gave_up_def split: sum.splits)
    next
      case (Inr x)
      with r Some show ?thesis
        by (cases x) (auto simp: profile_has_def profile_lookup_def effective_config_def dest!: resolved_profile)
    qed
  qed
qed

text \<open>How an opening with the reservation \<open>h\<close> ends.\<close>

definition healthy :: "backend_observation \<Rightarrow> bool" where
  "healthy obs \<longleftrightarrow> bo_connection obs = BcOk \<and> bo_transaction obs = TsIdle"

definition opening_ends ::
  "core \<Rightarrow> string \<Rightarrow> string \<Rightarrow> 'o registry \<Rightarrow>
     core_failure + (core_failure + reply) \<times> ('b, 'w) spawned \<Rightarrow> 'o registry \<Rightarrow> bool" where
  "opening_ends core h profile rg x rg' \<longleftrightarrow> (case x of
     Inl f \<Rightarrow> rg' = finish_open h rg \<and> kf_handle_state f = None
   | Inr (r, thread) \<Rightarrow> (case r of
       Inl f \<Rightarrow> rg' = finish_open h rg \<and> rg_lifecycle rg \<noteq> Running \<and>
         f = failure_process (core_error ServerStopping) \<and> (\<exists>b stop. thread = StopOnly b stop)
     | Inr e \<Rightarrow> \<exists>c database obs b. thread = Serving b c \<and> profile_has core profile c \<and> healthy obs \<and>
         publish_open h profile c database obs rg = Some rg' \<and>
         e = handle_state_envelope (Some (published_state (published_new h database obs)))
           (JObject [(''handle'', JString h)])))"

lemma opening_gave_up: "gave_up h rg x rg' \<Longrightarrow> opening_ends core h profile rg x rg'"
  by (auto simp: gave_up_def opening_ends_def split: sum.splits)

lemma publish_or_stop_ends:
  assumes "profile_has core profile c" and "healthy obs"
  shows "post (publish_or_stop stop h profile c database obs b)
    (\<lambda>x (rg', w'). opening_ends core h profile rg x rg') (rg, w)"
proof (cases "publish_open h profile c database obs rg")
  case None
  then have "rg_lifecycle rg \<noteq> Running" by (auto simp: publish_open_def)
  with None show ?thesis by (simp add: publish_or_stop_def opening_ends_def)
next
  case (Some rg')
  with assms show ?thesis by (auto simp: publish_or_stop_def opening_ends_def)
qed

lemma start_worker_ends:
  assumes "profile_has core profile c" and "healthy obs"
  shows "post (start_worker oe stop h profile c database obs b)
    (\<lambda>x (rg', w'). opening_ends core h profile rg x rg') (rg, w)"
  by (simp add: start_worker_def opening_gave_up publish_or_stop_ends[OF assms])

lemma connect_dsn_ends:
  assumes "profile_has core profile c"
  shows "post (connect_dsn oe stop h profile ctx (c, dsn))
    (\<lambda>x (rg', w'). opening_ends core h profile rg x rg') (rg, w)"
proof -
  have stopped: "post (stopped_open oe h ctx b)
      (\<lambda>x (rg', w'). opening_ends core h profile rg x rg') (rg, w)" for b w
    by (rule post_mono[OF stopped_open_gives_up]) (auto intro: opening_gave_up)
  have unhealthy: "post (unhealthy_open oe h ctx b)
      (\<lambda>x (rg', w'). opening_ends core h profile rg x rg') (rg, w)" for b w
    by (rule post_mono[OF unhealthy_open_gives_up]) (auto intro: opening_gave_up)
  show ?thesis
    unfolding connect_dsn_def prod.case post_bind[of "on_world m" for m] on_world_post
    by (rule post_any)
      (auto simp: opening_gave_up stopped unhealthy healthy_def Let_def
        intro!: start_worker_ends[OF assms] split: sum.split)
qed

lemma connect_and_publish_ends:
  "post (connect_and_publish core oe stop h profile ctx)
    (\<lambda>x (rg', w'). opening_ends core h profile rg x rg') (rg, w)"
  unfolding connect_and_publish_def post_bind
  by (rule post_mono[OF resolve_dsn_post])
    (auto simp: opening_gave_up connect_dsn_ends split: sum.splits)

section \<open>A successful opening\<close>

text \<open>The handle that \<open>publish_open\<close> adds.\<close>

lemma publish_open_current:
  assumes "publish_open h profile c database obs rg = Some rg'" and "bt_ok (rg_handles rg)"
  shows "published h rg' = Some (published_new h database obs)" and "rg_lifecycle rg = Running"
    and "current_state h rg' = Some (published_state (published_new h database obs))"
  using assms by (auto simp: publish_open_def published_def current_state_def bt.get_insert split: if_splits)

lemma published_new_state:
  "healthy obs \<Longrightarrow> published_state (published_new h database obs) =
     handle_state_new h database CsOk TsIdle (bo_busy obs) False"
  by (simp add: healthy_def published_state_def published_new_def)

lemma opened_envelope_ok:
  assumes "healthy obs"
  shows "envelope_ok (handle_state_envelope (Some (published_state (published_new h database obs))) v)"
  using handle_state_new_ok[of CsOk h database TsIdle "bo_busy obs" False]
  by (intro published_envelope_ok[where s = "published_state (published_new h database obs)"])
    (simp_all add: handle_state_envelope_def envelope_success_def published_new_state[OF assms])

lemma on_registry_run: "on_registry f (rg, s) = Some (Ok (), (f rg, s))"
  by (simp add: on_registry_def modify_def)

lemma read_state_run: "f w = (a, w') \<Longrightarrow> read_state f (rg, w) = Some (Ok a, (rg, w'))"
  by (simp add: read_state_def on_backend_def)

lemma opened_facts:
  assumes "publish_open h profile c database obs rg = Some rg'" and "bt_ok (rg_handles rg)"
    and "healthy obs"
    and e: "e = handle_state_envelope (Some (published_state (published_new h database obs))) v"
  shows "envelope_ok e" and "env_handle_state e = current_state h rg'" and "rg_lifecycle rg = Running"
    and "current_state h rg' = Some (handle_state_new h database CsOk TsIdle (bo_busy obs) False)"
proof -
  note opened = publish_open_current[OF assms(1,2)]
  show "envelope_ok e" unfolding e by (rule opened_envelope_ok) fact
  show "env_handle_state e = current_state h rg'" unfolding e opened(3)
    by (simp add: handle_state_envelope_def envelope_success_def)
  show "rg_lifecycle rg = Running" by (rule opened(2))
  show "current_state h rg' = Some (handle_state_new h database CsOk TsIdle (bo_busy obs) False)"
    unfolding opened(3) published_new_state[OF assms(3)] ..
qed

text \<open>The section an opening ends with.\<close>

lemma opening_section:
  assumes ends: "opening_ends core h profile rg x rg'"
    and pending: "bt_get h (rg_pending rg) = Some p" "po_profile p = profile"
  shows "\<exists>l. critical_section core \<lparr>sy_registry = rg, sy_executing = ex\<rparr> l
      \<lparr>sy_registry = rg', sy_executing = ex\<rparr> \<and> (l = Finish h \<or> l = PublishOpen h)"
proof -
  have finish: ?thesis if "rg' = finish_open h rg"
    unfolding that by (rule exI[of _ "Finish h"]) (simp add: section_finish)
  show ?thesis
  proof (cases x)
    case (Inl f)
    with ends have "rg' = finish_open h rg" by (simp add: opening_ends_def)
    then show ?thesis by (rule finish)
  next
    case (Inr y)
    obtain r thread where y: "y = (r, thread)" by fastforce
    show ?thesis
    proof (cases r)
      case (Inl f)
      with ends Inr y have "rg' = finish_open h rg" by (simp add: opening_ends_def)
      then show ?thesis by (rule finish)
    next
      case (Inr e)
      with ends \<open>x = Ok y\<close> y pending obtain found database obs where
        "profile_lookup core (po_profile p) = Ok found"
        "publish_open h (po_profile p) (effective_config core found) database obs rg = Some rg'"
        by (auto simp: opening_ends_def profile_has_def)
      from section_publish_open[OF pending(1) this] show ?thesis by blast
    qed
  qed
qed

lemma open_database_ends:
  assumes run: "open_database core oe stop token cancelled profile (rg, w) = Some (x, (rg', w'))"
  shows "(rg' = rg \<and> (\<exists>e. reserve_open core profile rg = (Err e, rg) \<and> x = Err (failure_process e))) \<or>
    (\<exists>h limits rg1. reserve_open core profile rg = (Ok (h, limits), rg1) \<and>
       opening_ends core h profile rg1 x rg')"
proof (cases "reserve_open core profile rg")
  case (Pair r rg1)
  show ?thesis
  proof (cases r)
    case (Inl e)
    with Pair have "rg1 = rg" by (auto dest: reserve_open_Err)
    with Inl Pair run show ?thesis
      by (auto simp: open_database_def bind_def get_registry_run throw_def)
  next
    case (Inr limits)
    obtain h timeout grace where limits: "limits = (h, timeout, grace)" by (cases limits)
    obtain t w1 where w1: "rc_now stop w = (t, w1)" by fastforce
    from run have "connect_and_publish core oe stop h profile \<lparr>rc_cancelled = cancelled,
        rc_stopping = token h, rc_now = rc_now stop, rc_deadline = t + timeout, rc_grace = grace\<rparr>
        (rg1, w1) = Some (x, (rg', w'))"
      by (simp add: open_database_def bind_def get_registry_run Pair Inr limits on_registry_run
          read_state_run w1)
    from postD[OF connect_and_publish_ends this] Pair Inr limits show ?thesis by auto
  qed
qed

lemma reserved_pending:
  assumes "reserve_open core profile rg = (Ok (h, limits), rg1)" and "bt_ok (rg_pending rg)"
  shows "bt_get h (rg_pending rg1) = Some \<lparr>po_profile = profile, po_cancelled = False\<rparr>"
    and "rg_handles rg1 = rg_handles rg" and "rg_lifecycle rg1 = Running"
  using reserve_open_Ok[OF assms(1)] assms(2) by (auto simp: bt.get_insert)

section \<open>An opening on a sample server\<close>

text \<open>
  A backend that is healthy and idle, and a core without profiles: the DSN is the core's own.
\<close>

definition sample_ops :: "(bool, unit) backend_ops" where
  "sample_ops = \<lparr>
     op_open_read = (\<lambda>ctx. throw (plain_failure Internal gone False)),
     op_open_write = (\<lambda>ctx. throw (plain_failure Internal gone False)),
     op_get_schema = (\<lambda>c ctx. throw (plain_failure Internal gone False)),
     op_query = (\<lambda>r c ctx. throw (plain_failure Internal gone False)),
     op_commit = (\<lambda>ctx. throw (plain_failure Internal gone False)),
     op_rollback = (\<lambda>ctx. throw (plain_failure Internal gone False)),
     op_close = (\<lambda>ctx. bind (modify (\<lambda>(b, w). (False, w))) (\<lambda>_. ret (Closed gone True))),
     op_observe = (\<lambda>(b, w). if b then \<lparr>bo_connection = BcOk, bo_transaction = TsIdle, bo_busy = False\<rparr>
       else gone),
     op_shutdown = (\<lambda>ctx. bind (modify (\<lambda>(b, w). (False, w))) (\<lambda>_. ret Verified))\<rparr>"

definition sample_open_env :: "(bool, unit) open_env" where
  "sample_open_env = \<lparr>
     oe_dsn = \<lparr>de_create = (\<lambda>w. (True, w)), de_spawn = (\<lambda>_ w. (True, w)),
       de_try_wait = (\<lambda>w. (WaitFailed, w)), de_read = (\<lambda>w. (None, w)), de_terminate = (\<lambda>w. w),
       de_wait = (\<lambda>w. w), de_sleep = (\<lambda>w. w), de_remove = (\<lambda>w. w)\<rparr>,
     oe_factory = (\<lambda>dsn ctx w. Some (Ok (True, ''app''), w)),
     oe_ops = sample_ops, oe_drop = snd, oe_spawn = (\<lambda>w. (True, w))\<rparr>"

definition sample_stop :: "unit request_context" where
  "sample_stop = \<lparr>rc_cancelled = (\<lambda>w. (False, w)), rc_stopping = (\<lambda>w. (False, w)),
     rc_now = (\<lambda>w. (0, w)), rc_deadline = 0, rc_grace = 0\<rparr>"

definition sample_opening :: "((core_failure + (core_failure + reply) \<times> (bool, unit) spawned) \<times>
    unit registry \<times> unit) option" where
  "sample_opening = open_database sample_core sample_open_env sample_stop (\<lambda>h w. (False, w))
     (\<lambda>w. (False, w)) ''main'' (registry_new, ())"

lemma sample_opening_run:
  "\<exists>e. sample_opening = Some (Ok (Ok e, Serving True config_default), (sample_registry sample_entry, ()))"
proof -
  have "reserve_open sample_core ''main'' registry_new =
      (Ok (handle_name 1, connection_timeout config_default, cancel_drain_grace config_default),
       registry_new\<lparr>rg_next := 2,
         rg_pending := [(handle_name 1, \<lparr>po_profile = ''main'', po_cancelled = False\<rparr>)]\<rparr>)"
    by (simp add: reserve_open_def registry_new_def sample_lookup sample_limits allocate_handle_def
        saturating_succ_def profile_handles_def profile_pending_def saturating_add_def)
  note run = this get_registry_run on_registry_run read_state_def on_world_def on_backend_def bind_def
    attempt_def get_state_def ret_def
  have timeout: "connection_timeout config_default \<noteq> 0"
    by (simp add: connection_timeout_def from_secs_def config_default_eq default_unchecked_def
        config_constants)
  have core: "core_profiles sample_core = None" "core_config sample_core = config_default"
    by (simp_all add: sample_core_def)
  show ?thesis
    unfolding sample_opening_def open_database_def
    by (simp add: run sample_stop_def connect_and_publish_def resolve_dsn_def core connect_dsn_def
        sample_open_env_def sample_ops_def any_stop_def or_read_def expired_def past_def timeout
        start_worker_def publish_or_stop_def Let_def)
      (simp add: publish_open_def registry_new_def bt_remove_def sample_registry_def sample_entry_def
        bind_def on_registry_run ret_def)
qed

section \<open>Properties\<close>





end
