(* ===== verification/Shutdown.thy ===== *)
theory Shutdown
  imports Opening "HOL-Library.Multiset"
begin

text \<open>
  \<open>Core::shutdown\<close> and the loops it waits in. The owner's sections under the mutex are those of
  \<open>Registry\<close>; between them, wherever the code awaits, the other threads run, and what they do
  to the registry and the world is the environment's.
\<close>

section \<open>Environment\<close>

record ('o, 'w) shutdown_env =
  sh_now :: "(nat, 'w) reader"
  sh_yield :: "'o registry \<times> 'w \<Rightarrow> 'o registry \<times> 'w"  \<comment> \<open>\<open>yield_now().await\<close>\<close>
  sh_send :: "string \<Rightarrow> nat \<Rightarrow> nat \<Rightarrow> 'o registry \<times> 'w \<Rightarrow> bool \<times> ('o registry \<times> 'w)"
    \<comment> \<open>\<open>timeout(remaining, sender.send(request))\<close>, with the request's deadline; false: elapsed\<close>
  sh_reply :: "string \<Rightarrow> nat \<Rightarrow> 'o registry \<times> 'w \<Rightarrow> shutdown_entry option \<times> ('o registry \<times> 'w)"
    \<comment> \<open>\<open>timeout(remaining, rx)\<close>\<close>
  sh_cancel :: "'w \<Rightarrow> 'w"  \<comment> \<open>\<open>self.shutdown.cancel()\<close>\<close>

definition await :: "('o registry \<times> 'w \<Rightarrow> 'a \<times> ('o registry \<times> 'w)) \<Rightarrow> ('o, 'w, 'a) open_op" where
  "await f s = (case f s of (a, s') \<Rightarrow> Some (Ok a, s'))"

definition yield_now :: "('o, 'w) shutdown_env \<Rightarrow> ('o, 'w, unit) open_op" where
  "yield_now env = modify (sh_yield env)"

definition remaining :: "('o, 'w) shutdown_env \<Rightarrow> nat \<Rightarrow> ('o, 'w, nat) open_op" where
  "remaining env deadline =
     bind (read_state (sh_now env)) (\<lambda>t. ret (saturating_sub deadline t))"

section \<open>Joining\<close>

definition join :: "string \<Rightarrow> ('o, 'w, bool) open_op" where
  "join h s = (case join_worker h (fst s) of (b, rg) \<Rightarrow> Some (Ok b, (rg, snd s)))"

definition join_ready :: "string \<Rightarrow> 'o registry \<Rightarrow> bool" where
  "join_ready h rg = (case bt_get h (rg_handles rg) of
     None \<Rightarrow> True | Some e \<Rightarrow> we_join e \<noteq> Some False)"

definition join_closed_body ::
  "('o, 'w) shutdown_env \<Rightarrow> string \<Rightarrow> nat \<Rightarrow> unit \<Rightarrow> ('o, 'w, (unit, bool) flow) open_op" where
  "join_closed_body env h deadline = (\<lambda>_.
     bind get_registry (\<lambda>rg.
     if join_ready h rg then bind (join h) (\<lambda>b. ret (Break b))
     else bind (read_state (sh_now env)) (\<lambda>t.
     if deadline \<le> t then ret (Break False)
     else bind (yield_now env) (\<lambda>_. ret (Continue ())))))"

definition join_closed_worker ::
  "('o, 'w) shutdown_env \<Rightarrow> string \<Rightarrow> nat \<Rightarrow> ('o, 'w, bool) open_op" where
  "join_closed_worker env h deadline = eff_loop (join_closed_body env h deadline) ()"

section \<open>One worker\<close>

definition request_shutdown ::
  "('o, 'w) shutdown_env \<Rightarrow> nat \<Rightarrow> string \<Rightarrow> nat \<Rightarrow> ('o, 'w, shutdown_entry) open_op" where
  "request_shutdown env deadline h r =
     bind (read_state (sh_now env)) (\<lambda>t.
     bind (await (sh_send env h (t + r) r)) (\<lambda>sent.
     if \<not> sent then ret (entry_uncertain h ''enqueue'')
     else bind (remaining env deadline) (\<lambda>r.
     if r = 0 then ret (entry_uncertain h ''deadline'')
     else bind (await (sh_reply env h r)) (\<lambda>reply.
     case reply of
       None \<Rightarrow> ret (entry_uncertain h ''deadline'')
     | Some entry \<Rightarrow>
         bind (join h) (\<lambda>joined. ret (if joined then entry else entry_uncertain h ''join''))))))"

definition join_closed_entry ::
  "('o, 'w) shutdown_env \<Rightarrow> nat \<Rightarrow> string \<Rightarrow> ('o, 'w, shutdown_entry) open_op" where
  "join_closed_entry env deadline h =
     bind (join_closed_worker env h deadline) (\<lambda>joined.
     ret (if joined then entry_verified h else entry_uncertain h ''join''))"

definition shutdown_worker ::
  "('o, 'w) shutdown_env \<Rightarrow> nat \<Rightarrow> string \<Rightarrow> ('o, 'w, shutdown_entry) open_op" where
  "shutdown_worker env deadline h =
     bind (remaining env deadline) (\<lambda>r.
     if r = 0 then ret (entry_uncertain h ''deadline'')
     else bind get_registry (\<lambda>rg. case bt_get h (rg_handles rg) of
       None \<Rightarrow> ret (entry_uncertain h ''missing'')
     | Some e \<Rightarrow>
         if ph_closed (we_published e) then join_closed_entry env deadline h
         else request_shutdown env deadline h r))"

section \<open>Reservations still pending\<close>

definition pending_body ::
  "('o, 'w) shutdown_env \<Rightarrow> nat \<Rightarrow> string \<Rightarrow> unit \<Rightarrow>
     ('o, 'w, (unit, shutdown_entry option) flow) open_op" where
  "pending_body env deadline h = (\<lambda>_.
     bind get_registry (\<lambda>rg.
     if bt_get h (rg_pending rg) = None then ret (Break None)
     else bind (read_state (sh_now env)) (\<lambda>t.
     if deadline \<le> t then ret (Break (Some (entry_uncertain h ''pending-open'')))
     else bind (yield_now env) (\<lambda>_. ret (Continue ())))))"

definition pending_wait ::
  "('o, 'w) shutdown_env \<Rightarrow> nat \<Rightarrow> string \<Rightarrow> ('o, 'w, shutdown_entry option) open_op" where
  "pending_wait env deadline h = eff_loop (pending_body env deadline h) ()"

section \<open>The report\<close>

fun for_ids :: "('k \<Rightarrow> ('s, 'e, 'a) eff) \<Rightarrow> 'k list \<Rightarrow> ('s, 'e, 'a list) eff" where
  "for_ids f [] = ret []"
| "for_ids f (h # hs) = bind (f h) (\<lambda>x. bind (for_ids f hs) (\<lambda>xs. ret (x # xs)))"

definition some_entries :: "'a option list \<Rightarrow> 'a list" where
  "some_entries xs = concat (map (\<lambda>x. case x of None \<Rightarrow> [] | Some a \<Rightarrow> [a]) xs)"

definition freeze :: "shutdown_report \<Rightarrow> ('o, 'w, shutdown_report) open_op" where
  "freeze report s = (case shutdown_freeze report (fst s) of (r, rg) \<Rightarrow> Some (Ok r, (rg, snd s)))"

definition shutdown_owner ::
  "('o, 'w) shutdown_env \<Rightarrow> string list \<Rightarrow> string list \<Rightarrow> nat \<Rightarrow> ('o, 'w, shutdown_report) open_op"
where
  "shutdown_owner env handles pending deadline =
     bind (for_ids (shutdown_worker env deadline) handles) (\<lambda>workers.
     bind (for_ids (pending_wait env deadline) pending) (\<lambda>opens.
     freeze (sort_report (workers @ some_entries opens))))"

definition wait_body ::
  "('o, 'w) shutdown_env \<Rightarrow> unit \<Rightarrow> ('o, 'w, (unit, shutdown_report) flow) open_op" where
  "wait_body env = (\<lambda>_. bind get_registry (\<lambda>rg. case rg_frozen rg of
     Some report \<Rightarrow> ret (Break report)
   | None \<Rightarrow> bind (yield_now env) (\<lambda>_. ret (Continue ()))))"

definition core_shutdown_total :: "core \<Rightarrow> nat" where
  "core_shutdown_total core = (case core_profiles core of
     None \<Rightarrow> shutdown_total (core_config core) | Some profiles \<Rightarrow> file_shutdown_total profiles)"

definition shutdown :: "core \<Rightarrow> ('o, 'w) shutdown_env \<Rightarrow> ('o, 'w, shutdown_report) open_op" where
  "shutdown core env =
     bind get_registry (\<lambda>rg. case shutdown_begin rg of
       (AlreadyFrozen report, _) \<Rightarrow> ret report
     | (NotOwner, _) \<Rightarrow> eff_loop (wait_body env) ()
     | (Owner handles pending, rg') \<Rightarrow>
         bind (on_registry (\<lambda>_. rg')) (\<lambda>_.
         bind (read_state (sh_now env)) (\<lambda>t.
         bind (change_world (sh_cancel env)) (\<lambda>_.
         shutdown_owner env handles pending (t + core_shutdown_total core)))))"

section \<open>Running a shutdown\<close>

lemma await_post [simp, post_rules]: "post (await f) Q s = Q (Ok (fst (f s))) (snd (f s))"
  by (simp add: await_def post_def case_prod_beta)

lemma yield_now_post [simp, post_rules]: "post (yield_now env) Q s = Q (Ok ()) (sh_yield env s)"
  by (simp add: yield_now_def)

lemma join_post [simp, post_rules]:
  "post (join h) Q (rg, w) = Q (Ok (fst (join_worker h rg))) (snd (join_worker h rg), w)"
  by (simp add: join_def post_def case_prod_beta)

lemma remaining_post [simp, post_rules]:
  "post (remaining env deadline) Q (rg, w) =
     Q (Ok (saturating_sub deadline (fst (sh_now env w)))) (rg, snd (sh_now env w))"
  by (simp add: remaining_def)

lemma freeze_post [simp, post_rules]:
  "post (freeze report) Q (rg, w) = Q (Ok (fst (shutdown_freeze report rg))) (snd (shutdown_freeze report rg), w)"
  by (simp add: freeze_def post_def case_prod_beta)

lemma for_ids_post:
  assumes "\<And>h s. I s \<Longrightarrow> post (f h) (\<lambda>x s'. \<exists>a. x = Ok a \<and> P h a s' \<and> I s') s"
    and "\<And>h a k s s'. P h a s \<Longrightarrow> post (f k) (\<lambda>x s'. P h a s') s"
    and "I s"
  shows "post (for_ids f hs) (\<lambda>x s'. \<exists>as. x = Ok as \<and> list_all2 (\<lambda>h a. P h a s') hs as \<and> I s') s"
  using assms(3)
proof (induction hs arbitrary: s)
  case Nil
  then show ?case by simp
next
  case (Cons h hs)
  have keep: "post (for_ids f hs) (\<lambda>x s'. P h a s') s" if "P h a s" for a s
    using that
  proof (induction hs arbitrary: s)
    case Nil
    then show ?case by simp
  next
    case (Cons k hs)
    show ?case
      unfolding for_ids.simps post_bind
      by (rule post_mono[OF post_conj[OF assms(2)[OF Cons.prems, of k] post_True]])
        (auto split: sum.split intro: post_mono[OF Cons.IH])
  qed
  show ?case
    unfolding for_ids.simps post_bind
  proof (rule post_mono[OF assms(1)[OF Cons.prems]])
    fix x s1
    assume "\<exists>a. x = Ok a \<and> P h a s1 \<and> I s1"
    then obtain a where x: "x = Ok a" "P h a s1" "I s1" by blast
    show "case x of Inl e \<Rightarrow> \<exists>as. Err e = Ok as \<and> list_all2 (\<lambda>h a. P h a s1) (h # hs) as \<and> I s1
      | Inr a \<Rightarrow> post (for_ids f hs) (\<lambda>r s'. case r of
          Inl e \<Rightarrow> \<exists>as. Err e = Ok as \<and> list_all2 (\<lambda>h a. P h a s') (h # hs) as \<and> I s'
        | Inr xs \<Rightarrow> post (ret (a # xs)) (\<lambda>x s'. \<exists>as. x = Ok as \<and>
            list_all2 (\<lambda>h a. P h a s') (h # hs) as \<and> I s') s') s1"
      unfolding x(1) sum.case
      by (rule post_mono[OF post_conj[OF Cons.IH[OF x(3)] keep[OF x(2)]]]) auto
  qed
qed

text \<open>The thread of a worker is known to have ended.\<close>

definition joined :: "string \<Rightarrow> 'o registry \<Rightarrow> bool" where
  "joined h rg \<longleftrightarrow> (case bt_get h (rg_handles rg) of None \<Rightarrow> True | Some e \<Rightarrow> we_join e = None)"

definition no_reservation :: "string \<Rightarrow> 'o registry \<Rightarrow> bool" where
  "no_reservation h rg \<longleftrightarrow> bt_get h (rg_pending rg) = None"

text \<open>What the other threads keep while the owner waits.\<close>

definition steady :: "('o registry \<Rightarrow> bool) \<Rightarrow> ('o, 'w) shutdown_env \<Rightarrow> bool" where
  "steady P env \<longleftrightarrow> (\<forall>s. P (fst s) \<longrightarrow> P (fst (sh_yield env s)) \<and>
     (\<forall>h t r. P (fst (snd (sh_send env h t r s)))) \<and> (\<forall>h r. P (fst (snd (sh_reply env h r s)))))"

lemma steadyD:
  assumes "steady P env" and "P (fst s)"
  shows "P (fst (sh_yield env s))" "P (fst (snd (sh_send env h t r s)))" "P (fst (snd (sh_reply env h r s)))"
  using assms unfolding steady_def by blast+

lemma join_worker_joined: "fst (join_worker h rg) \<Longrightarrow> joined h (snd (join_worker h rg))"
  by (auto simp: join_worker_def joined_def bt_get_modify split: option.split bool.split)

text \<open>Joining a worker only forgets a join handle.\<close>

lemma join_worker_keeps:
  "joined k rg \<Longrightarrow> joined k (snd (join_worker h rg))"
  "rg_pending (snd (join_worker h rg)) = rg_pending rg"
  "rg_frozen (snd (join_worker h rg)) = rg_frozen rg"
  by (auto simp: join_worker_def joined_def bt_get_modify modify_entry_def split: option.splits bool.splits)

text \<open>A property of the registry kept by the other threads and by joining is kept throughout.\<close>

definition kept :: "('o registry \<Rightarrow> bool) \<Rightarrow> ('o, 'w) shutdown_env \<Rightarrow> bool" where
  "kept P env \<longleftrightarrow> steady P env \<and> (\<forall>h rg. P rg \<longrightarrow> P (snd (join_worker h rg)))"

lemma keptD:
  assumes "kept P env" and "P rg"
  shows "P (fst (sh_yield env (rg, w)))" "P (fst (snd (sh_send env h t r (rg, w))))"
    "P (fst (snd (sh_reply env h r (rg, w))))" "P (snd (join_worker h rg))"
  using assms steadyD[of P env "(rg, w)"] by (auto simp: kept_def)

lemma join_closed_post:
  assumes keep: "kept P env" and "P (fst s)"
  shows "post (join_closed_worker env h deadline)
    (\<lambda>x s'. \<exists>b. x = Ok b \<and> (b \<longrightarrow> joined h (fst s')) \<and> P (fst s')) s"
  unfolding join_closed_worker_def
proof (rule post_loop[where I = "\<lambda>_ s. P (fst s)"])
  fix x :: unit and s :: "'a registry \<times> 'b"
  assume "P (fst s)"
  obtain rg w where s: "s = (rg, w)" by fastforce
  with \<open>P (fst s)\<close> have P: "P rg" by simp
  show "post (join_closed_body env h deadline x) (\<lambda>r s'. case r of
      Inl e \<Rightarrow> \<exists>b. Err e = Ok b \<and> (b \<longrightarrow> joined h (fst s')) \<and> P (fst s')
    | Inr (Continue x') \<Rightarrow> P (fst s')
    | Inr (Break a) \<Rightarrow> \<exists>b. Ok a = Ok b \<and> (b \<longrightarrow> joined h (fst s')) \<and> P (fst s')) s"
    using keptD[OF keep P] join_worker_joined[of h rg]
    by (auto simp: join_closed_body_def s P)
qed (rule assms(2))

lemma pending_wait_post:
  assumes keep: "kept P env" and "P (fst s)"
  shows "post (pending_wait env deadline h)
    (\<lambda>x s'. \<exists>b. x = Ok b \<and> (case b of None \<Rightarrow> no_reservation h (fst s') | Some e \<Rightarrow>
       e = entry_uncertain h ''pending-open'') \<and> P (fst s')) s"
  unfolding pending_wait_def
proof (rule post_loop[where I = "\<lambda>_ s. P (fst s)"])
  fix x :: unit and s :: "'a registry \<times> 'b"
  assume "P (fst s)"
  obtain rg w where s: "s = (rg, w)" by fastforce
  with \<open>P (fst s)\<close> have P: "P rg" by simp
  show "post (pending_body env deadline h x) (\<lambda>r s'. case r of
      Inl e \<Rightarrow> \<exists>b. Err e = Ok b \<and> (case b of None \<Rightarrow> no_reservation h (fst s')
        | Some e \<Rightarrow> e = entry_uncertain h ''pending-open'') \<and> P (fst s')
    | Inr (Continue x') \<Rightarrow> P (fst s')
    | Inr (Break a) \<Rightarrow> \<exists>b. Ok a = Ok b \<and> (case b of None \<Rightarrow> no_reservation h (fst s')
        | Some e \<Rightarrow> e = entry_uncertain h ''pending-open'') \<and> P (fst s')) s"
    using keptD[OF keep P] by (simp add: pending_body_def s P no_reservation_def)
qed (rule assms(2))

text \<open>An entry of the report names its worker, and is trustworthy when it says verified.\<close>

definition entry_for :: "string \<Rightarrow> shutdown_entry \<Rightarrow> 'o registry \<times> 'w \<Rightarrow> bool" where
  "entry_for h e s \<longleftrightarrow> se_handle e = h \<and> (se_outcome e = OutcomeVerified \<longrightarrow> joined h (fst s))"

lemma entry_uncertain_for [simp]: "entry_for h (entry_uncertain h stage) s"
  by (simp add: entry_for_def entry_uncertain_def)

definition names_workers :: "('o, 'w) shutdown_env \<Rightarrow> bool" where
  "names_workers env \<longleftrightarrow> (\<forall>h r s e. fst (sh_reply env h r s) = Some e \<longrightarrow> se_handle e = h)"

lemma request_shutdown_post:
  assumes keep: "kept P env" and P: "P rg" and names: "names_workers env"
  shows "post (request_shutdown env deadline h r)
    (\<lambda>x s'. \<exists>e. x = Ok e \<and> entry_for h e s' \<and> P (fst s')) (rg, w)"
proof -
  obtain t w1 where w1: "sh_now env w = (t, w1)" by fastforce
  obtain sent rg2 w2 where s2: "sh_send env h (t + r) r (rg, w1) = (sent, (rg2, w2))"
    using prod_cases3 by blast
  obtain t3 w3 where w3: "sh_now env w2 = (t3, w3)" by fastforce
  obtain reply rg4 w4 where s4: "sh_reply env h (saturating_sub deadline t3) (rg2, w3) = (reply, (rg4, w4))"
    using prod_cases3 by blast
  have P2: "P rg2" using keptD(2)[OF keep P, of h "t + r" r w1] by (simp add: s2)
  have P4: "P rg4" using keptD(3)[OF keep P2, of h _ w3] by (metis s4 fst_conv snd_conv)
  have P5: "P (snd (join_worker h rg4))" by (rule keptD(4)[OF keep P4])
  have named: "se_handle e = h" if "reply = Some e" for e
    using names that s4 unfolding names_workers_def by (metis fst_conv)
  show ?thesis
    using P2 P4 P5 named join_worker_joined[of h rg4]
    by (cases reply) (auto simp: request_shutdown_def w1 s2 w3 s4 entry_for_def entry_uncertain_def)
qed

lemma join_closed_entry_post:
  assumes keep: "kept P env" and "P rg"
  shows "post (join_closed_entry env deadline h)
    (\<lambda>x s'. \<exists>e. x = Ok e \<and> entry_for h e s' \<and> P (fst s')) (rg, w)"
  unfolding join_closed_entry_def post_bind
  by (rule post_mono[OF join_closed_post[OF keep, of "(rg, w)"]])
    (auto simp: assms entry_for_def entry_verified_def entry_uncertain_def)

lemma shutdown_worker_post:
  assumes keep: "kept P env" and P: "P (fst s)" and names: "names_workers env"
  shows "post (shutdown_worker env deadline h)
    (\<lambda>x s'. \<exists>e. x = Ok e \<and> entry_for h e s' \<and> P (fst s')) s"
proof -
  obtain rg w where s: "s = (rg, w)" by fastforce
  with P have rg: "P rg" by simp
  show ?thesis
    using join_closed_entry_post[OF keep rg] request_shutdown_post[OF keep rg names]
    by (simp add: shutdown_worker_def s rg split: option.split)
qed

text \<open>The other threads keep joined workers joined, open no database and freeze no report.\<close>

definition orderly :: "('o, 'w) shutdown_env \<Rightarrow> bool" where
  "orderly env \<longleftrightarrow> (\<forall>h. steady (joined h) env \<and> steady (no_reservation h) env) \<and>
     steady (\<lambda>rg. rg_frozen rg = None) env \<and> names_workers env"

lemma orderly_kept:
  assumes "orderly env"
  shows "kept (joined h) env" "kept (no_reservation h) env" "kept (\<lambda>rg. rg_frozen rg = None) env"
    "names_workers env"
  using assms by (auto simp: orderly_def kept_def no_reservation_def join_worker_keeps)

lemma kept_conj: "kept P env \<Longrightarrow> kept Q env \<Longrightarrow> kept (\<lambda>rg. P rg \<and> Q rg) env"
  unfolding kept_def steady_def by blast

lemma kept_all: "(\<And>x. kept (P x) env) \<Longrightarrow> kept (\<lambda>rg. \<forall>x. C x \<longrightarrow> P x rg) env"
  unfolding kept_def steady_def by blast

lemma shutdown_worker_keeps:
  assumes env: "orderly env" and "entry_for h a s"
  shows "post (shutdown_worker env deadline k) (\<lambda>x s'. entry_for h a s') s"
proof (cases "se_outcome a = OutcomeVerified")
  case True
  with assms have "joined h (fst s)" by (simp add: entry_for_def)
  from shutdown_worker_post[OF orderly_kept(1)[OF env] this orderly_kept(4)[OF env]]
  show ?thesis by (rule post_mono) (use assms(2) True in \<open>auto simp: entry_for_def\<close>)
next
  case False
  with assms(2) have "entry_for h a s'" for s' by (simp add: entry_for_def)
  then show ?thesis by (intro post_any)
qed

lemma workers_post:
  assumes env: "orderly env" and keep: "kept P env" and P: "P (fst s)"
  shows "post (for_ids (shutdown_worker env deadline) hs)
    (\<lambda>x s'. \<exists>ws. x = Ok ws \<and> list_all2 (\<lambda>h e. entry_for h e s') hs ws \<and> P (fst s')) s"
proof (rule for_ids_post)
  show "post (shutdown_worker env deadline h) (\<lambda>x s'. \<exists>a. x = Ok a \<and> entry_for h a s' \<and> P (fst s')) s"
    if "P (fst s)" for h s
    by (rule shutdown_worker_post[where P = P, OF keep that orderly_kept(4)[OF env]])
  show "post (shutdown_worker env deadline k) (\<lambda>x s'. entry_for h a s') s" if "entry_for h a s" for h a k s
    by (rule shutdown_worker_keeps[OF env that])
qed (rule P)

text \<open>A reservation is gone, or is reported uncertain.\<close>

definition open_for :: "string \<Rightarrow> shutdown_entry option \<Rightarrow> 'o registry \<times> 'w \<Rightarrow> bool" where
  "open_for h b s \<longleftrightarrow> (case b of None \<Rightarrow> no_reservation h (fst s)
     | Some e \<Rightarrow> e = entry_uncertain h ''pending-open'')"

lemma opens_post:
  assumes env: "orderly env" and keep: "kept P env" and P: "P (fst s)"
  shows "post (for_ids (pending_wait env deadline) ps)
    (\<lambda>x s'. \<exists>os. x = Ok os \<and> list_all2 (\<lambda>h b. open_for h b s') ps os \<and> P (fst s')) s"
proof (rule for_ids_post)
  show "post (pending_wait env deadline h) (\<lambda>x s'. \<exists>a. x = Ok a \<and> open_for h a s' \<and> P (fst s')) s"
    if "P (fst s)" for h s
    using pending_wait_post[where P = P, OF keep that, of deadline h] by (simp add: open_for_def)
  show "post (pending_wait env deadline k) (\<lambda>x s'. open_for h a s') s" if "open_for h a s" for h a k s
  proof (cases a)
    case None
    with that have "no_reservation h (fst s)" by (simp add: open_for_def)
    from pending_wait_post[OF orderly_kept(2)[OF env] this]
    show ?thesis by (rule post_mono) (auto simp: open_for_def None)
  next
    case (Some e)
    with that have "open_for h a s'" for s' by (simp add: open_for_def)
    then show ?thesis by (intro post_any)
  qed
qed (rule P)

lemma opens_report:
  "list_all2 (\<lambda>h b. open_for h b s) ps os \<Longrightarrow>
     subseq (map se_handle (some_entries os)) ps \<and>
     (report_verified (some_entries os) \<longrightarrow> (\<forall>h \<in> set ps. no_reservation h (fst s)))"
proof (induction rule: list_all2_induct)
  case Nil
  then show ?case by (simp add: some_entries_def)
next
  case (Cons h ps b os)
  then show ?case
    by (cases b) (auto simp: some_entries_def open_for_def entry_uncertain_def report_verified_def)
qed

lemma workers_report:
  "list_all2 (\<lambda>h e. entry_for h e s) hs ws \<Longrightarrow> map se_handle ws = hs \<and>
     (report_verified ws \<longrightarrow> (\<forall>h \<in> set hs. joined h (fst s)))"
  by (induction rule: list_all2_induct) (auto simp: entry_for_def report_verified_def)

lemma report_verified_sort [simp]: "report_verified (sort_report r) = report_verified r"
  by (simp add: report_verified_def sort_report_def list_all_iff)

lemma report_verified_append [simp]:
  "report_verified (xs @ ys) \<longleftrightarrow> report_verified xs \<and> report_verified ys"
  by (simp add: report_verified_def)

lemma mset_sort_report: "mset (map se_handle (sort_report r)) = mset (map se_handle r)"
  by (simp add: sort_report_def)

lemma freeze_fresh:
  assumes "rg_frozen rg = None"
  shows "shutdown_freeze report rg = (report, rg\<lparr>rg_lifecycle := Stopped, rg_frozen := Some report\<rparr>)"
  using assms by (simp add: shutdown_freeze_def Let_def)

text \<open>What the report of the owner says of the handles and reservations it found.\<close>

definition report_of ::
  "string list \<Rightarrow> string list \<Rightarrow> core_failure + shutdown_report \<Rightarrow> 'o registry \<times> 'w \<Rightarrow> bool" where
  "report_of hs ps x s \<longleftrightarrow> (\<exists>r. x = Ok r \<and> rg_frozen (fst s) = Some r \<and>
     rg_lifecycle (fst s) = Stopped \<and> sorted (map se_handle r) \<and>
     (\<exists>qs. subseq qs ps \<and> mset (map se_handle r) = mset (hs @ qs)) \<and>
     (report_verified r \<longrightarrow>
        (\<forall>h \<in> set hs. joined h (fst s)) \<and> (\<forall>h \<in> set ps. no_reservation h (fst s))))"

lemma frozen_report:
  assumes "list_all2 (\<lambda>h b. open_for h b (rg, w)) ps os" and "map se_handle ws = hs"
    and "report_verified ws \<Longrightarrow> \<forall>h \<in> set hs. joined h rg" and "rg_frozen rg = None"
  shows "post (freeze (sort_report (ws @ some_entries os))) (report_of hs ps) (rg, w)"
proof -
  have "mset (map se_handle (sort_report (ws @ some_entries os))) =
      mset (hs @ map se_handle (some_entries os))"
    unfolding mset_sort_report using assms(2) by simp
  with opens_report[OF assms(1)] assms(3) show ?thesis
    by (auto simp: freeze_fresh[OF assms(4)] report_of_def sort_report_def[symmetric] joined_def
        no_reservation_def) (auto simp: sort_report_def)
qed

lemma owner_post:
  fixes s :: "'o registry \<times> 'w"
  assumes env: "orderly env" and frozen: "rg_frozen (fst s) = None"
  shows "post (shutdown_owner env hs ps deadline) (report_of hs ps) s"
  unfolding shutdown_owner_def post_bind[of "for_ids (shutdown_worker env deadline) hs"]
proof (rule post_mono[OF workers_post[OF env orderly_kept(3)[OF env] frozen]])
  fix x :: "core_failure + shutdown_entry list" and s1 :: "'o registry \<times> 'w"
  assume "\<exists>ws. x = Ok ws \<and> list_all2 (\<lambda>h e. entry_for h e s1) hs ws \<and> rg_frozen (fst s1) = None"
  then obtain ws where x: "x = Ok ws" and ws: "list_all2 (\<lambda>h e. entry_for h e s1) hs ws"
    and frozen1: "rg_frozen (fst s1) = None" by blast
  let ?P = "\<lambda>rg :: 'o registry. rg_frozen rg = None \<and> (\<forall>h. h \<in> set hs \<and> report_verified ws \<longrightarrow> joined h rg)"
  have keep: "kept ?P env"
    by (rule kept_conj[OF orderly_kept(3)[OF env] kept_all[OF orderly_kept(1)[OF env]]])
  have P: "?P (fst s1)" using workers_report[OF ws] frozen1 by auto
  have "post (bind (for_ids (pending_wait env deadline) ps)
      (\<lambda>opens. freeze (sort_report (ws @ some_entries opens)))) (report_of hs ps) s1"
    unfolding post_bind
  proof (rule post_mono[OF opens_post[where P = ?P, OF env keep P]])
    fix y :: "core_failure + shutdown_entry option list" and s2 :: "'o registry \<times> 'w"
    assume "\<exists>os. y = Ok os \<and> list_all2 (\<lambda>h b. open_for h b s2) ps os \<and> ?P (fst s2)"
    then obtain os where os: "y = Ok os" "list_all2 (\<lambda>h b. open_for h b s2) ps os" "?P (fst s2)" by blast
    obtain rg w where s2: "s2 = (rg, w)" by fastforce
    have "post (freeze (sort_report (ws @ some_entries os))) (report_of hs ps) (rg, w)"
      using os(2,3) workers_report[OF ws] by (intro frozen_report) (auto simp: s2)
    then show "case y of Inl e \<Rightarrow> report_of hs ps (Err e) s2
      | Inr os \<Rightarrow> post (freeze (sort_report (ws @ some_entries os))) (report_of hs ps) s2"
      by (simp add: os(1) s2)
  qed
  then show "case x of Inl e \<Rightarrow> report_of hs ps (Err e) s1
    | Inr ws \<Rightarrow> post (bind (for_ids (pending_wait env deadline) ps)
        (\<lambda>opens. freeze (sort_report (ws @ some_entries opens)))) (report_of hs ps) s1"
    by (simp only: x sum.case)
qed

lemma shutdown_reports:
  assumes "orderly env" and "rg_lifecycle rg = Running" and "rg_frozen rg = None"
  shows "post (shutdown core env) (report_of (bt_keys (rg_handles rg)) (bt_keys (rg_pending rg))) (rg, w)"
proof -
  define start where "start = rg\<lparr>rg_lifecycle := Stopping, rg_pending := cancel_pending (rg_pending rg)\<rparr>"
  have first: "shutdown_begin rg =
      (Owner (bt_keys (rg_handles rg)) (bt_keys (rg_pending rg)), start)"
    using assms(2,3) by (simp add: shutdown_begin_def start_def)
  have "rg_frozen (fst (start, w')) = None" for w' using assms(3) by (simp add: start_def)
  from owner_post[OF assms(1) this] show ?thesis by (simp add: shutdown_def first)
qed

section \<open>Termination\<close>

text \<open>Reading the clock changes nothing and every yield advances it.\<close>

definition ticking :: "('w \<Rightarrow> nat) \<Rightarrow> ('o, 'w) shutdown_env \<Rightarrow> bool" where
  "ticking clock env \<longleftrightarrow> (\<forall>w. sh_now env w = (clock w, w)) \<and>
     (\<forall>s. clock (snd s) < clock (snd (sh_yield env s)))"

lemma returns_open_ops [simp]:
  "returns (join h) s" "returns (await f) s" "returns (yield_now env) s" "returns (freeze r) s"
  "returns get_registry s" "returns (on_registry g) s" "returns (change_world k) s"
  by (auto simp: returns_def join_def await_def yield_now_def freeze_def get_registry_run
      on_registry_def change_world_def modify_def split: prod.split)

lemma returns_read_state [simp]: "returns (read_state f) s"
  by (cases s) (auto simp: returns_def read_state_def on_backend_def split: prod.split)

lemma returns_remaining [simp]: "returns (remaining env deadline) s"
  unfolding remaining_def by (rule returns_bind) (auto intro: post_any split: sum.split)

lemma returns_then:
  "returns m s \<Longrightarrow> (\<And>a s'. returns (f a) s') \<Longrightarrow> returns (bind m f) s"
  by (rule returns_bind) (auto intro: post_any split: sum.split)

text \<open>A loop that polls until a deadline.\<close>

lemma deadline_loop_returns:
  assumes "ticking clock env" and "\<And>x s. returns (body x) s"
    and "\<And>x rg w. post (body x) (\<lambda>r s'. case r of
      Inr (Continue y) \<Rightarrow> s' = sh_yield env (rg, w) \<and> clock w < deadline | _ \<Rightarrow> True) (rg, w)"
  shows "returns (eff_loop body x) s"
proof (rule returns_loop[where I = "\<lambda>_ _. True" and m = "\<lambda>_ s. deadline - clock (snd s)"])
  fix x and s :: "'b registry \<times> 'a"
  obtain rg w where s: "s = (rg, w)" by fastforce
  have tick: "clock w < clock (snd (sh_yield env (rg, w)))"
    using assms(1) by (metis snd_conv ticking_def)
  show "post (body x) (\<lambda>r s'. case r of
      Inr (Continue x') \<Rightarrow> True \<and> deadline - clock (snd s') < deadline - clock (snd s) | _ \<Rightarrow> True) s"
    unfolding s by (rule post_mono[OF assms(3)]) (use tick in \<open>auto split: sum.splits flow.splits\<close>)
qed (simp_all add: assms(2))

lemma join_closed_returns:
  assumes "ticking clock env" shows "returns (join_closed_worker env h deadline) s"
  unfolding join_closed_worker_def
proof (rule deadline_loop_returns[OF assms])
  show "returns (join_closed_body env h deadline x) s" for x s
    unfolding join_closed_body_def by (auto intro!: returns_then)
  show "post (join_closed_body env h deadline x) (\<lambda>r s'. case r of
      Inr (Continue y) \<Rightarrow> s' = sh_yield env (rg, w) \<and> clock w < deadline | _ \<Rightarrow> True) (rg, w)" for x rg w
    using assms by (simp add: join_closed_body_def ticking_def)
qed

lemma pending_wait_returns:
  assumes "ticking clock env" shows "returns (pending_wait env deadline h) s"
  unfolding pending_wait_def
proof (rule deadline_loop_returns[OF assms])
  show "returns (pending_body env deadline h x) s" for x s
    unfolding pending_body_def by (auto intro!: returns_then)
  show "post (pending_body env deadline h x) (\<lambda>r s'. case r of
      Inr (Continue y) \<Rightarrow> s' = sh_yield env (rg, w) \<and> clock w < deadline | _ \<Rightarrow> True) (rg, w)" for x rg w
    using assms by (simp add: pending_body_def ticking_def)
qed

lemma shutdown_worker_returns:
  "ticking clock env \<Longrightarrow> returns (shutdown_worker env deadline h) s"
  unfolding shutdown_worker_def request_shutdown_def join_closed_entry_def
  by (auto intro!: returns_then join_closed_returns split: option.split)

lemma for_ids_returns: "(\<And>h s. returns (f h) s) \<Longrightarrow> returns (for_ids f hs) s"
proof (induction hs arbitrary: s)
  case (Cons h hs)
  then show ?case by (auto intro!: returns_then)
qed simp

section \<open>A shutdown on the sample server\<close>

text \<open>The world is the clock; the worker answers at once and its thread ends, or not yet.\<close>

definition sample_shutdown_env :: "bool \<Rightarrow> (unit, nat) shutdown_env" where
  "sample_shutdown_env ends = \<lparr>sh_now = (\<lambda>w. (w, w)), sh_yield = (\<lambda>(rg, w). (rg, w + 1)),
     sh_send = (\<lambda>h t r s. (True, s)),
     sh_reply = (\<lambda>h r (rg, w). (Some (entry_verified h),
       (if ends then thread_finished h rg else rg, w + 1))),
     sh_cancel = (\<lambda>w. w)\<rparr>"

lemma sample_orderly: "orderly (sample_shutdown_env ends)"
  by (auto simp: orderly_def steady_def names_workers_def sample_shutdown_env_def entry_verified_def
      joined_def no_reservation_def thread_finished_def bt_get_modify split: option.splits)

lemma sample_ticking: "ticking (\<lambda>w. w) (sample_shutdown_env ends)"
  by (auto simp: ticking_def sample_shutdown_env_def)

section \<open>Properties\<close>





text \<open>
  A verified cleanup can be reported uncertain: a worker answers before its thread ends, and
  the owner then asks once whether the thread has finished and does not wait, so its answer is
  replaced by "uncertain at join" although the deadline has not passed.
\<close>

theorem verified_worker_reported_uncertain:
  assumes "\<And>v. sh_now env v = (t, v)" and "t < deadline"
    and "bt_get h (rg_handles rg) = Some e" and "\<not> ph_closed (we_published e)"
    and "sh_send env h deadline (deadline - t) (rg, w) = (True, (rg1, w1))"
    and "sh_reply env h (deadline - t) (rg1, w1) = (Some (entry_verified h), (rg2, w2))"
    and "bt_get h (rg_handles rg2) = Some d" and "we_join d = Some False"
  shows "shutdown_worker env deadline h (rg, w) =
    Some (Ok (entry_uncertain h ''join''), (rg2, w2))"
proof -
  have now: "read_state (sh_now env) (r, v) = Some (Ok t, (r, v))" for r v
    by (simp add: read_state_def on_backend_def assms(1))
  have rem: "remaining env deadline (r, v) = Some (Ok (deadline - t), (r, v))" for r v
    by (simp add: remaining_def bind_def now ret_def saturating_sub_def)
  have "join_worker h rg2 = (False, rg2)" using assms(7,8) by (simp add: join_worker_def)
  then have "join h (rg2, w2) = Some (Ok False, (rg2, w2))" by (simp add: join_def)
  with assms(2-6) show ?thesis
    by (simp add: shutdown_worker_def request_shutdown_def bind_def rem now get_registry_run await_def ret_def)
qed

theorem verified_worker_reported_uncertain_witness:
  "shutdown_worker (sample_shutdown_env False\<lparr>sh_now := (\<lambda>w. (3, w))\<rparr>) 10000 (handle_name 1)
     (sample_registry (sample_entry :: unit worker_entry), 3) =
     Some (Ok (entry_uncertain (handle_name 1) ''join''), (sample_registry (sample_entry :: unit worker_entry), 4))"
  by (rule verified_worker_reported_uncertain[where t = 3 and e = sample_entry and d = sample_entry])
    (simp_all add: sample_shutdown_env_def sample_registry_def sample_entry_def bt_get_def
      published_new_def)

end
