(* ===== verification/Server.thy ===== *)
theory Server
  imports Shutdown
begin

text \<open>
  The calls of \<open>Core\<close> (\<open>dispatch\<close> of \<open>worker.rs\<close>) and the tools of \<open>tools.rs\<close>: the arguments a
  tool accepts, the core call behind it, and the result it gives the client. rmcp, which routes
  a call to its tool and answers calls with bad arguments, is not modelled.
\<close>

section \<open>Calls of the core\<close>

type_synonym 'w queued = "operation \<times> 'w request_context"

record 'w call_env =
  ce_now :: "(nat, 'w) reader"
  ce_stopping :: "(bool, 'w) reader"
  ce_response :: "'w queued registry \<times> 'w \<Rightarrow>
    (core_failure + reply) option \<times> ('w queued registry \<times> 'w)"
    \<comment> \<open>\<open>response.await\<close>; none when the worker dropped the request\<close>

definition admit :: "string \<Rightarrow> 'w queued \<Rightarrow> ('w queued, 'w, unit) open_op" where
  "admit h request s = (case dispatch_admit h (OperationRequest request) (fst s) of
     None \<Rightarrow> None | Some (r, rg) \<Rightarrow> Some (r, (rg, snd s)))"

definition dispatch ::
  "'w call_env \<Rightarrow> string \<Rightarrow> operation \<Rightarrow> (bool, 'w) reader \<Rightarrow> ('w queued, 'w, reply) open_op" where
  "dispatch env h op cancelled =
     bind get_registry (\<lambda>rg.
     bind (of_result (dispatch_timeouts h rg)) (\<lambda>(timeout, grace).
     bind (read_state (ce_now env)) (\<lambda>t.
     let ctx = \<lparr>rc_cancelled = cancelled, rc_stopping = ce_stopping env, rc_now = ce_now env,
       rc_deadline = t + timeout, rc_grace = grace\<rparr> in
     bind (admit h (op, ctx)) (\<lambda>_.
     bind (await (ce_response env)) (\<lambda>response.
     case response of
       Some r \<Rightarrow> of_result r
     | None \<Rightarrow> bind get_registry (\<lambda>rg.
         throw (failure_for_handle h (core_error_unknown ConnectionLost) rg)))))))"

text \<open>The public calls on a handle, one per operation.\<close>

definition core_get_schema :: "'w call_env \<Rightarrow> string \<Rightarrow> (bool, 'w) reader \<Rightarrow> ('w queued, 'w, reply) open_op" where
  "core_get_schema env h cancelled = dispatch env h OpGetSchema cancelled"

definition core_open_read :: "'w call_env \<Rightarrow> string \<Rightarrow> (bool, 'w) reader \<Rightarrow> ('w queued, 'w, reply) open_op" where
  "core_open_read env h cancelled = dispatch env h OpOpenRead cancelled"

definition core_open_write :: "'w call_env \<Rightarrow> string \<Rightarrow> (bool, 'w) reader \<Rightarrow> ('w queued, 'w, reply) open_op" where
  "core_open_write env h cancelled = dispatch env h OpOpenWrite cancelled"

definition core_query ::
  "'w call_env \<Rightarrow> string \<Rightarrow> string \<Rightarrow> parameter list \<Rightarrow> (bool, 'w) reader \<Rightarrow> ('w queued, 'w, reply) open_op" where
  "core_query env h sql ps cancelled =
     dispatch env h (OpQuery \<lparr>qr_sql = sql, qr_parameters = ps\<rparr>) cancelled"

definition core_commit :: "'w call_env \<Rightarrow> string \<Rightarrow> (bool, 'w) reader \<Rightarrow> ('w queued, 'w, reply) open_op" where
  "core_commit env h cancelled = dispatch env h OpCommit cancelled"

definition core_rollback :: "'w call_env \<Rightarrow> string \<Rightarrow> (bool, 'w) reader \<Rightarrow> ('w queued, 'w, reply) open_op" where
  "core_rollback env h cancelled = dispatch env h OpRollback cancelled"

definition core_close_database :: "'w call_env \<Rightarrow> string \<Rightarrow> (bool, 'w) reader \<Rightarrow> ('w queued, 'w, reply) open_op" where
  "core_close_database env h cancelled = dispatch env h OpClose cancelled"

lemmas core_call_defs = core_get_schema_def core_open_read_def core_open_write_def core_query_def
  core_commit_def core_rollback_def core_close_database_def

definition core_list_handles :: "('w queued, 'w, reply) open_op" where
  "core_list_handles = bind get_registry (\<lambda>rg.
     ret (handle_state_envelope None
       (JObject [(''handles'', JArray (map (\<lambda>s. to_value (en_handle_state s)) (list_handles rg)))])))"

text \<open>\<open>Core::new\<close> and \<open>Core::new_with_profiles\<close>; \<open>factory\<close> is whether the libpq factory loads.\<close>

definition core_new :: "bool \<Rightarrow> config \<Rightarrow> string \<Rightarrow> core_error + core" where
  "core_new factory c dsn =
     (if \<not> is_ok (validate c) \<or> \<not> factory then Err (core_error ConfigError)
      else Ok \<lparr>core_config = c, core_profiles = None, core_dsn = dsn\<rparr>)"

definition core_new_with_profiles :: "bool \<Rightarrow> config_file \<Rightarrow> core_error + core" where
  "core_new_with_profiles factory f =
     (if \<not> is_ok (file_validate f) \<or> \<not> factory then Err (core_error ConfigError)
      else Ok \<lparr>core_config = base_config f, core_profiles = Some f, core_dsn = []\<rparr>)"

section \<open>Arguments\<close>

definition tool_names :: "string list" where
  "tool_names = [''open_database'', ''list_handles'', ''get_schema'', ''open_read'', ''open_write'',
     ''query'', ''commit'', ''rollback'', ''close_database'']"

record parameter_arg =
  pa_type_oid :: "32 word option"
  pa_value :: "string option"

definition en_parameter_arg :: "parameter_arg \<Rightarrow> json" where
  "en_parameter_arg p = JObject [(''type_oid'', en_option en_uint (pa_type_oid p)),
     (''value'', en_option JString (pa_value p))]"

definition oid_message :: string where
  "oid_message = ''type_oid must be an unsigned 32-bit integer or null''"

text \<open>\<open>number.as_u64().and_then(|value| u32::try_from(value).ok())\<close>\<close>

definition de_parameter_arg :: "parameter_arg decoder" where
  "de_parameter_arg v =
     and_then (de_struct 2 [''type_oid'', ''value''] v) (\<lambda>obj.
     and_then (de_field Ok obj ''type_oid'') (\<lambda>oid.
     and_then (de_field Ok obj ''value'') (\<lambda>value.
     and_then (case oid of
         JNull \<Rightarrow> Ok None
       | JNumber n \<Rightarrow> if 0 \<le> n \<and> n < 2 ^ 32 then Ok (Some (word_of_int n)) else Err (DeText oid_message)
       | _ \<Rightarrow> Err (DeText oid_message)) (\<lambda>oid.
     and_then (case value of
         JNull \<Rightarrow> Ok None
       | JString s \<Rightarrow> Ok (Some s)
       | _ \<Rightarrow> Err (DeText ''value must be a string or null'')) (\<lambda>value.
     Ok \<lparr>pa_type_oid = oid, pa_value = value\<rparr>)))))"

definition parameter_of_arg :: "parameter_arg \<Rightarrow> string + parameter" where
  "parameter_of_arg p = map_err validation_text (parameter_new (pa_type_oid p) (pa_value p))"

record query_args =
  qa_handle :: string
  qa_sql :: string
  qa_parameters :: "parameter_arg list"

definition de_query_args :: "query_args decoder" where
  "de_query_args v =
     and_then (de_struct 2 [''handle'', ''sql'', ''parameters''] v) (\<lambda>obj.
     and_then (de_field de_string obj ''handle'') (\<lambda>h.
     and_then (de_field de_string obj ''sql'') (\<lambda>sql.
     and_then (de_field_or [] (de_list de_parameter_arg) obj ''parameters'') (\<lambda>ps.
     Ok \<lparr>qa_handle = h, qa_sql = sql, qa_parameters = ps\<rparr>))))"

definition de_handle_args :: "string decoder" where
  "de_handle_args v =
     and_then (de_struct 1 [''handle''] v) (\<lambda>obj. de_field de_string obj ''handle'')"

definition de_open_database_args :: "string decoder" where
  "de_open_database_args v =
     and_then (de_struct 1 [''profile''] v) (\<lambda>obj. de_field de_string obj ''profile'')"

definition de_no_args :: "unit decoder" where
  "de_no_args v = and_then (de_struct 0 [] v) (\<lambda>_. Ok ())"

definition into_core :: "query_args \<Rightarrow> string + string \<times> string \<times> parameter list" where
  "into_core args = and_then (map_result parameter_of_arg (qa_parameters args)) (\<lambda>ps.
     Ok (qa_handle args, qa_sql args, ps))"

section \<open>Results\<close>

text \<open>\<open>CallToolResult\<close>: the canonical value of the envelope, and whether it is an error.\<close>

record call_result =
  cr_value :: json
  cr_is_error :: bool

definition internal_value :: json where
  "internal_value = JObject [(''envelope_version'', JNumber 1), (''handle_state'', JNull),
     (''next_moves'', JArray []),
     (''error'', JObject [(''code'', JString ''INTERNAL''), (''message'', JString (message Internal)),
        (''sqlstate'', JNull), (''transaction_outcome'', JNull)])]"

definition canonical_value :: "reply \<Rightarrow> json" where
  "canonical_value e = canonicalize_json
     (case en_envelope (\<lambda>v. v) e of Inr v \<Rightarrow> v | Inl _ \<Rightarrow> internal_value)"

definition tool_success :: "reply \<Rightarrow> call_result" where
  "tool_success e = \<lparr>cr_value = canonical_value e, cr_is_error = (env_error e \<noteq> None)\<rparr>"

definition tool_failure :: "error_code \<Rightarrow> call_result" where
  "tool_failure c = \<lparr>cr_value = canonical_value
     (envelope_failure None process_moves (error_payload c)), cr_is_error = True\<rparr>"

definition failure_for :: "core_failure \<Rightarrow> call_result" where
  "failure_for f = \<lparr>cr_value = canonical_value
     (error_envelope_with_sqlstate (kf_handle_state f) (kf_error f) (kf_outcome_unknown f) (kf_sqlstate f)),
     cr_is_error = True\<rparr>"

text \<open>\<open>match self.core.... { Ok(envelope) => success(envelope), Err(error) => failure_for(error) }\<close>\<close>

definition answer :: "core_failure + reply \<Rightarrow> call_result" where
  "answer r = (case r of Inr e \<Rightarrow> tool_success e | Inl f \<Rightarrow> failure_for f)"

section \<open>The tools\<close>

text \<open>A decoded call; the route of a name decodes its arguments or refuses the call.\<close>

datatype tool_call = CallOpen string | CallList | CallHandle operation string | CallQuery query_args

definition route :: "string \<Rightarrow> json \<Rightarrow> decode_error + tool_call" where
  "route name args =
     (if name = ''open_database'' then and_then (de_open_database_args args) (\<lambda>p. Ok (CallOpen p))
      else if name = ''list_handles'' then and_then (de_no_args args) (\<lambda>_. Ok CallList)
      else if name = ''query'' then and_then (de_query_args args) (\<lambda>q. Ok (CallQuery q))
      else case map_of [(''get_schema'', OpGetSchema), (''open_read'', OpOpenRead),
          (''open_write'', OpOpenWrite), (''commit'', OpCommit), (''rollback'', OpRollback),
          (''close_database'', OpClose)] name of
        Some op \<Rightarrow> and_then (de_handle_args args) (\<lambda>h. Ok (CallHandle op h))
      | None \<Rightarrow> Err DeSerde)"

text \<open>The core's own shutdown token and clock.\<close>

definition call_stop :: "'w call_env \<Rightarrow> 'w request_context" where
  "call_stop env = \<lparr>rc_cancelled = (\<lambda>w. (False, w)), rc_stopping = ce_stopping env,
     rc_now = ce_now env, rc_deadline = 0, rc_grace = 0\<rparr>"

text \<open>The call of the core behind each tool that takes a handle alone; \<open>query\<close> has its own.\<close>

fun call_handle ::
  "'w call_env \<Rightarrow> operation \<Rightarrow> string \<Rightarrow> (bool, 'w) reader \<Rightarrow> ('w queued, 'w, reply) open_op" where
  "call_handle env OpGetSchema h cancelled = core_get_schema env h cancelled"
| "call_handle env OpOpenRead h cancelled = core_open_read env h cancelled"
| "call_handle env OpOpenWrite h cancelled = core_open_write env h cancelled"
| "call_handle env (OpQuery q) h cancelled = core_query env h (qr_sql q) (qr_parameters q) cancelled"
| "call_handle env OpCommit h cancelled = core_commit env h cancelled"
| "call_handle env OpRollback h cancelled = core_rollback env h cancelled"
| "call_handle env OpClose h cancelled = core_close_database env h cancelled"

lemma call_handle_dispatch: "call_handle env op h cancelled = dispatch env h op cancelled"
proof (cases op)
  case (OpQuery q)
  then show ?thesis by (cases q) (simp add: core_call_defs)
qed (simp_all add: core_call_defs)

text \<open>The result of the call, once the core has answered.\<close>

definition answered ::
  "('o, 'w, reply) open_op \<Rightarrow> ('o, 'w, call_result) open_op" where
  "answered m = bind (attempt m) (\<lambda>r. ret (answer r))"

definition open_answer ::
  "('o, 'w, (core_failure + reply) \<times> ('b, 'w) spawned) open_op \<Rightarrow> ('o, 'w, reply) open_op" where
  "open_answer m = bind m (\<lambda>(r, thread). of_result r)"

definition call_tool ::
  "core \<Rightarrow> ('b, 'w) open_env \<Rightarrow> (string \<Rightarrow> (bool, 'w) reader) \<Rightarrow> 'w call_env \<Rightarrow> (bool, 'w) reader \<Rightarrow>
     tool_call \<Rightarrow> ('w queued, 'w, call_result) open_op" where
  "call_tool core oe token env cancelled call = (case call of
     CallOpen profile \<Rightarrow> answered (open_answer (open_database core oe (call_stop env) token cancelled profile))
   | CallList \<Rightarrow> answered core_list_handles
   | CallHandle op h \<Rightarrow> answered (call_handle env op h cancelled)
   | CallQuery args \<Rightarrow> (case into_core args of
       Inl _ \<Rightarrow> ret (tool_failure InvalidInput)
     | Inr (h, sql, ps) \<Rightarrow>
         answered (core_query env h sql ps cancelled)))"

section \<open>Lemmas\<close>

lemma admit_post [simp, post_rules]:
  "post (admit h request) Q (rg, w) = (case dispatch_admit h (OperationRequest request) rg of
     None \<Rightarrow> True | Some (r, rg') \<Rightarrow> Q r (rg', w))"
  by (simp add: admit_def post_def split: option.split prod.split)

text \<open>A result that says what its envelope says.\<close>

definition result_of :: "reply \<Rightarrow> call_result \<Rightarrow> bool" where
  "result_of e r \<longleftrightarrow> envelope_ok e \<and> cr_is_error r = (env_error e \<noteq> None) \<and>
     (\<exists>v. en_envelope (\<lambda>v. v) e = Ok v \<and> cr_value r = canonicalize v)"

lemma en_envelope_ok: "envelope_ok e \<Longrightarrow> \<exists>v. en_envelope enc e = Ok v"
  by (auto simp: en_envelope_def)

lemma canonical_value_ok:
  "envelope_ok e \<Longrightarrow> \<exists>v. en_envelope (\<lambda>v. v) e = Ok v \<and> canonical_value e = canonicalize v"
  using en_envelope_ok[of e "\<lambda>v. v"] by (auto simp: canonical_value_def canonicalize_json_def)

lemma tool_success_result: "envelope_ok e \<Longrightarrow> result_of e (tool_success e)"
  using canonical_value_ok[of e] by (simp add: result_of_def tool_success_def)

lemma failure_for_result:
  assumes "pred_option state_ok (kf_handle_state f)"
  shows "\<exists>e. result_of e (failure_for f) \<and> env_error e \<noteq> None"
proof -
  let ?e = "error_envelope_with_sqlstate (kf_handle_state f) (kf_error f) (kf_outcome_unknown f)
    (kf_sqlstate f) :: reply"
  have "envelope_ok ?e" by (rule error_envelope_ok[OF assms])
  from canonical_value_ok[OF this] this show ?thesis
    by (intro exI[of _ ?e]) (auto simp: result_of_def failure_for_def)
qed

lemma tool_failure_result: "\<exists>e. result_of e (tool_failure c) \<and> env_error e \<noteq> None"
proof -
  let ?e = "envelope_failure None process_moves (error_payload c) :: reply"
  have "envelope_ok ?e" by (simp add: envelope_ok_iff envelope_failure_def process_moves_def)
  from canonical_value_ok[OF this] this show ?thesis
    by (intro exI[of _ ?e]) (auto simp: result_of_def tool_failure_def envelope_failure_def)
qed

text \<open>Answers of the core that a tool can give.\<close>

definition answer_ok :: "core_failure + reply \<Rightarrow> bool" where
  "answer_ok r = (case r of Inr e \<Rightarrow> envelope_ok e | Inl f \<Rightarrow> pred_option state_ok (kf_handle_state f))"

lemma answer_result: "answer_ok r \<Longrightarrow> \<exists>e. result_of e (answer r)"
  by (cases r) (auto simp: answer_ok_def answer_def intro: tool_success_result dest: failure_for_result)

definition states_ok :: "'o registry \<Rightarrow> bool" where
  "states_ok rg \<longleftrightarrow> list_all (\<lambda>e. state_ok (published_state (we_published (snd e)))) (rg_handles rg)"

lemma states_ok_current: "states_ok rg \<Longrightarrow> pred_option state_ok (current_state h rg)"
  by (cases "bt_get h (rg_handles rg)")
    (auto simp: states_ok_def list_all_iff current_state_def bt_get_def dest!: map_of_SomeD)

definition valid_result :: "'e + call_result \<Rightarrow> bool" where
  "valid_result x \<longleftrightarrow> (\<exists>r e. x = Ok r \<and> result_of e r)"

lemma answered_post:
  assumes "post m (\<lambda>x s'. answer_ok x) s"
  shows "post (answered m) (\<lambda>x s'. valid_result x) s"
  unfolding answered_def post_bind post_attempt sum.case
  by (rule post_mono[OF assms]) (auto simp: valid_result_def dest: answer_result)

lemma list_handles_answers: "post core_list_handles (\<lambda>x s'. answer_ok x) s"
  by (simp add: core_list_handles_def answer_ok_def handle_state_envelope_ok)

lemma opening_answers:
  "post (open_answer (open_database core oe stop token cancelled profile)) (\<lambda>x s'. answer_ok x) s"
proof -
  obtain rg w where s: "s = (rg, w)" by fastforce
  show ?thesis
    unfolding open_answer_def post_bind s
  proof (rule postI)
    fix x s'
    assume run: "open_database core oe stop token cancelled profile (rg, w) = Some (x, s')"
    obtain rg' w' where s': "s' = (rg', w')" by fastforce
    from open_database_ends[OF run[unfolded s']] show "case x of Inl e \<Rightarrow> answer_ok (Err e)
      | Inr a \<Rightarrow> post (case a of (r, thread) \<Rightarrow> of_result r) (\<lambda>x s'. answer_ok x) s'"
    proof (elim disjE exE conjE)
      fix h limits rg1
      assume "opening_ends core h profile rg1 x rg'"
      then show ?thesis
        by (cases x) (auto simp: opening_ends_def answer_ok_def opened_envelope_ok split: sum.splits)
    qed (auto simp: answer_ok_def)
  qed
qed

text \<open>
  What \<open>response.await\<close> stands for: the reply of some worker's round on its open handle, or none
  when the worker has gone; meanwhile the other threads take the registry to a state the server
  can reach.
\<close>

definition round_replies :: "'w libpq_env \<Rightarrow> renderer \<Rightarrow> core_failure + reply \<Rightarrow> bool" where
  "round_replies lenv render r \<longleftrightarrow> (\<exists>(rg :: 'w queued registry) s h c op ctx p closed s'.
     published h rg = Some p \<and> \<not> ph_closed p \<and> ph_id p = h \<and>
     run_operation (libpq_ops lenv render) render h c op ctx (rg, s) =
       Some (Ok (OperationReply r, closed), s'))"

definition workers_respond :: "core \<Rightarrow> 'w call_env \<Rightarrow> bool" where
  "workers_respond core env \<longleftrightarrow> (\<forall>st.
     pred_option (\<lambda>r. \<exists>(lenv :: 'w libpq_env) render. round_replies lenv render r) (fst (ce_response env st)) \<and>
     (\<exists>ex. server_reachable core \<lparr>sy_registry = fst (snd (ce_response env st)), sy_executing = ex\<rparr>))"

lemma round_replies_answer:
  assumes "round_replies lenv render r"
  shows "answer_ok r"
proof -
  from assms obtain rg s h c op ctx p closed s' where
    p: "published h (rg :: 'a queued registry) = Some p" "\<not> ph_closed p" "ph_id p = h" and
    run: "run_operation (libpq_ops lenv render) render h c op ctx (rg, s) =
      Some (Ok (OperationReply r, closed), s')"
    unfolding round_replies_def by blast
  from postD[OF libpq.run_operation_call[OF p] run] obtain p' obs where
    done_r: "round_done op p obs r closed p'" by (auto split: prod.splits)
  show ?thesis
  proof (cases r)
    case (Inl f)
    with done_r show ?thesis by (simp add: round_done_def answer_ok_def)
  next
    case (Inr e)
    with done_r show ?thesis by (simp add: answer_ok_def round_envelope_ok)
  qed
qed

lemma server_states_ok: "server_reachable core s \<Longrightarrow> states_ok (sy_registry s)"
  using bt.mem_entries[OF server_bt_ok] server_closed_gone
  by (fastforce simp: states_ok_def list_all_iff intro: closed_gone_state)

definition workers_answer :: "'w call_env \<Rightarrow> bool" where
  "workers_answer env \<longleftrightarrow> (\<forall>s. states_ok (fst (snd (ce_response env s))) \<and>
     pred_option answer_ok (fst (ce_response env s)))"

lemma workers_respond_answer: "workers_respond core env \<Longrightarrow> workers_answer env"
  unfolding workers_respond_def workers_answer_def
  by (fastforce simp: pred_option_def dest: server_states_ok intro: round_replies_answer)

lemma dispatch_admit_failure:
  "dispatch_admit h request rg = Some (Err f, rg') \<Longrightarrow> rg' = rg \<and>
     (kf_handle_state f = None \<or> kf_handle_state f = current_state h rg)"
  by (auto simp: dispatch_admit_def Let_def current_state_def failure_process_def
      split: if_splits option.splits)

lemma dispatch_timeouts_failure: "dispatch_timeouts h rg = Err f \<Longrightarrow> kf_handle_state f = None"
  by (auto simp: dispatch_timeouts_def split: option.splits)

lemma dispatch_answers:
  assumes env: "workers_answer env" and states: "states_ok rg"
  shows "post (dispatch env h op cancelled) (\<lambda>x s'. answer_ok x) (rg, w)"
proof (cases "dispatch_timeouts h rg")
  case (Inl f)
  then show ?thesis
    by (simp add: dispatch_def answer_ok_def dispatch_timeouts_failure)
next
  case (Inr limits)
  obtain timeout grace where limits: "limits = (timeout, grace)" by fastforce
  have failed: "answer_ok (Err f)" if "dispatch_admit h request rg = Some (Err f, rg')" for request f rg'
    using dispatch_admit_failure[OF that] states_ok_current[OF states, of h]
    by (auto simp: answer_ok_def)
  have answer: "answer_ok r" if "fst (ce_response env s) = Some r" for s r
    using env that unfolding workers_answer_def by (metis option.pred_inject(2))
  have lost: "answer_ok (Err (failure_for_handle h e (fst (snd (ce_response env s)))))" for e s
  proof -
    have "states_ok (fst (snd (ce_response env s)))" using env unfolding workers_answer_def by blast
    from states_ok_current[OF this] show ?thesis by (simp add: answer_ok_def failure_for_handle_def)
  qed
  show ?thesis
    unfolding dispatch_def post_bind[of "get_registry"] get_registry_post sum.case fst_conv Inr limits
      post_bind[of "of_result r" for r] post_of_result prod.case post_bind[of "read_state f" for f]
      read_state_post Let_def post_bind[of "admit h q" for q] admit_post post_bind[of "await f" for f]
    by (auto simp: failed answer lost split: option.split sum.split prod.split)
qed

lemma call_tool_answers:
  assumes "workers_answer env" and "states_ok rg"
  shows "post (call_tool core oe token env cancelled call) (\<lambda>x s'. valid_result x) (rg, w)"
proof -
  have "valid_result (Ok (tool_failure InvalidInput) :: core_failure + call_result)"
    using tool_failure_result[of InvalidInput] by (auto simp: valid_result_def)
  then show ?thesis
    by (cases call)
      (auto simp: call_tool_def call_handle_dispatch core_query_def split: sum.split
        intro!: answered_post opening_answers list_handles_answers dispatch_answers[OF assms])
qed

text \<open>What \<open>ParameterArg\<close> accepts.\<close>

definition oid_json :: "json \<Rightarrow> bool" where
  "oid_json v = (case v of JNull \<Rightarrow> True | JNumber n \<Rightarrow> 0 \<le> n \<and> n < 2 ^ 32 | _ \<Rightarrow> False)"

definition text_json :: "json \<Rightarrow> bool" where
  "text_json v = (case v of JNull \<Rightarrow> True | JString s \<Rightarrow> True | _ \<Rightarrow> False)"

lemma de_field_Ok: "de_field Ok obj k = Ok v \<longleftrightarrow> map_of obj k = Some v"
  by (simp add: de_field_def split: option.split)

lemma parameter_arg_accepts:
  "is_ok (de_parameter_arg (JObject obj)) \<longleftrightarrow> fst ` set obj \<subseteq> {''type_oid'', ''value''} \<and>
     pred_option oid_json (map_of obj ''type_oid'') \<and> map_of obj ''type_oid'' \<noteq> None \<and>
     pred_option text_json (map_of obj ''value'') \<and> map_of obj ''value'' \<noteq> None"
  unfolding de_parameter_arg_def is_ok_and_then de_struct_def
  by (cases "map_of obj ''type_oid''"; cases "map_of obj ''value''")
    (auto simp: de_field_def oid_json_def text_json_def split: json.splits if_splits)

lemma oid_bound: "uint (n :: 32 word) < 4294967296"
proof -
  have "uint n < 2 ^ LENGTH(32)" by (rule unsigned_less)
  then show ?thesis by simp
qed

lemma parameter_arg_decodes: "de_parameter_arg (en_parameter_arg p) = Ok p"
  by (cases p, cases "pa_type_oid p"; cases "pa_value p")
    (auto simp: de_parameter_arg_def en_parameter_arg_def de_struct_def de_field_def en_option_def
      en_uint_def oid_bound)

text \<open>The handle a recommended move carries is an argument its tool accepts.\<close>

lemma handle_args_move: "de_handle_args (mv_arguments (for_handle tool h guidance)) = Ok h"
  by (simp add: de_handle_args_def for_handle_def de_struct_def de_field_def de_string_def)

section \<open>Properties\<close>

text \<open>A worker that answers nothing, and the sample registry of \<open>Concurrency\<close>.\<close>

definition sample_call_env :: "unit call_env" where
  "sample_call_env = \<lparr>ce_now = (\<lambda>w. (0, w)), ce_stopping = (\<lambda>w. (False, w)),
     ce_response = (\<lambda>s. (None, (registry_new, ())))\<rparr>"

definition sample_open_registry :: "'w queued registry" where
  "sample_open_registry = sample_registry sample_entry"

lemma sample_open_reachable:
  "server_reachable sample_core \<lparr>sy_registry = sample_open_registry, sy_executing = {}\<rparr>"
  unfolding sample_open_registry_def by (rule sample_opened)

text \<open>
  On the simulated server, a worker that answers every call with its reply to a close in a
  transaction.
\<close>

definition sim_queue :: "sim queued registry" where
  "sim_queue = sample_registry (sample_entry\<lparr>we_published := sim_published\<rparr>)"

definition sim_close :: "((core_failure + worker_reply \<times> bool) \<times> sim queued registry \<times> (connection option \<times> sim)) option"
where
  "sim_close = run_operation (libpq_ops sim_env sim_render) sim_render (handle_name 1) config_default OpClose
     sim_context (sim_queue, (Some ready, sim_in_transaction))"

definition sim_reply :: "core_failure + reply" where
  "sim_reply = (case sim_close of
     Some (Inr (OperationReply r, closed), s) \<Rightarrow> r | _ \<Rightarrow> Inl (failure_process (core_error Internal)))"

definition sim_call_env :: "sim call_env" where
  "sim_call_env = \<lparr>ce_now = (\<lambda>w. (sim_time w, w)), ce_stopping = (\<lambda>w. (False, w)),
     ce_response = (\<lambda>(rg, w). (Some sim_reply, (sample_open_registry, w)))\<rparr>"

definition sim_open_env :: "(connection option, sim) open_env" where
  "sim_open_env = \<lparr>
     oe_dsn = \<lparr>de_create = (\<lambda>w. (True, w)), de_spawn = (\<lambda>_ w. (True, w)),
       de_try_wait = (\<lambda>w. (WaitFailed, w)), de_read = (\<lambda>w. (None, w)), de_terminate = (\<lambda>w. w),
       de_wait = (\<lambda>w. w), de_sleep = (\<lambda>w. w), de_remove = (\<lambda>w. w)\<rparr>,
     oe_factory = (\<lambda>dsn ctx w. Some (Ok (Some ready, ''app''), w)),
     oe_ops = libpq_ops sim_env sim_render, oe_drop = snd, oe_spawn = (\<lambda>w. (True, w))\<rparr>"

lemma sim_queue_published:
  "published (handle_name 1) sim_queue = Some sim_published"
  by (simp add: published_def sim_queue_def sample_registry_def bt_get_def)

lemma sim_close_run: "\<exists>r closed s. sim_close = Some (Ok (OperationReply r, closed), s)"
proof -
  have pre: "operation_precondition (handle_name 1) OpClose sim_queue = Some (core_error ActiveTransaction)"
    using sim_published_facts by (simp add: precondition_published[OF sim_queue_published])
  have "returns (run_operation (libpq_ops sim_env sim_render) sim_render (handle_name 1) config_default
     OpClose sim_context) (sim_queue, (Some ready, sim_in_transaction))"
    by (simp add: returns_def run_operation_def execute_operation_def finish_operation_def
        get_registry_def on_registry_def error_envelope_for_def bind_def attempt_def get_state_def
        modify_def ret_def pre Let_def)
  then obtain x s where run: "sim_close = Some (x, s)" by (auto simp: returns_def sim_close_def)
  from postD[OF libpq.run_operation_call[OF sim_queue_published sim_published_facts(2,3)]
      run[unfolded sim_close_def]]
  obtain r closed where "x = Ok (OperationReply r, closed)" by (auto split: prod.splits)
  with run show ?thesis by blast
qed

lemma sim_workers_respond: "workers_respond sample_core sim_call_env"
proof -
  from sim_close_run obtain r closed s where run: "sim_close = Some (Ok (OperationReply r, closed), s)"
    by blast
  have "round_replies sim_env sim_render sim_reply"
    unfolding round_replies_def
    using sim_queue_published sim_published_facts(2,3) run[unfolded sim_close_def]
    by (fastforce simp: sim_reply_def run)
  then show ?thesis
    unfolding workers_respond_def
    by (auto simp: sim_call_env_def intro: sample_open_reachable split: prod.split)
qed



text \<open>
  The wire form of a query parameter is strict: both keys are required, nothing else is
  allowed, the type is null or an unsigned 32-bit integer and the value null or a string; and what
  \<open>ParameterArg\<close> serialises it decodes to itself.
\<close>

theorem parameter_arg_strict:
  "(is_ok (de_parameter_arg (JObject obj)) \<longleftrightarrow> fst ` set obj \<subseteq> {''type_oid'', ''value''} \<and>
     pred_option oid_json (map_of obj ''type_oid'') \<and> map_of obj ''type_oid'' \<noteq> None \<and>
     pred_option text_json (map_of obj ''value'') \<and> map_of obj ''value'' \<noteq> None) \<and>
   de_parameter_arg (en_parameter_arg p) = Ok p"
  using parameter_arg_accepts parameter_arg_decodes by blast


text \<open>
  C30. A call queues its operation once or not at all: a refused dispatch leaves the registry as it
  was; an admitted one takes one admission and appends exactly its own request, with the deadline
  of its handle's own configuration, and answers with the worker's response, or with
  CONNECTION_LOST of unknown outcome when the worker drops the request.
\<close>

theorem dispatch_queues_once:
  assumes "dispatch env h op cancelled (rg, w) = Some (x, s')"
  shows "(\<exists>f. x = Err f \<and> fst s' = rg) \<or>
    (\<exists>e ctx t. bt_get h (rg_handles rg) = Some e \<and> rc_cancelled ctx = cancelled \<and>
       rc_deadline ctx = fst (ce_now env w) + request_timeout (we_config e) \<and>
       t = (modify_entry h (\<lambda>e. e\<lparr>we_admitted := we_admitted e + 1,
              we_queue := we_queue e @ [OperationRequest (op, ctx)]\<rparr>) rg, snd (ce_now env w)) \<and>
       s' = snd (ce_response env t) \<and>
       (case fst (ce_response env t) of Some r \<Rightarrow> x = r
        | None \<Rightarrow> \<exists>f. x = Err f \<and> kf_error f = core_error_unknown ConnectionLost))"
proof (cases "bt_get h (rg_handles rg)")
  case None
  with assms show ?thesis
    by (auto simp: dispatch_def bind_def get_registry_run of_result_def dispatch_timeouts_def)
next
  case (Some e)
  obtain t1 w1 where w1: "ce_now env w = (t1, w1)" by fastforce
  define ctx where "ctx = \<lparr>rc_cancelled = cancelled, rc_stopping = ce_stopping env, rc_now = ce_now env,
    rc_deadline = t1 + request_timeout (we_config e), rc_grace = cancel_drain_grace (we_config e)\<rparr>"
  let ?answer = "\<lambda>response. case response of Some r \<Rightarrow> of_result r
    | None \<Rightarrow> bind get_registry (\<lambda>rg. throw (failure_for_handle h (core_error_unknown ConnectionLost) rg))"
  have run: "dispatch env h op cancelled (rg, w) =
      bind (admit h (op, ctx)) (\<lambda>_. bind (await (ce_response env)) ?answer) (rg, w1)"
    using Some w1 by (simp add: dispatch_def bind_def get_registry_run of_result_def dispatch_timeouts_def
        read_state_run w1 ctx_def Let_def)
  obtain r rg1 where r: "dispatch_admit h (OperationRequest (op, ctx)) rg = Some (r, rg1)"
    using assms run by (cases "dispatch_admit h (OperationRequest (op, ctx)) rg")
      (auto simp: bind_def admit_def)
  show ?thesis
  proof (cases r)
    case (Inl f)
    with r have "rg1 = rg" using dispatch_admit_failure by blast
    with assms run r Inl show ?thesis by (auto simp: bind_def admit_def)
  next
    case (Inr u)
    with r Some have rg1: "rg1 = modify_entry h (\<lambda>e. e\<lparr>we_admitted := we_admitted e + 1,
        we_queue := we_queue e @ [OperationRequest (op, ctx)]\<rparr>) rg"
      by (auto simp: dispatch_admit_def Let_def split: if_splits)
    obtain a t2 where a: "ce_response env (rg1, w1) = (a, t2)" by (cases "ce_response env (rg1, w1)") blast
    have x: "x = (case a of Some r \<Rightarrow> r
        | None \<Rightarrow> Err (failure_for_handle h (core_error_unknown ConnectionLost) (fst t2)))" and s': "s' = t2"
      using assms r Inr a unfolding run
      by (auto simp: bind_def admit_def await_def of_result_def get_registry_run throw_def split: option.splits)
    show ?thesis
      by (intro disjI2 exI[of _ e] exI[of _ ctx] exI[of _ "(rg1, w1)"])
        (use Some a in \<open>auto simp: x s' w1 rg1 ctx_def failure_for_handle_def split: option.split\<close>)
  qed
qed

theorem dispatch_queues_once_witness:
  "\<exists>x s'. dispatch sample_call_env ''nope'' OpCommit (\<lambda>w. (False, w)) (sample_open_registry, ()) = Some (Err x, s') \<and>
     fst s' = sample_open_registry"
proof -
  have none: "bt_get ''nope'' (rg_handles (sample_open_registry :: unit queued registry)) = None"
    by (simp add: sample_open_registry_def sample_registry_def bt_get_def handle_name_def)
  then have run: "dispatch sample_call_env ''nope'' OpCommit (\<lambda>w. (False, w)) (sample_open_registry, ()) =
      Some (Err (failure_process (core_error HandleUnknown)), (sample_open_registry, ()))"
    by (simp add: dispatch_def bind_def get_registry_run of_result_def dispatch_timeouts_def)
  from dispatch_queues_once[OF run] none run show ?thesis by auto
qed

text \<open>
  \<open>list_handles\<close> lists every handle once, sorted by the bytes of its id, in every reachable
  state, closed handles included (the tool calls them "live").
\<close>

theorem list_handles_sorted:
  assumes "server_reachable core s" and "core_fits core" and "rg_next (sy_registry s) \<noteq> - 1"
  shows "map hs_handle (list_handles (sy_registry s)) = bt_keys (rg_handles (sy_registry s)) \<and>
    sorted_wrt (<) (map hs_handle (list_handles (sy_registry s))) \<and>
    (\<forall>h e. bt_get h (rg_handles (sy_registry s)) = Some e \<longrightarrow>
       published_state (we_published e) \<in> set (list_handles (sy_registry s)))"
proof -
  from server_inv[OF assms] have ok: "bt_ok (rg_handles (sy_registry s))"
    and ids: "\<And>h e. bt_get h (rg_handles (sy_registry s)) = Some e \<Longrightarrow> ph_id (we_published e) = h"
    by (auto simp: system_inv_def entry_inv_def)
  have get: "bt_get h (rg_handles (sy_registry s)) = Some e" if "(h, e) \<in> set (rg_handles (sy_registry s))" for h e
    using ok that by (simp add: bt_get_def bt_ok_def strict_sorted_iff)
  have keys: "map hs_handle (list_handles (sy_registry s)) = bt_keys (rg_handles (sy_registry s))"
    using get ids by (auto simp: list_handles_def bt_values_def bt_keys_def published_state_def handle_state_new_def)
  have listed: "published_state (we_published e) \<in> set (list_handles (sy_registry s))"
    if "bt_get h (rg_handles (sy_registry s)) = Some e" for h e
    using map_of_SomeD[OF that[unfolded bt_get_def]]
    by (force simp: list_handles_def bt_values_def)
  show ?thesis
    unfolding keys using ok listed by (simp add: bt_ok_def bt_keys_def)
qed

theorem list_handles_sorted_witness:
  "map hs_handle (list_handles (sample_registry sample_closed)) = [handle_name 1] \<and>
   hs_connection (hd (list_handles (sample_registry sample_closed))) = CsClosed"
  using list_handles_sorted[OF sample_close sample_fits]
  by (simp add: sample_registry_def bt_keys_def)
    (simp add: list_handles_def bt_values_def published_state_def handle_state_new_def sample_closed_def)

end
