(* ===== verification/Process.thy ===== *)
theory Process
  imports Server
begin

text \<open>
  The process around the server: \<open>lib.rs\<close> of \<open>postgres-mcp\<close>, which serves one session and always
  shuts the core down, and \<open>main.rs\<close>, which parses the command line, loads the configuration and
  turns the outcome into an exit code. The transport, the TOML parser, the file system, the
  environment and the signal handler are parameters.
\<close>

section \<open>Serving\<close>

record serve_failure =
  sf_primary :: string
  sf_cleanup_errors :: "string list"

definition display_failure :: "serve_failure \<Rightarrow> string" where
  "display_failure f =
     sf_primary f @ concat (map (\<lambda>e. ''; cleanup failure: '' @ e) (sf_cleanup_errors f))"

definition cleanup_errors :: "shutdown_report \<Rightarrow> string list" where
  "cleanup_errors report = map (\<lambda>e. ''handle '' @ se_handle e @ '': cleanup uncertain at '' @
       (case se_stage e of None \<Rightarrow> ''unknown'' | Some stage \<Rightarrow> stage))
     (filter (\<lambda>e. se_outcome e \<noteq> OutcomeVerified) report)"

definition static_core_error :: "core_error \<Rightarrow> string" where
  "static_core_error e = ''startup failed: '' @ message (ce_code e)"

text \<open>
  How the session ends: shut down before it is initialised; failed to initialise (and whether the
  shutdown token was cancelled); ran until its transport ended, with or without an error; or shut
  down while running.
\<close>

datatype session =
    StoppedFirst | InitError bool string | Ran "string option" | RanStopped

fun primary_of :: "session \<Rightarrow> string option" where
  "primary_of StoppedFirst = None"
| "primary_of (InitError stopping e) =
     (if stopping then None else Some (''failed to initialize MCP stdio server: '' @ e))"
| "primary_of (Ran e) = map_option (\<lambda>e. ''MCP stdio server failed: '' @ e) e"
| "primary_of RanStopped = None"

definition conclude :: "string option \<Rightarrow> shutdown_report \<Rightarrow> serve_failure + unit" where
  "conclude primary report =
     (let cleanup = cleanup_errors report in
      case primary of
        Some primary \<Rightarrow> Err \<lparr>sf_primary = primary, sf_cleanup_errors = cleanup\<rparr>
      | None \<Rightarrow>
          if cleanup = [] then Ok ()
          else Err \<lparr>sf_primary = ''server stopped with cleanup uncertainty'', sf_cleanup_errors = cleanup\<rparr>)"

text \<open>\<open>serve_with_cleanup\<close> and \<open>serve_profiles\<close>, from the end of the session.\<close>

definition serve ::
  "core_error + core \<Rightarrow> session \<Rightarrow> ('o, 'w) shutdown_env \<Rightarrow> ('o, 'w, serve_failure + unit) open_op" where
  "serve created session env = (case created of
     Inl e \<Rightarrow> ret (Err \<lparr>sf_primary = static_core_error e, sf_cleanup_errors = []\<rparr>)
   | Inr core \<Rightarrow>
       bind (shutdown core env) (\<lambda>report. ret (conclude (primary_of session) report)))"

section \<open>Command line\<close>

datatype command = Serve "string option" | Help | Version

definition is_absolute :: "string \<Rightarrow> bool" where
  "is_absolute p \<longleftrightarrow> starts_with p ''/''"

fun parse_args :: "string option \<Rightarrow> string list \<Rightarrow> string + command" where
  "parse_args config [] = Ok (Serve config)"
| "parse_args config (arg # args) =
     (if arg = ''-h'' \<or> arg = ''--help'' then Ok Help
      else if arg = ''-V'' \<or> arg = ''--version'' then Ok Version
      else if arg = ''--config'' then
        (case args of
           [] \<Rightarrow> Err ''--config requires an absolute path''
         | value # args \<Rightarrow>
             if \<not> is_absolute value then Err ''--config requires an absolute path''
             else parse_args (Some value) args)
      else if starts_with arg ''-'' then Err (''unknown option: '' @ arg)
      else Err (''unexpected argument: '' @ arg))"

section \<open>Configuration\<close>

record process_env =
  px_read :: "string \<Rightarrow> string option"                       \<comment> \<open>\<open>fs::read_to_string\<close>\<close>
  px_keys :: "string \<Rightarrow> string list option option"           \<comment> \<open>\<open>toml::from_str\<close>, see \<open>Config\<close>\<close>
  px_file :: "string \<Rightarrow> config_file option"
  px_config :: "string \<Rightarrow> config_overrides option"
  px_dsn :: "string option"                                  \<comment> \<open>\<open>env::var(DSN_ENVIRONMENT_VARIABLE)\<close>\<close>
  px_sigint :: bool                                          \<comment> \<open>\<open>SigintBridge::install\<close> succeeds\<close>
  px_serve :: "config_file + config \<times> string \<Rightarrow> (serve_failure + unit) option"
    \<comment> \<open>the serve task, none when the shutdown deadline passes first\<close>

datatype loaded_config = Legacy config | Profiles config_file

definition config_message :: string where
  "config_message = message ConfigError"

definition load_config :: "process_env \<Rightarrow> string option \<Rightarrow> string + loaded_config" where
  "load_config env file = (case file of
     None \<Rightarrow> Ok (Legacy config_default)
   | Some file \<Rightarrow>
       and_then (ok_or config_message (px_read env file)) (\<lambda>source.
       and_then (map_err (\<lambda>_. config_message) (is_profile_document (px_keys env) source)) (\<lambda>profiles.
       if profiles then
         and_then (map_err (\<lambda>_. config_message) (file_from_toml (px_file env) source)) (\<lambda>f.
         if cf_profiles f = [] then Err config_message else Ok (Profiles f))
       else
         and_then (map_err (\<lambda>_. config_message) (config_from_toml (px_config env) source)) (\<lambda>c.
         Ok (Legacy c)))))"

definition serve_input :: "process_env \<Rightarrow> loaded_config \<Rightarrow> (config_file + config \<times> string) option" where
  "serve_input env loaded = (case loaded of
     Profiles f \<Rightarrow> Some (Inl f)
   | Legacy c \<Rightarrow> (case px_dsn env of
       Some dsn \<Rightarrow> if dsn \<noteq> [] then Some (Inr (c, dsn)) else None
     | None \<Rightarrow> None))"

definition exit_code :: "process_env \<Rightarrow> string list \<Rightarrow> nat" where
  "exit_code env args = (case parse_args None args of
     Inl _ \<Rightarrow> 2
   | Inr Help \<Rightarrow> 0
   | Inr Version \<Rightarrow> 0
   | Inr (Serve file) \<Rightarrow> (case load_config env file of
       Inl _ \<Rightarrow> 2
     | Inr loaded \<Rightarrow> (case serve_input env loaded of
         None \<Rightarrow> 2
       | Some input \<Rightarrow>
           if \<not> px_sigint env then 1
           else (case px_serve env input of Some (Inr _) \<Rightarrow> 0 | _ \<Rightarrow> 1))))"

section \<open>Lemmas\<close>

lemma cleanup_errors_empty: "cleanup_errors r = [] \<longleftrightarrow> report_verified r"
  by (auto simp: cleanup_errors_def report_verified_def list_all_iff filter_empty_conv)

lemma conclude_Ok: "conclude primary report = Ok u \<longleftrightarrow> primary = None \<and> report_verified report"
  by (auto simp: conclude_def Let_def cleanup_errors_empty split: option.split)

text \<open>The options of a command line without help or version.\<close>

fun config_args :: "string list \<Rightarrow> string list" where
  "config_args [] = []"
| "config_args (p # ps) = ''--config'' # p # config_args ps"

lemma parse_config_args:
  "list_all is_absolute ps \<Longrightarrow>
     parse_args c (config_args ps @ args) = parse_args (if ps = [] then c else Some (last ps)) args"
  by (induction ps arbitrary: c) auto

lemma parse_args_Serve:
  "parse_args c args = Ok (Serve d) \<Longrightarrow>
     \<exists>ps. args = config_args ps \<and> list_all is_absolute ps \<and> d = (if ps = [] then c else Some (last ps))"
proof (induction c args rule: parse_args.induct)
  case (1 c)
  then show ?case by (intro exI[of _ "[]"]) simp
next
  case (2 c arg args)
  then have arg: "arg = ''--config''" by (auto split: if_splits)
  with "2.prems" obtain v rest where args: "args = v # rest" "is_absolute v"
    "parse_args (Some v) rest = Ok (Serve d)" by (auto split: list.splits if_splits)
  from "2.IH"[of v rest] arg args obtain ps where
    "rest = config_args ps" "list_all is_absolute ps" "d = (if ps = [] then Some v else Some (last ps))" by auto
  with arg args show ?case by (intro exI[of _ "v # ps"]) auto
qed

text \<open>A loaded configuration passes the checks of \<open>Core::new\<close>.\<close>

lemma load_config_valid:
  assumes "load_config env file = Ok loaded"
  shows "case loaded of Legacy c \<Rightarrow> config_in_range c
    | Profiles f \<Rightarrow> file_validate f = Ok () \<and> cf_profiles f \<noteq> []"
  using assms config_default_in_range
  by (auto simp: load_config_def file_from_toml_def config_from_toml_def Let_def validate_Ok_iff
      split: option.splits if_splits)

definition create_core :: "bool \<Rightarrow> config_file + config \<times> string \<Rightarrow> core_error + core" where
  "create_core factory input = (case input of
     Inl f \<Rightarrow> core_new_with_profiles factory f | Inr (c, dsn) \<Rightarrow> core_new factory c dsn)"

definition sample_process :: process_env where
  "sample_process = \<lparr>px_read = (\<lambda>_. Some []), px_keys = (\<lambda>_. Some (Some [''max_handles''])),
     px_file = (\<lambda>_. None), px_config = (\<lambda>_. Some no_overrides), px_dsn = Some ''dbname=app'',
     px_sigint = True, px_serve = (\<lambda>_. Some (Ok ()))\<rparr>"

section \<open>Properties\<close>

text \<open>
  C17. A clean end is a verified cleanup: serving succeeds only when the session had no error of its
  own and the frozen report is verified, so that every worker's thread has ended and no opening is
  left; otherwise the failure keeps the session's error as its primary, whatever the cleanup says.
\<close>

theorem serve_ok_means_clean:
  assumes "orderly env" and "rg_lifecycle rg = Running" and "rg_frozen rg = None"
  shows "post (serve (Ok core) session env) (\<lambda>x (rg', w'). \<exists>r report. x = Ok r \<and>
     rg_frozen rg' = Some report \<and>
     (case r of
        Inr u \<Rightarrow> primary_of session = None \<and> report_verified report \<and>
          (\<forall>h \<in> set (bt_keys (rg_handles rg)). joined h rg') \<and>
          (\<forall>h \<in> set (bt_keys (rg_pending rg)). no_reservation h rg')
      | Inl f \<Rightarrow> (primary_of session = None \<longrightarrow> \<not> report_verified report) \<and>
          pred_option (\<lambda>p. sf_primary f = p) (primary_of session) \<and>
          sf_cleanup_errors f = cleanup_errors report)) (rg, w)"
  unfolding serve_def sum.case post_bind
  by (rule post_mono[OF shutdown_reports[OF assms]])
    (auto simp: report_of_def conclude_def Let_def cleanup_errors_empty split: option.split sum.split)

theorem serve_ok_means_clean_witness:
  "post (serve (Ok sample_core) RanStopped (sample_shutdown_env True)) (\<lambda>x (rg', w').
     \<exists>r report. x = Ok r \<and> rg_frozen rg' = Some report \<and> (is_ok r \<longrightarrow> report_verified report))
     (sample_registry (sample_entry :: unit worker_entry), 0)"
  by (rule post_mono[OF serve_ok_means_clean[OF sample_orderly]])
    (fastforce simp: sample_registry_def is_ok_iff split: sum.splits)+

text \<open>
  The command line: it asks to serve exactly when it is a sequence of \<open>--config\<close> options with
  absolute paths, of which the last one counts.
\<close>

theorem parse_args_serves:
  "parse_args None args = Ok (Serve f) \<longleftrightarrow>
     (\<exists>ps. args = config_args ps \<and> list_all is_absolute ps \<and>
        f = (if ps = [] then None else Some (last ps)))"
proof
  assume "parse_args None args = Ok (Serve f)"
  from parse_args_Serve[OF this]
  show "\<exists>ps. args = config_args ps \<and> list_all is_absolute ps \<and>
        f = (if ps = [] then None else Some (last ps))" .
next
  assume "\<exists>ps. args = config_args ps \<and> list_all is_absolute ps \<and>
        f = (if ps = [] then None else Some (last ps))"
  then obtain ps where "args = config_args ps" "list_all is_absolute ps"
    "f = (if ps = [] then None else Some (last ps))" by blast
  with parse_config_args[of ps None "[]"] show "parse_args None args = Ok (Serve f)" by simp
qed

text \<open>
  What is served was validated: a configuration that loads is in range (or is a valid document
  with a profile), so creating the core fails only when the libpq factory does not load; and the
  process ends with 0 only after help, version, or a session that ended cleanly.
\<close>

theorem served_configuration_valid:
  assumes "load_config env f = Ok loaded" and "serve_input env loaded = Some input"
  shows "is_ok (create_core factory input) = factory \<and>
    (parse_args None args = Ok (Serve f) \<longrightarrow>
       (exit_code env args = 0 \<longleftrightarrow> px_sigint env \<and> px_serve env input = Some (Ok ())))"
proof
  show "is_ok (create_core factory input) = factory"
    using load_config_valid[OF assms(1)] assms(2)
    by (auto simp: create_core_def serve_input_def core_new_def core_new_with_profiles_def is_ok_iff validate_Ok_iff
        split: loaded_config.splits option.splits if_splits)
  show "parse_args None args = Ok (Serve f) \<longrightarrow>
      (exit_code env args = 0 \<longleftrightarrow> px_sigint env \<and> px_serve env input = Some (Ok ()))"
    by (auto simp: exit_code_def assms split: option.splits sum.splits)
qed

theorem served_configuration_valid_witness:
  "is_ok (create_core True (Inr (config_default, ''dbname=app''))) \<and> exit_code sample_process [] = 0"
  using served_configuration_valid[where env = sample_process and f = None
      and loaded = "Legacy config_default" and input = "Inr (config_default, ''dbname=app'')"
      and factory = True and args = "[]"]
  by (simp add: load_config_def serve_input_def sample_process_def)

end
