(* ===== verification/Signals.thy ===== *)
theory Signals
  imports Process
begin

text \<open>
  The concurrent end of the process: the SIGINT handler and its bridge, the monitor thread that
  turns the flag into a cancellation, the server task, and the \<open>select!\<close> and the join of \<open>main.rs\<close>
  that decide the exit code. The atomic steps of the three threads and of the signal form a step
  relation. The probe of the integration tests, a loop on the same flag, comes last.
\<close>

section \<open>The bridge\<close>

text \<open>What SIGINT does: run the handler of \<open>main.rs\<close>, or the action that was there before.\<close>

datatype signal_action = BridgeHandler | OtherAction nat

record signals =
  sg_received :: bool            \<comment> \<open>\<open>SIGINT_RECEIVED\<close>\<close>
  sg_action :: signal_action

definition sigint_handler :: "signals \<Rightarrow> signals" where
  "sigint_handler s = s\<lparr>sg_received := True\<rparr>"

text \<open>\<open>SigintBridge::install\<close>: the bridge is the action it replaced; \<open>ok\<close> is what \<open>sigaction\<close> answers.\<close>

definition bridge_install :: "bool \<Rightarrow> signals \<Rightarrow> (unit + signal_action) \<times> signals" where
  "bridge_install ok s =
     (let s = s\<lparr>sg_received := False\<rparr> in
      if \<not> ok then (Err (), s) else (Ok (sg_action s), s\<lparr>sg_action := BridgeHandler\<rparr>))"

definition bridge_drop :: "signal_action \<Rightarrow> signals \<Rightarrow> signals" where
  "bridge_drop previous s = s\<lparr>sg_action := previous\<rparr>"

section \<open>The threads\<close>

text \<open>The server task: running, ended with its result, or lost to a panic.\<close>

datatype task = TaskRunning | TaskEnded "serve_failure + unit" | TaskLost string

text \<open>
  The main task: in \<open>select!\<close>; waiting for the server task until a deadline; joining the monitor
  with an outcome; or at the end, with an exit code.
\<close>

datatype main_task = Selecting | WaitingUntil nat | Joining "serve_failure + unit" | Exited nat

text \<open>The monitor at the head of its loop, between its two loads, or ended.\<close>

datatype monitor = LoopHead | StopRead | MonitorEnded

record process =
  pr_signals :: signals
  pr_cancelled :: bool           \<comment> \<open>\<open>shutdown_ct\<close>\<close>
  pr_monitor_stop :: bool
  pr_monitor :: monitor
  pr_task :: task
  pr_main :: main_task
  pr_now :: nat

text \<open>A load of the monitor thread and what it does with the value.\<close>

definition monitor_turn :: "process \<Rightarrow> process" where
  "monitor_turn s = (case pr_monitor s of
     LoopHead \<Rightarrow> s\<lparr>pr_monitor := (if pr_monitor_stop s then MonitorEnded else StopRead)\<rparr>
   | StopRead \<Rightarrow>
       if sg_received (pr_signals s) then s\<lparr>pr_cancelled := True, pr_monitor := MonitorEnded\<rparr>
       else s\<lparr>pr_monitor := LoopHead\<rparr>
   | MonitorEnded \<Rightarrow> s)"

definition exited :: "process \<Rightarrow> bool" where
  "exited s \<longleftrightarrow> (case pr_main s of Exited _ \<Rightarrow> True | _ \<Rightarrow> False)"

text \<open>\<open>result.unwrap_or_else(|error| Err(ServeFailure { primary: ... }))\<close>\<close>

fun task_result :: "string \<Rightarrow> task \<Rightarrow> (serve_failure + unit) option" where
  "task_result context TaskRunning = None"
| "task_result context (TaskEnded r) = Some r"
| "task_result context (TaskLost e) = Some (Err \<lparr>sf_primary = context @ e, sf_cleanup_errors = []\<rparr>)"

definition begin_join :: "serve_failure + unit \<Rightarrow> process \<Rightarrow> process" where
  "begin_join outcome s = s\<lparr>pr_main := Joining outcome, pr_monitor_stop := True\<rparr>"

definition outcome_code :: "serve_failure + unit \<Rightarrow> nat" where
  "outcome_code outcome = (if is_ok outcome then 0 else 1)"

datatype event = Sigint | MonitorTurn | TaskEnds | SelectTask | SelectCancelled | WaitOver | TimedOut
  | JoinMonitor | ClockTick

text \<open>
  The steps after the bridge is installed; \<open>previous\<close> is the action it replaced and \<open>timeout\<close> is
  \<open>shutdown_total\<close>. \<open>tokio::time::timeout\<close> prefers the task's result to the deadline.
\<close>

inductive process_step :: "signal_action \<Rightarrow> nat \<Rightarrow> process \<Rightarrow> event \<Rightarrow> process \<Rightarrow> bool"
  for previous timeout where
  deliver: "\<not> exited s \<Longrightarrow> sg_action (pr_signals s) = BridgeHandler \<Longrightarrow>
     process_step previous timeout s Sigint (s\<lparr>pr_signals := sigint_handler (pr_signals s)\<rparr>)"
| monitor: "\<not> exited s \<Longrightarrow> pr_monitor s \<noteq> MonitorEnded \<Longrightarrow> process_step previous timeout s MonitorTurn (monitor_turn s)"
| task_ends: "\<not> exited s \<Longrightarrow> pr_task s = TaskRunning \<Longrightarrow> t \<noteq> TaskRunning \<Longrightarrow>
     process_step previous timeout s TaskEnds (s\<lparr>pr_task := t\<rparr>)"
| select_task: "pr_main s = Selecting \<Longrightarrow>
     task_result ''server task failed: '' (pr_task s) = Some outcome \<Longrightarrow>
     process_step previous timeout s SelectTask (begin_join outcome s)"
| select_cancelled: "pr_main s = Selecting \<Longrightarrow> pr_cancelled s \<Longrightarrow>
     process_step previous timeout s SelectCancelled (s\<lparr>pr_main := WaitingUntil (pr_now s + timeout)\<rparr>)"
| wait_over: "pr_main s = WaitingUntil d \<Longrightarrow>
     task_result ''server task failed during shutdown: '' (pr_task s) = Some outcome \<Longrightarrow>
     process_step previous timeout s WaitOver (begin_join outcome s)"
| timed_out: "pr_main s = WaitingUntil d \<Longrightarrow> pr_task s = TaskRunning \<Longrightarrow> d \<le> pr_now s \<Longrightarrow>
     process_step previous timeout s TimedOut (s\<lparr>pr_main := Exited 1\<rparr>)"
| join_monitor: "pr_main s = Joining outcome \<Longrightarrow> pr_monitor s = MonitorEnded \<Longrightarrow>
     process_step previous timeout s JoinMonitor
       (s\<lparr>pr_main := Exited (outcome_code outcome), pr_signals := bridge_drop previous (pr_signals s)\<rparr>)"
| clock: "\<not> exited s \<Longrightarrow> process_step previous timeout s ClockTick (s\<lparr>pr_now := Suc (pr_now s)\<rparr>)"

text \<open>The state in which the threads start, after a successful install.\<close>

definition process_start :: "signal_action \<Rightarrow> process \<Rightarrow> bool" where
  "process_start previous s \<longleftrightarrow> (\<exists>before.
     bridge_install True before = (Ok previous, pr_signals s) \<and>
     \<not> pr_cancelled s \<and> \<not> pr_monitor_stop s \<and> pr_monitor s = LoopHead \<and> pr_task s = TaskRunning \<and>
     pr_main s = Selecting)"

text \<open>\<open>main\<close>: without a runtime nothing runs.\<close>

definition main_exit :: "bool \<Rightarrow> nat \<Rightarrow> nat" where
  "main_exit runtime_built n = (if runtime_built then n else 1)"

inductive_cases process_stepE: "process_step previous timeout s l s'"

section \<open>The probe\<close>

definition probe_body :: "(bool, 'w) reader \<Rightarrow> 'w \<Rightarrow> ('w, 'w) flow option" where
  "probe_body received w = (case received w of (b, w') \<Rightarrow> Some (if b then Break w' else Continue w'))"

text \<open>The exit code and the world when the probe ends; 2 when the handler cannot be installed.\<close>

definition probe :: "bool \<Rightarrow> (bool, 'w) reader \<Rightarrow> 'w \<Rightarrow> (nat \<times> 'w) option" where
  "probe installed received w =
     (if \<not> installed then Some (2, w)
      else map_option (\<lambda>w. (0, w)) (rust_loop (probe_body received) w))"

section \<open>The invariant\<close>

text \<open>
  A cancellation is a SIGINT the handler saw; the main task waits only for a cancelled server; the
  monitor ends only when it is told to or has cancelled; and an exit code tells how the server
  task ended.
\<close>

definition exit_explained :: "signal_action \<Rightarrow> nat \<Rightarrow> process \<Rightarrow> bool" where
  "exit_explained previous timeout s \<longleftrightarrow> (case pr_main s of
     Selecting \<Rightarrow> sg_action (pr_signals s) = BridgeHandler \<and> \<not> pr_monitor_stop s
   | WaitingUntil d \<Rightarrow> sg_action (pr_signals s) = BridgeHandler \<and> \<not> pr_monitor_stop s \<and> pr_cancelled s \<and>
       d \<le> pr_now s + timeout
   | Joining outcome \<Rightarrow> sg_action (pr_signals s) = BridgeHandler \<and> pr_monitor_stop s \<and>
       pr_task s \<noteq> TaskRunning \<and> (is_ok outcome \<longleftrightarrow> pr_task s = TaskEnded (Ok ()))
   | Exited n \<Rightarrow>
       if pr_monitor_stop s
       then sg_action (pr_signals s) = previous \<and> pr_task s \<noteq> TaskRunning \<and> pr_monitor s = MonitorEnded \<and>
         n = (if pr_task s = TaskEnded (Ok ()) then 0 else 1)
       else pr_task s = TaskRunning \<and> pr_cancelled s \<and> n = 1)"

definition process_inv :: "signal_action \<Rightarrow> nat \<Rightarrow> process \<Rightarrow> bool" where
  "process_inv previous timeout s \<longleftrightarrow>
     (pr_cancelled s \<longrightarrow> sg_received (pr_signals s)) \<and>
     (pr_monitor s = MonitorEnded \<longrightarrow> pr_monitor_stop s \<or> pr_cancelled s) \<and> exit_explained previous timeout s"

lemma task_result_Some:
  "task_result c t = Some r \<Longrightarrow> t \<noteq> TaskRunning \<and> (is_ok r \<longleftrightarrow> t = TaskEnded (Ok ()))"
  by (cases t) (auto simp: is_ok_iff)

lemma process_inv_step:
  assumes "process_step previous timeout s l s'" and "process_inv previous timeout s"
  shows "process_inv previous timeout s'"
  using assms
proof (induction rule: process_step.induct)
  case (monitor s)
  then show ?case
    by (cases "pr_monitor s"; cases "pr_main s")
      (auto simp: process_inv_def exit_explained_def monitor_turn_def exited_def)
next
  case (join_monitor s outcome)
  then show ?case
    by (auto simp: process_inv_def exit_explained_def bridge_drop_def outcome_code_def split: if_splits)
next
  case (select_task s outcome)
  from task_result_Some[OF select_task(2)] select_task show ?case
    by (auto simp: process_inv_def exit_explained_def begin_join_def)
next
  case (wait_over s d outcome)
  from task_result_Some[OF wait_over(2)] wait_over show ?case
    by (auto simp: process_inv_def exit_explained_def begin_join_def)
qed (auto simp: process_inv_def exit_explained_def sigint_handler_def exited_def split: main_task.splits if_splits)

interpretation process_system: invariant_system "process_start previous" "process_step previous timeout"
    "process_inv previous timeout" for previous timeout
proof unfold_locales
  show "process_inv previous timeout s" if "process_start previous s" for s
    using that by (auto simp: process_start_def process_inv_def exit_explained_def bridge_install_def Let_def
        dest!: sym[of _ "pr_signals s"])
qed (rule process_inv_step)

section \<open>Ending\<close>

text \<open>The steps of the process itself: no signal, and nothing from the server task.\<close>

definition own_steps :: "event set" where
  "own_steps = {MonitorTurn, SelectTask, SelectCancelled, WaitOver, TimedOut, JoinMonitor, ClockTick}"

definition ends_within :: "signal_action \<Rightarrow> nat \<Rightarrow> nat \<Rightarrow> process \<Rightarrow> bool" where
  "ends_within previous timeout n s \<longleftrightarrow> (\<exists>ls s'. path (process_step previous timeout) s ls s' \<and>
     set ls \<subseteq> own_steps \<and> length ls \<le> n \<and> exited s')"

lemma ends_now: "exited s \<Longrightarrow> ends_within previous timeout n s"
  unfolding ends_within_def by (intro exI[of _ "[]"] exI[of _ s]) (auto intro: path.intros)

lemma ends_step:
  assumes "process_step previous timeout s l s'" and "l \<in> own_steps"
    and "ends_within previous timeout n s'" and "n < m"
  shows "ends_within previous timeout m s"
proof -
  from assms(3) obtain ls s'' where "path (process_step previous timeout) s' ls s''" "set ls \<subseteq> own_steps"
    "length ls \<le> n" "exited s''" unfolding ends_within_def by blast
  with assms(1,2,4) show ?thesis unfolding ends_within_def
    by (intro exI[of _ "l # ls"] exI[of _ s'']) (auto intro: path.intros)
qed

lemma ends_mono: "ends_within previous timeout n s \<Longrightarrow> n \<le> m \<Longrightarrow> ends_within previous timeout m s"
  unfolding ends_within_def by (meson order_trans)

text \<open>Every turn but the last leaves the main task and its flag as they are.\<close>

lemma monitor_turn_sel [simp]:
  "pr_main (monitor_turn s) = pr_main s" "pr_monitor_stop (monitor_turn s) = pr_monitor_stop s"
  "pr_signals (monitor_turn s) = pr_signals s" "exited (monitor_turn s) = exited s"
  by (cases "pr_monitor s"; simp add: monitor_turn_def exited_def)+

lemma joining_ends:
  assumes "pr_main s = Joining outcome" and "pr_monitor_stop s"
  shows "ends_within previous timeout 3 s"
proof -
  have alive: "\<not> exited s" if "pr_main s = Joining outcome" for s using that by (simp add: exited_def)
  have turn: "MonitorTurn \<in> own_steps" by (simp add: own_steps_def)
  have ended: "ends_within previous timeout 1 s" if "pr_main s = Joining outcome" "pr_monitor s = MonitorEnded" for s
    by (rule ends_step[OF process_step.join_monitor[OF that] _ ends_now[where n = 0]])
      (auto simp: own_steps_def exited_def)
  have head: "ends_within previous timeout 2 s"
    if s: "pr_main s = Joining outcome" "pr_monitor_stop s" "pr_monitor s = LoopHead" for s
  proof -
    have ends: "ends_within previous timeout 1 (monitor_turn s)"
      by (rule ended) (use s in \<open>simp_all add: monitor_turn_def\<close>)
    have "process_step previous timeout s MonitorTurn (monitor_turn s)"
      by (rule process_step.monitor[OF alive[OF s(1)]]) (simp add: s(3))
    from ends_step[OF this turn ends] show ?thesis by simp
  qed
  show ?thesis
  proof (cases "pr_monitor s")
    case LoopHead
    from head[OF assms this] show ?thesis by (rule ends_mono) simp
  next
    case StopRead
    have ends: "ends_within previous timeout 2 (monitor_turn s)"
    proof (cases "sg_received (pr_signals s)")
      case True
      with StopRead assms have "ends_within previous timeout 1 (monitor_turn s)"
        by (intro ended) (simp_all add: monitor_turn_def)
      then show ?thesis by (rule ends_mono) simp
    qed (rule head, use StopRead assms in \<open>simp_all add: monitor_turn_def\<close>)
    have "process_step previous timeout s MonitorTurn (monitor_turn s)"
      by (rule process_step.monitor[OF alive[OF assms(1)]]) (simp add: StopRead)
    from ends_step[OF this turn ends] show ?thesis by simp
  next
    case MonitorEnded
    from ended[OF assms(1) this] show ?thesis by (rule ends_mono) simp
  qed
qed

lemma waited_ends:
  assumes "pr_main s = WaitingUntil d" and "pr_task s \<noteq> TaskRunning"
  shows "ends_within previous timeout 4 s"
proof -
  from assms(2) obtain r where "task_result ''server task failed during shutdown: '' (pr_task s) = Some r"
    by (cases "pr_task s") auto
  from process_step.wait_over[OF assms(1) this] show ?thesis
    by (rule ends_step[OF _ _ joining_ends]) (auto simp: own_steps_def begin_join_def)
qed

lemma waiting_ends:
  assumes "pr_main s = WaitingUntil d" and "d \<le> pr_now s + n"
  shows "ends_within previous timeout (n + 4) s"
  using assms
proof (induction n arbitrary: s)
  case 0
  show ?case
  proof (cases "pr_task s = TaskRunning")
    case True
    from process_step.timed_out[OF 0(1) True] 0(2) show ?thesis
      by (intro ends_step[OF _ _ ends_now[where n = 0]]) (auto simp: own_steps_def exited_def)
  qed (use waited_ends[OF 0(1)] in simp)
next
  case (Suc n)
  show ?case
  proof (cases "pr_task s = TaskRunning")
    case True
    have "\<not> exited s" using Suc.prems by (simp add: exited_def)
    from process_step.clock[OF this] show ?thesis
      by (rule ends_step[OF _ _ Suc.IH]) (use Suc.prems in \<open>auto simp: own_steps_def\<close>)
  next
    case False
    from waited_ends[OF Suc.prems(1) this] show ?thesis by (rule ends_mono) simp
  qed
qed

lemma selecting_ends:
  assumes "pr_main s = Selecting" and "pr_cancelled s"
  shows "ends_within previous timeout (timeout + 5) s"
  by (rule ends_step[OF process_step.select_cancelled[OF assms] _ waiting_ends[where n = timeout]])
    (auto simp: own_steps_def)

lemma interrupted_ends:
  assumes "process_inv previous timeout s" and "sg_received (pr_signals s)"
  shows "ends_within previous timeout (timeout + 7) s"
proof (cases "pr_main s")
  case Selecting
  have turn: "MonitorTurn \<in> own_steps" by (simp add: own_steps_def)
  have alive: "\<not> exited s" using Selecting by (simp add: exited_def)
  have read: "ends_within previous timeout (timeout + 6) t"
    if t: "pr_main t = Selecting" "sg_received (pr_signals t)" "pr_monitor t = StopRead" for t
  proof -
    have ends: "ends_within previous timeout (timeout + 5) (monitor_turn t)"
      by (rule selecting_ends) (use t in \<open>simp_all add: monitor_turn_def\<close>)
    have "process_step previous timeout t MonitorTurn (monitor_turn t)"
      by (rule process_step.monitor) (use t in \<open>simp_all add: exited_def\<close>)
    from ends_step[OF this turn ends] show ?thesis by simp
  qed
  show ?thesis
  proof (cases "pr_monitor s")
    case LoopHead
    from assms(1) Selecting have "\<not> pr_monitor_stop s" by (simp add: process_inv_def exit_explained_def)
    with LoopHead Selecting assms(2) have ends: "ends_within previous timeout (timeout + 6) (monitor_turn s)"
      by (intro read) (simp_all add: monitor_turn_def)
    have "process_step previous timeout s MonitorTurn (monitor_turn s)"
      by (rule process_step.monitor) (use alive LoopHead in simp_all)
    from ends_step[OF this turn ends] show ?thesis by simp
  next
    case StopRead
    from read[OF Selecting assms(2) this] show ?thesis by (rule ends_mono) simp
  next
    case MonitorEnded
    with assms(1) Selecting have "pr_cancelled s" by (auto simp: process_inv_def exit_explained_def)
    from selecting_ends[OF Selecting this] show ?thesis by (rule ends_mono) simp
  qed
next
  case (WaitingUntil d)
  with assms(1) have "d \<le> pr_now s + timeout" by (simp add: process_inv_def exit_explained_def)
  from waiting_ends[OF WaitingUntil this] show ?thesis by (rule ends_mono) simp
next
  case (Joining outcome)
  with assms(1) have "pr_monitor_stop s" by (simp add: process_inv_def exit_explained_def)
  from joining_ends[OF Joining this] show ?thesis by (rule ends_mono) simp
qed (simp add: ends_now exited_def)

text \<open>The probe ends with 0 at the first read that finds the flag set.\<close>

lemma probe_returns:
  assumes "fst (received (((\<lambda>w. snd (received w)) ^^ n) w))"
  shows "\<exists>w'. probe True received w = Some (0, w')"
proof -
  have "\<exists>w'. rust_loop (probe_body received) w = Some w'"
    using assms
  proof (induction n arbitrary: w)
    case 0
    then have "probe_body received w = Some (Break (snd (received w)))"
      by (simp add: probe_body_def case_prod_beta)
    then show ?case by (auto dest: rust_loop_Break)
  next
    case (Suc n)
    show ?case
    proof (cases "fst (received w)")
      case True
      then have "probe_body received w = Some (Break (snd (received w)))"
        by (simp add: probe_body_def case_prod_beta)
      then show ?thesis by (auto dest: rust_loop_Break)
    next
      case False
      then have "probe_body received w = Some (Continue (snd (received w)))"
        by (simp add: probe_body_def case_prod_beta)
      from rust_loop_Continue[of "probe_body received", OF this] Suc.IH[of "snd (received w)"] Suc.prems
      show ?thesis by (simp add: funpow_Suc_right del: funpow.simps)
    qed
  qed
  then show ?thesis by (auto simp: probe_def)
qed

text \<open>A run without a signal: the server task ends, the monitor is told to stop and joined.\<close>

definition sample_running :: process where
  "sample_running = \<lparr>pr_signals = \<lparr>sg_received = False, sg_action = BridgeHandler\<rparr>, pr_cancelled = False,
     pr_monitor_stop = False, pr_monitor = LoopHead, pr_task = TaskRunning, pr_main = Selecting, pr_now = 0\<rparr>"

definition sample_ended :: process where
  "sample_ended = \<lparr>pr_signals = \<lparr>sg_received = False, sg_action = OtherAction 0\<rparr>, pr_cancelled = False,
     pr_monitor_stop = True, pr_monitor = MonitorEnded, pr_task = TaskEnded (Ok ()), pr_main = Exited 0,
     pr_now = 0\<rparr>"

lemma sample_started: "reachable (process_start (OtherAction 0)) (process_step (OtherAction 0) 7) sample_running"
proof (rule reachable_start)
  have "bridge_install True \<lparr>sg_received = True, sg_action = OtherAction 0\<rparr> =
      (Ok (OtherAction 0), pr_signals sample_running)"
    by (simp add: bridge_install_def sample_running_def)
  then show "process_start (OtherAction 0) sample_running"
    by (auto simp: process_start_def sample_running_def)
qed

lemma sample_reachable: "reachable (process_start (OtherAction 0)) (process_step (OtherAction 0) 7) sample_ended"
proof -
  let ?step = "process_step (OtherAction 0) 7"
  let ?s1 = "sample_running\<lparr>pr_task := TaskEnded (Ok ())\<rparr>"
  let ?s2 = "begin_join (Ok ()) ?s1"
  let ?s3 = "monitor_turn ?s2"
  have "?step sample_running TaskEnds ?s1"
    by (rule process_step.task_ends) (simp_all add: sample_running_def exited_def)
  moreover have "?step ?s1 SelectTask ?s2"
    by (rule process_step.select_task) (simp_all add: sample_running_def)
  moreover have "?step ?s2 MonitorTurn ?s3"
    by (rule process_step.monitor) (simp_all add: sample_running_def exited_def begin_join_def)
  moreover have "?step ?s3 JoinMonitor (?s3\<lparr>pr_main := Exited (outcome_code (Ok ())),
      pr_signals := bridge_drop (OtherAction 0) (pr_signals ?s3)\<rparr>)"
    by (rule process_step.join_monitor) (simp_all add: sample_running_def begin_join_def monitor_turn_def)
  moreover have "?s3\<lparr>pr_main := Exited (outcome_code (Ok ())),
      pr_signals := bridge_drop (OtherAction 0) (pr_signals ?s3)\<rparr> = sample_ended"
    by (simp add: sample_running_def sample_ended_def begin_join_def monitor_turn_def outcome_code_def
        bridge_drop_def is_ok_def)
  ultimately show ?thesis
    by (metis sample_started reachable_step)
qed

section \<open>The properties\<close>

text \<open>
  C18. The exit code of every interleaving: when the process has exited, its code is that of
  \<open>exit_code\<close> for the way the server task ended, 0 exactly when the task ended without a failure;
  unless the shutdown deadline passed first, the monitor has ended and the previous action for
  SIGINT is in place again; and the server was asked to stop only if SIGINT was received.
\<close>

theorem exit_code_explained:
  assumes "reachable (process_start previous) (process_step previous timeout) s" and "pr_main s = Exited n"
    and "parse_args None args = Ok (Serve f)" and "load_config env f = Ok loaded"
    and "serve_input env loaded = Some input" and "px_sigint env"
    and "px_serve env input = (if pr_monitor_stop s then task_result ''server task failed: '' (pr_task s) else None)"
  shows "n = exit_code env args \<and> (n = 0 \<longleftrightarrow> pr_task s = TaskEnded (Ok ())) \<and>
    (if pr_monitor_stop s then pr_monitor s = MonitorEnded \<and> sg_action (pr_signals s) = previous
     else pr_cancelled s \<and> pr_task s = TaskRunning) \<and>
    (pr_cancelled s \<longrightarrow> sg_received (pr_signals s))"
proof -
  from process_system.reachable_inv[OF assms(1)] have "process_inv previous timeout s" .
  with assms(2-7) show ?thesis
    by (cases "pr_task s")
      (auto simp: process_inv_def exit_explained_def exit_code_def split: if_splits sum.splits)
qed

theorem exit_code_explained_witness:
  "exit_code sample_process [] = 0 \<and> sg_action (pr_signals sample_ended) = OtherAction 0"
  using exit_code_explained[OF sample_reachable, where env = sample_process and n = 0 and args = "[]" and f = None
      and loaded = "Legacy config_default" and input = "Inr (config_default, ''dbname=app'')"]
  by (simp add: load_config_def serve_input_def sample_process_def sample_ended_def)

text \<open>
  C19. SIGINT ends the process: once it has been received, from every reachable state and whatever
  the server task does or fails to do, the steps of the process itself lead to its exit within the
  shutdown timeout and seven steps.
\<close>

theorem sigint_ends_process:
  assumes "reachable (process_start previous) (process_step previous timeout) s" and "sg_received (pr_signals s)"
  shows "\<exists>ls s'. path (process_step previous timeout) s ls s' \<and> set ls \<subseteq> own_steps \<and>
    length ls \<le> timeout + 7 \<and> exited s'"
  using interrupted_ends[OF process_system.reachable_inv[OF assms(1)] assms(2)] unfolding ends_within_def .

theorem sigint_ends_process_witness:
  "\<exists>ls s'. path (process_step (OtherAction 0) 7) (sample_running\<lparr>pr_signals := sigint_handler (pr_signals sample_running)\<rparr>) ls s' \<and>
     set ls \<subseteq> own_steps \<and> length ls \<le> 7 + 7 \<and> exited s'"
proof (rule sigint_ends_process)
  show "reachable (process_start (OtherAction 0)) (process_step (OtherAction 0) 7)
      (sample_running\<lparr>pr_signals := sigint_handler (pr_signals sample_running)\<rparr>)"
    by (rule reachable_step[OF sample_started process_step.deliver])
      (simp_all add: sample_running_def exited_def)
qed (simp add: sigint_handler_def)

end
