(* ===== verification/Release.thy ===== *)
theory Release
  imports Strings "HOL-Library.Multiset"
begin

text \<open>
  The release and build checks that read nothing but text: tags, changelogs, checksums and the
  workflow file of \<open>xtask\<close>, and \<open>build.rs\<close>'s version and environment checks. What the commands of
  \<open>xtask\<close> do with them is in \<open>Publish\<close>.
\<close>

section \<open>Text\<close>

text \<open>An error message; a tag's is kept apart from the version it shows.\<close>

datatype xtask_error = Message string | InvalidTag string string

definition newline :: char where "newline = CHR 0x0A"

text \<open>\<open>str::split\<close> at the characters of a class, on bytes.\<close>

fun split_on :: "(char \<Rightarrow> bool) \<Rightarrow> string \<Rightarrow> string list" where
  "split_on p [] = [[]]"
| "split_on p (c # s) =
     (if p c then [] # split_on p s
      else (case split_on p s of w # ws \<Rightarrow> (c # w) # ws | [] \<Rightarrow> [[c]]))"

definition strip_suffix :: "char \<Rightarrow> string \<Rightarrow> string" where
  "strip_suffix c s = (if s \<noteq> [] \<and> last s = c then butlast s else s)"

text \<open>\<open>str::lines\<close>: a carriage return is part of a terminator only before a line feed.\<close>

definition text_lines :: "string \<Rightarrow> string list" where
  "text_lines s = (let ps = split_on (\<lambda>c. c = newline) s in
     map (strip_suffix (CHR 0x0D)) (butlast ps) @ (if last ps = [] then [] else [last ps]))"

fun join_lines :: "string list \<Rightarrow> string" where
  "join_lines [] = []"
| "join_lines [l] = l"
| "join_lines (l # ls) = l @ newline # join_lines ls"

definition to_ascii_uppercase :: "string \<Rightarrow> string" where
  "to_ascii_uppercase s = map (\<lambda>c. if is_ascii_lower c then char_of (byte c - 32) else c) s"

section \<open>Tags\<close>

definition repo :: string where "repo = ''tilmon-engineering/pg-mcp''"
definition product_name :: string where "product_name = ''postgres-mcp''"

definition targets :: "string list" where
  "targets = [''x86_64-unknown-linux-gnu'', ''aarch64-unknown-linux-gnu'', ''aarch64-apple-darwin'',
     ''x86_64-apple-darwin'']"

definition archive_names :: "string list" where
  "archive_names = [''postgres-mcp-x86_64-unknown-linux-gnu.tar.gz'',
     ''postgres-mcp-aarch64-unknown-linux-gnu.tar.gz'', ''postgres-mcp-aarch64-apple-darwin.tar.gz'',
     ''postgres-mcp-x86_64-apple-darwin.tar.gz'']"

definition expected_tag :: "string \<Rightarrow> string" where
  "expected_tag version = ''v'' @ version"

definition validate_tag :: "string \<Rightarrow> string \<Rightarrow> xtask_error + unit" where
  "validate_tag tag version =
     (if tag = expected_tag version \<and> length (split_on (\<lambda>c. c = CHR ''.'') version) = 3
         \<and> version \<noteq> [] \<and> is_ascii_digit (hd version)
         \<and> list_all (\<lambda>c. is_ascii_alphanumeric c \<or> contains_char ''.-+'' c) version
      then Ok () else Err (InvalidTag tag version))"

section \<open>Release notes\<close>

definition number_or_zero :: "string \<Rightarrow> 32 word" where
  "number_or_zero s = (case parse_u32 s of None \<Rightarrow> 0 | Some n \<Rightarrow> n)"

definition date_valid :: "string \<Rightarrow> bool" where
  "date_valid s = (case split_on (\<lambda>c. c = CHR ''-'') s of
     [y, m, d] \<Rightarrow> length y = 4 \<and> length m = 2 \<and> length d = 2
       \<and> list_all (list_all is_ascii_digit) [y, m, d]
       \<and> 1 \<le> number_or_zero m \<and> number_or_zero m \<le> 12
       \<and> 1 \<le> number_or_zero d \<and> number_or_zero d \<le> 31
   | _ \<Rightarrow> False)"

type_synonym fence = "(char \<times> nat) option"

definition opens_fence :: "string \<Rightarrow> bool" where
  "opens_fence line \<longleftrightarrow> starts_with (trim_start line) ''```'' \<or> starts_with (trim_start line) ''~~~''"

text \<open>The fenced block after a line: an open fence closes at a run of its own character.\<close>

definition fence_step :: "string \<Rightarrow> fence \<Rightarrow> fence" where
  "fence_step line fence = (let trimmed = trim_start line in case fence of
     Some (ch, n) \<Rightarrow>
       let close = length (takeWhile (\<lambda>b. b = ch) trimmed)
       in if n \<le> close \<and> is_blank (drop close trimmed) then None else Some (ch, n)
   | None \<Rightarrow>
       if opens_fence line then Some (hd trimmed, length (takeWhile (\<lambda>b. b = hd trimmed) trimmed))
       else None)"

definition malformed_heading :: "string \<Rightarrow> bool" where
  "malformed_heading line \<longleftrightarrow> \<not> starts_with line ''## '' \<and> starts_with line ''##'' \<and> \<not> starts_with line ''###''"

fun scan_headings :: "nat \<Rightarrow> string list \<Rightarrow> fence \<Rightarrow> xtask_error + (nat \<times> string) list \<times> fence" where
  "scan_headings i [] fence = Ok ([], fence)"
| "scan_headings i (line # ls) fence =
     (if fence \<noteq> None \<or> opens_fence line then scan_headings (Suc i) ls (fence_step line fence)
      else if starts_with line ''## '' then
        and_then (scan_headings (Suc i) ls None) (\<lambda>(starts, fence). Ok ((i, line) # starts, fence))
      else if malformed_heading line then Err (Message ''malformed level-two heading'')
      else scan_headings (Suc i) ls None)"

definition unreleased :: string where "unreleased = ''## [Unreleased]''"

text \<open>The version and the date of a release heading.\<close>

definition release_heading :: "string \<Rightarrow> (string \<times> string) option" where
  "release_heading h =
     (if \<not> starts_with h ''## ['' then None
      else let rest = drop 4 h in
        map_option (\<lambda>at. (take at rest, drop (at + 4) rest)) (find_str rest ''] - ''))"

fun find_sections :: "string \<Rightarrow> (nat \<times> string) list \<Rightarrow> xtask_error + nat list" where
  "find_sections version [] = Ok []"
| "find_sections version ((i, h) # hs) =
     (if h = unreleased then find_sections version hs
      else (case release_heading h of
         None \<Rightarrow> Err (Message ''malformed release heading'')
       | Some (v, date) \<Rightarrow>
           if \<not> date_valid date then Err (Message ''release heading date must be YYYY-MM-DD'')
           else and_then (find_sections version hs) (\<lambda>found.
             Ok (if v = version then i # found else found))))"

definition extract_notes :: "string \<Rightarrow> string \<Rightarrow> xtask_error + string" where
  "extract_notes text version =
     (let ls = text_lines text in
      if ls = [] \<or> hd ls \<noteq> ''# Changelog'' then Err (Message ''changelog must begin with # Changelog'')
      else and_then (scan_headings 0 ls None) (\<lambda>(starts, fence).
        if fence \<noteq> None then Err (Message ''unterminated fenced block'')
        else and_then (find_sections version starts) (\<lambda>found.
          case found of
            [i] \<Rightarrow>
              let stop = (case find (\<lambda>(j, _). i < j) starts of None \<Rightarrow> length ls | Some (j, _) \<Rightarrow> j);
                  body = join_lines (take (stop - Suc i) (drop (Suc i) ls))
              in if is_blank body then Err (Message ''release notes are empty'')
                 else Ok (trim body @ [newline])
          | _ \<Rightarrow> Err (Message (''expected exactly one changelog section for '' @ version)))))"

section \<open>Checksums\<close>

fun checksum_names :: "string list \<Rightarrow> xtask_error + string list" where
  "checksum_names [] = Ok []"
| "checksum_names (l # ls) = (case split_whitespace l of
     [digest, name] \<Rightarrow>
       if length digest = 64 \<and> list_all is_ascii_hexdigit digest then
         and_then (checksum_names ls) (\<lambda>names. Ok (dropWhile (\<lambda>c. c = CHR ''*'') name # names))
       else Err (Message ''invalid checksum line'')
   | _ \<Rightarrow> Err (Message ''invalid checksum line''))"

definition verify_checksums :: "string \<Rightarrow> string list \<Rightarrow> xtask_error + unit" where
  "verify_checksums text expected =
     and_then (checksum_names (text_lines text)) (\<lambda>names.
     if length names \<noteq> length expected
        \<or> list_ex (\<lambda>x. length (filter (\<lambda>n. n = x) names) \<noteq> 1) expected
     then Err (Message ''checksums must contain exactly expected archives'') else Ok ())"

section \<open>The workflow\<close>

definition workflow_markers :: "string list" where
  "workflow_markers = [''validate:'', ''native:'', ''publish:'', ''verify-published:'',
     ''verify-release-metadata:'', ''x86_64-unknown-linux-gnu'', ''aarch64-unknown-linux-gnu'',
     ''aarch64-apple-darwin'', ''x86_64-apple-darwin'', ''libpq@17'', ''pkg-config'', ''readelf -d'',
     ''otool -L'', ''SHA256SUMS'']"

definition position :: "string \<Rightarrow> string \<Rightarrow> string \<Rightarrow> xtask_error + nat" where
  "position text p e = ok_or (Message e) (find_str text p)"

definition check_workflow :: "string \<Rightarrow> xtask_error + unit" where
  "check_workflow text =
     and_then (for_each (\<lambda>marker _. require (contains_str text marker)
       (Message (''workflow missing '' @ marker))) workflow_markers ()) (\<lambda>_.
     and_then (position text ''  publish:'' ''workflow missing publish job'') (\<lambda>publish_pos.
     and_then (position text ''  native:'' ''workflow missing native job'') (\<lambda>native_pos.
     and_then (position text ''  verify-published:'' ''workflow missing public verification job'') (\<lambda>verify_pos.
     if publish_pos < native_pos \<or> \<not> contains_str (drop publish_pos text) ''needs: native''
        \<or> \<not> contains_str (drop verify_pos text) ''needs: publish''
     then Err (Message ''workflow job dependency contract failed'')
     else
       and_then (position text ''verify-archive'' ''workflow missing pre-extraction archive verification'') (\<lambda>archive_pos.
       and_then (position text (''tar -xzf '' @ [CHR 0x22] @ ''$RUNNER_TEMP/assets'')
         ''workflow missing controlled extraction'') (\<lambda>extract_pos.
       if extract_pos < archive_pos then Err (Message ''archive verification must precede extraction'')
       else Ok ()))))))"

section \<open>The build script\<close>

definition minimum_libpq :: "32 word \<times> 32 word \<times> 32 word" where
  "minimum_libpq = (17, 0, 0)"

fun nth_or_zero :: "32 word list \<Rightarrow> nat \<Rightarrow> 32 word" where
  "nth_or_zero [] i = 0"
| "nth_or_zero (x # xs) 0 = x"
| "nth_or_zero (x # xs) (Suc i) = nth_or_zero xs i"

fun triple_le :: "32 word \<times> 32 word \<times> 32 word \<Rightarrow> 32 word \<times> 32 word \<times> 32 word \<Rightarrow> bool" where
  "triple_le (a, b, c) (x, y, z) \<longleftrightarrow> a < x \<or> a = x \<and> (b < y \<or> b = y \<and> c \<le> z)"

definition version_at_least :: "string \<Rightarrow> 32 word \<times> 32 word \<times> 32 word \<Rightarrow> bool" where
  "version_at_least value minimum =
     (let cs = map number_or_zero (filter (\<lambda>w. w \<noteq> []) (split_on (\<lambda>c. \<not> is_ascii_digit c) value))
      in triple_le minimum (nth_or_zero cs 0, nth_or_zero cs 1, nth_or_zero cs 2))"

definition refused_names :: "string list" where
  "refused_names = [''PQ_LIB_DIR'', ''PQ_LIB_STATIC'', ''LIBPQ_STATIC'', ''PKG_CONFIG_ALL_STATIC'',
     ''PG_CONFIG'', ''PQ_LIB_DIR_x86_64_unknown_linux_gnu'', ''PQ_LIB_STATIC_x86_64_unknown_linux_gnu'',
     ''LIBPQ_STATIC_x86_64_unknown_linux_gnu'', ''PG_CONFIG_x86_64_unknown_linux_gnu'']"

definition refused_prefix :: "string \<Rightarrow> bool" where
  "refused_prefix name \<longleftrightarrow> list_ex (starts_with (to_ascii_uppercase name))
     [''PQ_LIB_DIR_'', ''PQ_LIB_STATIC_'', ''LIBPQ_STATIC_'', ''PG_CONFIG_'']"

definition refused_feature :: "string \<Rightarrow> bool" where
  "refused_feature name \<longleftrightarrow> starts_with name ''CARGO_FEATURE_''
     \<and> (ends_with name ''BUNDLED'' \<or> ends_with name ''BUNDLED_WITHOUT_OPENSSL'')"

text \<open>The environment a build runs in; a panic is an error.\<close>

definition reject_unsupported_environment :: "(string \<times> string) list \<Rightarrow> xtask_error + unit" where
  "reject_unsupported_environment env =
     and_then (for_each (\<lambda>name _. require (map_of env name = None)
       (Message (name @ '' is unsupported: use dynamic libpq discovered by pkg-config''))) refused_names ()) (\<lambda>_.
     and_then (for_each (\<lambda>(name, _) _. require (\<not> refused_prefix name)
       (Message (name @ '' is unsupported: use dynamic libpq discovered by pkg-config''))) env ()) (\<lambda>_.
     for_each (\<lambda>(name, value) _. require (\<not> refused_feature name)
       (Message (name @ ''='' @ value @ '' is unsupported: postgres-mcp requires dynamic system libpq''))) env ()))"

text \<open>What pkg-config answers for libpq.\<close>

record library =
  lb_version :: string
  lb_link_files :: "string list"
  lb_frameworks :: "string list"
  lb_ld_args :: "string list list"
  lb_libs :: "string list"

definition or_default :: "string option \<Rightarrow> string" where
  "or_default x = (case x of None \<Rightarrow> [] | Some s \<Rightarrow> s)"

definition build :: "(string \<times> string) list \<Rightarrow> string + library \<Rightarrow> xtask_error + unit" where
  "build env probe =
     and_then (reject_unsupported_environment env) (\<lambda>_.
     if \<not> (or_default (map_of env ''TARGET'') \<in> set targets
        \<and> or_default (map_of env ''CARGO_CFG_TARGET_OS'') \<in> {''linux'', ''macos''})
     then Err (Message ''postgres-mcp supports only the selected Linux GNU and macOS Darwin targets with dynamic libpq'')
     else and_then (map_err (\<lambda>e. Message
       (''libpq >= 17 is required through dynamic pkg-config discovery; '' @ e)) probe) (\<lambda>l.
     if \<not> version_at_least (trim (lb_version l)) minimum_libpq
     then Err (Message (''pkg-config selected libpq '' @ trim (lb_version l) @ '', but libpq >= 17.0.0 is required''))
     else if lb_link_files l \<noteq> [] \<or> lb_frameworks l \<noteq> []
        \<or> list_ex (list_ex (\<lambda>a. contains_str a ''-Bstatic'' \<or> contains_str a ''--whole-archive'')) (lb_ld_args l)
     then Err (Message ''pkg-config returned static or unsupported libpq link metadata'')
     else if ''pq'' \<notin> set (lb_libs l)
     then Err (Message ''pkg-config did not provide the dynamic libpq library'')
     else Ok ()))"

section \<open>Printable text\<close>

definition printable :: "char \<Rightarrow> bool" where
  "printable c \<longleftrightarrow> 33 \<le> byte c \<and> byte c < 127"

lemma printable_not_white: "printable c \<Longrightarrow> white_len (c # s) = 0"
  by (auto simp: printable_def white_len_def white3_def split: list.split)

lemma space_white: "white_len (CHR '' '' # s) = 1"
  by (simp add: white_len_def byte_def)

lemma trim_start_printable: "printable c \<Longrightarrow> trim_start (c # s) = c # s"
  by (subst trim_start.simps) (simp add: printable_not_white)

lemma trim_start_word: "list_all printable w \<Longrightarrow> w \<noteq> [] \<Longrightarrow> trim_start (w @ s) = w @ s"
  by (cases w) (auto simp: trim_start_printable)

lemma trim_end_word: "list_all printable w \<Longrightarrow> trim_end w = w"
  by (induction w) (auto simp: trim_end.simps printable_not_white)

lemma trim_word: "list_all printable w \<Longrightarrow> trim w = w"
  using trim_start_word[of w "[]"] by (cases "w = []") (auto simp: trim_def trim_end_word trim_start.simps)

lemma until_white_word: "list_all printable w \<Longrightarrow> until_white (w @ CHR '' '' # s) = w"
  by (induction w) (auto simp: until_white.simps printable_not_white space_white)

lemma until_white_end: "list_all printable w \<Longrightarrow> until_white w = w"
  by (induction w) (auto simp: until_white.simps printable_not_white)

lemma split_whitespace_last: "list_all printable w \<Longrightarrow> w \<noteq> [] \<Longrightarrow> split_whitespace w = [w]"
  using trim_start_word[of w "[]"]
  by (simp add: split_whitespace.simps until_white_end trim_start.simps[of "[]"] until_white.simps[of "[]"])

lemma split_whitespace_word:
  assumes "list_all printable w" and "w \<noteq> []"
  shows "split_whitespace (w @ CHR '' '' # s) = w # split_whitespace s"
proof -
  have "split_whitespace (CHR '' '' # s) = split_whitespace s"
    by (subst (1 2) split_whitespace.simps) (simp add: trim_start.simps[of "_ # _"] space_white)
  moreover have "split_whitespace (w @ CHR '' '' # s) = w # split_whitespace (CHR '' '' # s)"
    using assms by (subst split_whitespace.simps) (simp add: trim_start_word until_white_word)
  ultimately show ?thesis by simp
qed

lemma split_on_last: "list_all (\<lambda>c. \<not> p c) l \<Longrightarrow> split_on p l = [l]"
  by (induction l) auto

lemma split_on_first: "list_all (\<lambda>c. \<not> p c) l \<Longrightarrow> p c \<Longrightarrow> split_on p (l @ c # s) = l # split_on p s"
  by (induction l) auto

lemma split_on_nonempty [simp]: "split_on p s \<noteq> []"
  by (cases s) (auto split: list.split)

definition one_line :: "string \<Rightarrow> bool" where
  "one_line l \<longleftrightarrow> newline \<notin> set l \<and> (l = [] \<or> last l \<noteq> CHR 0x0D)"

lemma text_lines_line:
  assumes "one_line l"
  shows "text_lines (l @ newline # s) = l # text_lines s"
proof -
  from assms have "split_on (\<lambda>c. c = newline) (l @ newline # s) = l # split_on (\<lambda>c. c = newline) s"
    by (intro split_on_first) (auto simp: one_line_def list_all_iff)
  with assms show ?thesis by (auto simp: text_lines_def Let_def one_line_def strip_suffix_def)
qed

lemma text_lines_end:
  assumes "newline \<notin> set l" and "l \<noteq> []"
  shows "text_lines l = [l]"
proof -
  from assms(1) have "split_on (\<lambda>c. c = newline) l = [l]" by (intro split_on_last) (auto simp: list_all_iff)
  with assms(2) show ?thesis by (simp add: text_lines_def Let_def)
qed

lemma text_lines_Nil [simp]: "text_lines [] = []"
  by (simp add: text_lines_def)

section \<open>The sections of a changelog\<close>

text \<open>The fence a line is in, and the level-two headings outside fences.\<close>

definition fence_after :: "string list \<Rightarrow> fence \<Rightarrow> fence" where
  "fence_after ls fence = foldl (\<lambda>f l. fence_step l f) fence ls"

definition heading_at :: "fence \<Rightarrow> string list \<Rightarrow> nat \<Rightarrow> bool" where
  "heading_at fence ls i \<longleftrightarrow> i < length ls \<and> fence_after (take i ls) fence = None \<and> starts_with (ls ! i) ''## ''"

fun headings :: "nat \<Rightarrow> string list \<Rightarrow> fence \<Rightarrow> (nat \<times> string) list" where
  "headings i [] fence = []"
| "headings i (l # ls) fence =
     (if fence = None \<and> starts_with l ''## '' then [(i, l)] else []) @ headings (Suc i) ls (fence_step l fence)"

definition clean_at :: "fence \<Rightarrow> string list \<Rightarrow> nat \<Rightarrow> bool" where
  "clean_at fence ls i \<longleftrightarrow> \<not> (fence_after (take i ls) fence = None \<and> malformed_heading (ls ! i))"

lemma hash_white: "white_len (CHR ''#'' # s) = 0"
  by (simp add: white_len_def byte_def white3_def split: list.split)

lemma hash_no_fence: "starts_with l ''##'' \<Longrightarrow> \<not> opens_fence l"
  by (cases l) (auto simp: starts_with_def opens_fence_def trim_start.simps[of "_ # _"] hash_white)

lemma starts_with_append: "starts_with s (p @ q) \<Longrightarrow> starts_with s p"
  by (auto simp: starts_with_def dest: arg_cong[where f = "take (length p)"])

lemma heading_no_fence: "starts_with l ''## '' \<Longrightarrow> \<not> opens_fence l"
  using starts_with_append[of l "''##''" "'' ''"] by (simp add: hash_no_fence)

lemma fence_step_plain: "\<not> opens_fence l \<Longrightarrow> fence_step l None = None"
  by (simp add: fence_step_def Let_def)

lemma fence_after_Cons: "fence_after (l # ls) fence = fence_after ls (fence_step l fence)"
  by (simp add: fence_after_def)

lemma fence_after_Nil [simp]: "fence_after [] fence = fence"
  by (simp add: fence_after_def)

lemma all_less_Suc: "(\<forall>i < Suc n. P i) \<longleftrightarrow> P 0 \<and> (\<forall>i < n. P (Suc i))"
  using less_Suc_eq_0_disj by auto

lemma scan_headings_Ok:
  "scan_headings i ls fence = Ok r \<longleftrightarrow>
     (\<forall>k < length ls. clean_at fence ls k) \<and> r = (headings i ls fence, fence_after ls fence)"
proof (induction ls arbitrary: i fence r)
  case Nil
  then show ?case by auto
next
  case (Cons l ls)
  have clean: "(\<forall>k < length (l # ls). clean_at fence (l # ls) k) \<longleftrightarrow>
      \<not> (fence = None \<and> malformed_heading l) \<and> (\<forall>k < length ls. clean_at (fence_step l fence) ls k)"
    by (simp only: list.size(4) add_0_right add_Suc_right all_less_Suc)
      (simp add: clean_at_def fence_after_Cons)
  consider (fence) "fence \<noteq> None \<or> opens_fence l" | (heading) "fence = None" "\<not> opens_fence l" "starts_with l ''## ''"
    | (malformed) "fence = None" "\<not> opens_fence l" "malformed_heading l"
    | (other) "fence = None" "\<not> opens_fence l" "\<not> starts_with l ''## ''" "\<not> malformed_heading l"
    by blast
  then show ?case
  proof cases
    case fence
    then have "\<not> (fence = None \<and> starts_with l ''## '')" "\<not> (fence = None \<and> malformed_heading l)"
      by (auto simp: malformed_heading_def dest: heading_no_fence hash_no_fence)
    with fence show ?thesis unfolding clean by (auto simp: Cons.IH fence_after_Cons)
  next
    case heading
    then have "\<not> malformed_heading l" by (simp add: malformed_heading_def)
    with heading show ?thesis unfolding clean
      by (auto simp: Cons.IH fence_after_Cons fence_step_plain)
  next
    case malformed
    then have "\<not> starts_with l ''## ''" by (simp add: malformed_heading_def)
    with malformed show ?thesis unfolding clean by simp
  next
    case other
    then show ?thesis unfolding clean by (simp add: Cons.IH fence_after_Cons fence_step_plain)
  qed
qed

lemma headings_mem:
  "(k, h) \<in> set (headings i ls fence) \<longleftrightarrow> (\<exists>m. k = i + m \<and> heading_at fence ls m \<and> h = ls ! m)"
proof (induction ls arbitrary: i fence)
  case Nil
  then show ?case by (simp add: heading_at_def)
next
  case (Cons l ls)
  have "(\<exists>m. k = i + m \<and> heading_at fence (l # ls) m \<and> h = (l # ls) ! m) \<longleftrightarrow>
      (k = i \<and> fence = None \<and> starts_with l ''## '' \<and> h = l) \<or>
      (\<exists>m. k = Suc i + m \<and> heading_at (fence_step l fence) ls m \<and> h = ls ! m)" (is "(\<exists>m. ?P m) \<longleftrightarrow> _")
  proof -
    have "(\<exists>m. ?P m) \<longleftrightarrow> ?P 0 \<or> (\<exists>m. ?P (Suc m))" by (metis not0_implies_Suc)
    then show ?thesis by (simp add: heading_at_def fence_after_Cons)
  qed
  then show ?case using Cons.IH[of "Suc i" "fence_step l fence"] by auto
qed

lemma headings_sorted: "sorted_wrt (<) (map fst (headings i ls fence))"
proof (induction ls arbitrary: i fence)
  case Nil
  then show ?case by simp
next
  case (Cons l ls)
  have "i < k" if "(k, h) \<in> set (headings (Suc i) ls f)" for k h f
    using that by (auto simp: headings_mem)
  then show ?case using Cons.IH by (auto simp: sorted_wrt_append)
qed

lemma find_sections_Ok:
  "find_sections version hs = Ok found \<longleftrightarrow>
     (\<forall>(i, h) \<in> set hs. h = unreleased \<or> (\<exists>v d. release_heading h = Some (v, d) \<and> date_valid d)) \<and>
     found = map fst (filter (\<lambda>(i, h). h \<noteq> unreleased \<and> map_option fst (release_heading h) = Some version) hs)"
proof (induction hs arbitrary: found)
  case Nil
  then show ?case by auto
next
  case (Cons ih hs)
  obtain i h where ih: "ih = (i, h)" by fastforce
  show ?case
  proof (cases "h = unreleased")
    case True
    then show ?thesis by (auto simp: ih Cons.IH)
  next
    case False
    then show ?thesis
      by (cases "release_heading h") (auto simp: ih Cons.IH split: prod.splits)
  qed
qed

text \<open>
  A changelog is well formed when it begins with its title, no fence is left open, and every
  level-two heading outside fences is the unreleased one or names a version and a date.
\<close>

definition changelog_ok :: "string list \<Rightarrow> bool" where
  "changelog_ok ls \<longleftrightarrow> ls \<noteq> [] \<and> hd ls = ''# Changelog'' \<and> fence_after ls None = None \<and>
     (\<forall>i < length ls. clean_at None ls i) \<and>
     (\<forall>i. heading_at None ls i \<longrightarrow> ls ! i = unreleased \<or>
        (\<exists>v d. release_heading (ls ! i) = Some (v, d) \<and> date_valid d))"

definition section_at :: "string list \<Rightarrow> string \<Rightarrow> nat \<Rightarrow> bool" where
  "section_at ls version i \<longleftrightarrow> heading_at None ls i \<and> ls ! i \<noteq> unreleased \<and>
     map_option fst (release_heading (ls ! i)) = Some version"

text \<open>The section ends before the next heading, or with the file.\<close>

definition section_end :: "string list \<Rightarrow> nat \<Rightarrow> nat \<Rightarrow> bool" where
  "section_end ls i j \<longleftrightarrow> i < j \<and> (\<forall>k. i < k \<longrightarrow> k < j \<longrightarrow> \<not> heading_at None ls k) \<and>
     (j = length ls \<or> heading_at None ls j)"

lemma sorted_find:
  fixes hs :: "(nat \<times> string) list"
  assumes "sorted_wrt (<) (map fst hs)" and "find (\<lambda>(j, h). i < j) hs = Some (j, h)"
  shows "(j, h) \<in> set hs \<and> i < j \<and> (\<forall>(k, g) \<in> set hs. i < k \<longrightarrow> j \<le> k)"
  using assms by (induction hs) (auto split: if_splits simp: less_imp_le)

lemma section_end_found:
  assumes "i < length ls"
  shows "section_end ls i (case find (\<lambda>(j, h). i < j) (headings 0 ls None) of
    None \<Rightarrow> length ls | Some (j, h) \<Rightarrow> j)"
proof (cases "find (\<lambda>(j, h). i < j) (headings 0 ls None)")
  case None
  then have "\<not> heading_at None ls k" if "i < k" for k
    using that headings_mem[of k "ls ! k" 0 ls None] by (auto simp: find_None_iff)
  with None assms show ?thesis by (simp add: section_end_def)
next
  case (Some jh)
  obtain j h where jh: "jh = (j, h)" by fastforce
  from sorted_find[OF headings_sorted Some[unfolded jh]]
  have mem: "(j, h) \<in> set (headings 0 ls None)" and "i < j"
    and least: "\<And>k g. (k, g) \<in> set (headings 0 ls None) \<Longrightarrow> i < k \<Longrightarrow> j \<le> k" by auto
  have "\<not> heading_at None ls k" if "i < k" "k < j" for k
    using that least[of k "ls ! k"] by (auto simp: headings_mem)
  with mem \<open>i < j\<close> Some jh show ?thesis by (auto simp: section_end_def headings_mem)
qed

lemma section_end_unique: "section_end ls i j \<Longrightarrow> section_end ls i k \<Longrightarrow> j = k"
  unfolding section_end_def heading_at_def by (metis linorder_neqE_nat)

lemma filter_unique:
  fixes hs :: "(nat \<times> string) list"
  assumes "sorted_wrt (<) (map fst hs)"
  shows "map fst (filter p hs) = [i] \<longleftrightarrow> (\<forall>k. (\<exists>h. (k, h) \<in> set hs \<and> p (k, h)) \<longleftrightarrow> k = i)"
proof -
  have sorted: "sorted_wrt (<) (map fst (filter p hs))"
    using assms by (simp add: sorted_wrt_map sorted_wrt_filter)
  have "map fst (filter p hs) = [i] \<longleftrightarrow> set (map fst (filter p hs)) = {i}"
  proof
    assume set: "set (map fst (filter p hs)) = {i}"
    from sorted have "distinct (map fst (filter p hs))" by (simp add: strict_sorted_iff)
    then have "length (map fst (filter p hs)) = 1" using set by (metis distinct_card card_1_singleton_iff One_nat_def)
    with set show "map fst (filter p hs) = [i]" by (cases "map fst (filter p hs)") auto
  qed auto
  also have "\<dots> \<longleftrightarrow> (\<forall>k. (\<exists>h. (k, h) \<in> set hs \<and> p (k, h)) \<longleftrightarrow> k = i)"
    by (auto simp: set_eq_iff image_iff)
  finally show ?thesis .
qed

lemma find_sections_headings:
  "find_sections version (headings 0 ls None) = Ok [i] \<longleftrightarrow>
     (\<forall>i. heading_at None ls i \<longrightarrow> ls ! i = unreleased \<or>
        (\<exists>v d. release_heading (ls ! i) = Some (v, d) \<and> date_valid d)) \<and>
     (\<forall>k. section_at ls version k \<longleftrightarrow> k = i)"
proof -
  have "(\<forall>(i, h) \<in> set (headings 0 ls None). h = unreleased \<or> (\<exists>v d. release_heading h = Some (v, d) \<and> date_valid d))
      \<longleftrightarrow> (\<forall>i. heading_at None ls i \<longrightarrow> ls ! i = unreleased \<or>
        (\<exists>v d. release_heading (ls ! i) = Some (v, d) \<and> date_valid d))"
    by (auto simp: headings_mem)
  moreover have "(\<exists>h. (k, h) \<in> set (headings 0 ls None) \<and> h \<noteq> unreleased \<and>
      map_option fst (release_heading h) = Some version) \<longleftrightarrow> section_at ls version k" for k
    by (auto simp: headings_mem section_at_def)
  ultimately show ?thesis
    using filter_unique[OF headings_sorted[of 0 ls None],
        of "\<lambda>(i, h). h \<noteq> unreleased \<and> map_option fst (release_heading h) = Some version" i]
    unfolding find_sections_Ok by (simp add: eq_commute[of "[i]"])
qed

definition section_body :: "string list \<Rightarrow> nat \<Rightarrow> nat \<Rightarrow> string" where
  "section_body ls i j = join_lines (take (j - Suc i) (drop (Suc i) ls))"

lemma one_section:
  "(case found of [i] \<Rightarrow> f i | _ \<Rightarrow> Err e) = Ok notes \<longleftrightarrow> (\<exists>i. found = [i] \<and> f i = Ok notes)"
  by (auto split: list.split)

lemma ex_end:
  assumes "\<And>i j. P i \<Longrightarrow> E i j \<longleftrightarrow> j = f i"
  shows "(\<exists>i. P i \<and> B (g i (f i)) \<and> C (g i (f i))) \<longleftrightarrow> (\<exists>i j. P i \<and> E i j \<and> B (g i j) \<and> C (g i j))"
  by (rule ex_cong1) (simp add: assms cong: conj_cong)

section \<open>Properties\<close>

text \<open>
  C40. The release notes are the version's own section: they are extracted exactly when the
  changelog is well formed, the version has one section outside fenced blocks, and its body is not
  blank; they are then the trimmed lines between its heading and the next one, whatever fenced
  blocks that body has.
\<close>

theorem extract_notes_iff:
  fixes source version :: string
  defines "ls \<equiv> text_lines source"
  shows "extract_notes source version = Ok notes \<longleftrightarrow> changelog_ok ls \<and>
    (\<exists>i j. (\<forall>k. section_at ls version k \<longleftrightarrow> k = i) \<and> section_end ls i j \<and>
       \<not> is_blank (section_body ls i j) \<and> notes = trim (section_body ls i j) @ [newline])"
proof -
  let ?stop = "\<lambda>i. case find (\<lambda>(j, h). i < j) (headings 0 ls None) of None \<Rightarrow> length ls | Some (j, h) \<Rightarrow> j"
  have "extract_notes source version = Ok notes \<longleftrightarrow> ls \<noteq> [] \<and> hd ls = ''# Changelog'' \<and>
      (\<forall>k < length ls. clean_at None ls k) \<and> fence_after ls None = None \<and>
      (\<exists>i. find_sections version (headings 0 ls None) = Ok [i] \<and>
        \<not> is_blank (section_body ls i (?stop i)) \<and> notes = trim (section_body ls i (?stop i)) @ [newline])"
    unfolding extract_notes_def Let_def ls_def[symmetric]
    by (auto simp: scan_headings_Ok section_body_def one_section simp del: not_None_eq)
  also have "\<dots> \<longleftrightarrow> changelog_ok ls \<and> (\<exists>i. (\<forall>k. section_at ls version k \<longleftrightarrow> k = i) \<and>
        \<not> is_blank (section_body ls i (?stop i)) \<and> notes = trim (section_body ls i (?stop i)) @ [newline])"
    unfolding find_sections_headings changelog_ok_def by blast
  also have "\<dots> \<longleftrightarrow> changelog_ok ls \<and>
    (\<exists>i j. (\<forall>k. section_at ls version k \<longleftrightarrow> k = i) \<and> section_end ls i j \<and>
       \<not> is_blank (section_body ls i j) \<and> notes = trim (section_body ls i j) @ [newline])"
  proof -
    have "section_end ls i j \<longleftrightarrow> j = ?stop i" if "\<forall>k. section_at ls version k \<longleftrightarrow> k = i" for i j
    proof -
      from that have "i < length ls" by (auto simp: section_at_def heading_at_def)
      from section_end_found[OF this] show ?thesis by (metis section_end_unique)
    qed
    then show ?thesis by (intro arg_cong2[where f = conj] refl ex_end) auto
  qed
  finally show ?thesis .
qed

text \<open>
  Tags: a version is three dot-separated parts, so a pre-release with dots of its own is refused,
  and a calendar date is not checked against its month.
\<close>

lemma tag_examples:
  "is_ok (validate_tag ''v0.1.1'' ''0.1.1'')" "is_ok (validate_tag ''v1.0.0-rc1'' ''1.0.0-rc1'')"
  "validate_tag ''v1.0.0-rc.1'' ''1.0.0-rc.1'' = Err (InvalidTag ''v1.0.0-rc.1'' ''1.0.0-rc.1'')"
  by (simp_all add: validate_tag_def expected_tag_def is_ascii_digit_def is_ascii_alphanumeric_def
      is_ascii_upper_def is_ascii_lower_def contains_char_def byte_def)

lemma impossible_date: "date_valid ''2024-02-31''"
  by (simp add: date_valid_def is_ascii_digit_def byte_def number_or_zero_def parse_u32_def digit_value_def)

lemma checksum_names_split:
  "checksum_names ls = Ok names \<longleftrightarrow> list_all2 (\<lambda>l name. \<exists>digest n. split_whitespace l = [digest, n] \<and>
     length digest = 64 \<and> list_all is_ascii_hexdigit digest \<and> name = dropWhile (\<lambda>c. c = CHR ''*'') n) ls names"
  by (induction ls arbitrary: names) (auto simp: list_all2_Cons1 split: list.splits)

lemma filter_count: "length (filter (\<lambda>n. n = x) xs) = count (mset xs) x"
  by (induction xs) auto

text \<open>The names of a valid checksum file are the expected ones, once each, in any order.\<close>

theorem verify_checksums_iff:
  assumes "distinct expected"
  shows "verify_checksums source expected = Ok u \<longleftrightarrow>
    (\<exists>names. checksum_names (text_lines source) = Ok names \<and> mset names = mset expected)"
proof -
  have "length names = length expected \<and> (\<forall>x \<in> set expected. length (filter (\<lambda>n. n = x) names) = 1)
      \<longleftrightarrow> mset names = mset expected" for names
  proof
    assume one: "length names = length expected \<and> (\<forall>x \<in> set expected. length (filter (\<lambda>n. n = x) names) = 1)"
    then have "mset expected \<subseteq># mset names"
      using assms by (auto simp: subseteq_mset_def filter_count distinct_count_atmost_1)
    then obtain rest where rest: "mset names = mset expected + rest"
      by (auto simp: mset_subset_eq_exists_conv)
    with one have "size rest = 0" by (metis add_cancel_right_right size_mset size_union)
    with rest show "mset names = mset expected" by simp
  next
    assume eq: "mset names = mset expected"
    then have "length names = length expected" by (metis size_mset)
    with eq assms show "length names = length expected \<and>
        (\<forall>x \<in> set expected. length (filter (\<lambda>n. n = x) names) = 1)"
      by (simp add: filter_count distinct_count_atmost_1)
  qed
  then show ?thesis
    by (auto simp: verify_checksums_def list_ex_iff split: if_splits)
qed

end
