(* ===== verification/Publish.thy ===== *)
theory Publish
  imports Release Effect
begin

text \<open>
  The commands of \<open>xtask\<close>: what they read, which programs they run and in which order. Programs,
  files, the clock and the TOML and JSON parsers are reached through \<open>xtask_env\<close>; the state is the
  log of the programs that ran, with their outputs, and the world.
\<close>

section \<open>Environment\<close>

record process_output =
  out_success :: bool
  out_stdout :: string
  out_stderr :: string

record release_asset =
  ra_name :: string
  ra_size :: "64 word"
  ra_url :: "string option"

record release_json =
  rl_draft :: bool
  rl_prerelease :: bool
  rl_tag_name :: string
  rl_target_commitish :: string
  rl_body :: string
  rl_published_at :: "string option"
  rl_assets :: "release_asset list"

text \<open>\<open>'t\<close> and \<open>'j\<close> are \<open>toml::Value\<close> and \<open>serde_json::Value\<close>; an error is its \<open>to_string\<close>.\<close>

record ('t, 'j, 'w) xtask_env =
  xe_run :: "string \<Rightarrow> string list \<Rightarrow> string option \<Rightarrow> (string + process_output, 'w) reader"  \<comment> \<open>program, arguments, directory\<close>
  xe_read :: "string \<Rightarrow> (string + string, 'w) reader"           \<comment> \<open>\<open>fs::read_to_string\<close>\<close>
  xe_write :: "string \<Rightarrow> string \<Rightarrow> (string + unit, 'w) reader"
  xe_create_dir :: "bool \<Rightarrow> string \<Rightarrow> (string + unit, 'w) reader"  \<comment> \<open>true: \<open>create_dir_all\<close>\<close>
  xe_copy :: "string \<Rightarrow> string \<Rightarrow> (string + unit, 'w) reader"
  xe_read_dir :: "string \<Rightarrow> (string + string list, 'w) reader"
  xe_len :: "string \<Rightarrow> (string + nat, 'w) reader"
  xe_exists :: "string \<Rightarrow> (bool, 'w) reader"
  xe_is_file :: "string \<Rightarrow> (bool, 'w) reader"
  xe_remove_dir_all :: "string \<Rightarrow> 'w \<Rightarrow> 'w"
  xe_nanos :: "(string, 'w) reader"
  xe_pid :: string
  xe_toml :: "string \<Rightarrow> string + 't"
  xe_get :: "string \<Rightarrow> 't \<Rightarrow> 't option"
  xe_as_table :: "'t \<Rightarrow> 't option"
  xe_as_str :: "'t \<Rightarrow> string option"
  xe_as_bool :: "'t \<Rightarrow> bool option"
  xe_as_array :: "'t \<Rightarrow> 't list option"
  xe_release :: "string \<Rightarrow> string + release_json"
  xe_releases :: "string \<Rightarrow> string + release_json list"
  xe_release_bytes :: "release_json \<Rightarrow> string + string"
  xe_json :: "string \<Rightarrow> string + 'j"
  xe_json_get :: "string \<Rightarrow> 'j \<Rightarrow> 'j option"
  xe_json_str :: "'j \<Rightarrow> string option"
  xe_evidence :: "string \<Rightarrow> string \<Rightarrow> string \<Rightarrow> string list \<Rightarrow> string + string"

type_synonym command_run = "string \<times> string list \<times> process_output"
type_synonym ('w, 'a) task = "(command_run list \<times> 'w, xtask_error, 'a) eff"

definition io :: "(string + 'a, 'w) reader \<Rightarrow> ('w, 'a) task" where
  "io f = bind (rd f) (\<lambda>r. of_result (map_err Message r))"

definition fail :: "string \<Rightarrow> ('w, 'a) task" where
  "fail e = throw (Message e)"

definition want :: "bool \<Rightarrow> string \<Rightarrow> ('w, unit) task" where
  "want b e = of_result (require b (Message e))"

definition some_or :: "'a option \<Rightarrow> string \<Rightarrow> ('w, 'a) task" where
  "some_or x e = of_result (ok_or (Message e) x)"

fun each :: "('a \<Rightarrow> ('w, unit) task) \<Rightarrow> 'a list \<Rightarrow> ('w, unit) task" where
  "each f [] = ret ()"
| "each f (x # xs) = bind (f x) (\<lambda>_. each f xs)"

section \<open>Text\<close>

text \<open>\<open>Path::join\<close> with a relative path, and a path as UTF-8.\<close>

definition path_join :: "string \<Rightarrow> string \<Rightarrow> string" where
  "path_join base p = (if base = [] \<or> last base = CHR ''/'' then base @ p else base @ ''/'' @ p)"

definition to_str :: "string \<Rightarrow> string option" where
  "to_str p = (if utf8_valid p then Some p else None)"

text \<open>
  \<open>String::from_utf8_lossy\<close>: whether the bytes start with a character, and the length of it or of
  the longest prefix of one.
\<close>

definition second_byte :: "nat \<Rightarrow> nat \<Rightarrow> bool" where
  "second_byte a b \<longleftrightarrow> cont_byte b \<and> (a = 224 \<longrightarrow> 160 \<le> b) \<and> (a = 237 \<longrightarrow> b \<le> 159) \<and> (a = 240 \<longrightarrow> 144 \<le> b)
     \<and> (a = 244 \<longrightarrow> b \<le> 143)"

definition char_width :: "nat \<Rightarrow> nat" where
  "char_width a = (if a < 128 then 1 else if a < 194 then 0 else if a < 224 then 2
     else if a < 240 then 3 else if a < 245 then 4 else 0)"

fun chunk :: "nat list \<Rightarrow> bool \<times> nat" where
  "chunk [] = (True, 0)"
| "chunk (a # r) =
     (let width = char_width a;
          good = (case r of [] \<Rightarrow> 1
            | b # r' \<Rightarrow> if second_byte a b then 2 + length (takeWhile cont_byte (take (width - 2) r')) else 1)
      in if width = 0 then (False, 1) else if width \<le> good then (True, width) else (False, good))"

function from_utf8_lossy :: "string \<Rightarrow> string" where
  "from_utf8_lossy s =
     (if s = [] then []
      else case chunk (map byte (take 4 s)) of (good, n) \<Rightarrow>
        (if good then take n s else [CHR 0xEF, CHR 0xBF, CHR 0xBD]) @ from_utf8_lossy (drop (max 1 n) s))"
  by pat_completeness auto
termination
  by (relation "measure length") auto

declare from_utf8_lossy.simps [simp del]

definition trimmed_stdout :: "process_output \<Rightarrow> string" where
  "trimmed_stdout out = trim (from_utf8_lossy (out_stdout out))"

text \<open>\<open>str::matches(needle).count()\<close> of a needle that is not empty.\<close>

function match_count :: "string \<Rightarrow> string \<Rightarrow> nat" where
  "match_count p [] = 0"
| "match_count p (c # s) =
     (if starts_with (c # s) p then Suc (match_count p (drop (length p - 1) s)) else match_count p s)"
  by pat_completeness auto
termination
  by (relation "measure (\<lambda>(p, s). length s)") auto

definition quoted :: "string \<Rightarrow> string" where
  "quoted s = [CHR 0x22] @ s @ [CHR 0x22]"

section \<open>Programs\<close>

definition log_run :: "command_run \<Rightarrow> ('w, unit) task" where
  "log_run c = modify (\<lambda>(log, w). (log @ [c], w))"

definition run_with ::
  "(string \<Rightarrow> string) \<Rightarrow> ('t, 'j, 'w) xtask_env \<Rightarrow> string \<Rightarrow> string list \<Rightarrow> string option \<Rightarrow> ('w, process_output) task" where
  "run_with describe env program args dir =
     bind (rd (xe_run env program args dir)) (\<lambda>r. case r of
       Inl e \<Rightarrow> fail (describe e)
     | Inr out \<Rightarrow> bind (log_run (program, args, out)) (\<lambda>_. ret out))"

definition run ::
  "('t, 'j, 'w) xtask_env \<Rightarrow> string \<Rightarrow> string list \<Rightarrow> string option \<Rightarrow> ('w, process_output) task" where
  "run env program args dir = run_with (\<lambda>e. ''run '' @ program @ '': '' @ e) env program args dir"

definition check_ok :: "process_output \<Rightarrow> string \<Rightarrow> ('w, unit) task" where
  "check_ok out what = want (out_success out) (what @ '' failed: '' @ trim (from_utf8_lossy (out_stderr out)))"

definition run_ok ::
  "('t, 'j, 'w) xtask_env \<Rightarrow> string \<Rightarrow> string list \<Rightarrow> string option \<Rightarrow> string \<Rightarrow> ('w, process_output) task" where
  "run_ok env program args dir what =
     bind (run env program args dir) (\<lambda>out. bind (check_ok out what) (\<lambda>_. ret out))"

definition curl :: "string list \<Rightarrow> string list" where
  "curl args = [''--disable'', ''--proto'', ''=https'', ''--proto-redir'', ''=https'', ''--fail'',
     ''--location'', ''--silent'', ''--show-error''] @ args"

section \<open>The repository\<close>

definition toml_value :: "('t, 'j, 'w) xtask_env \<Rightarrow> string \<Rightarrow> ('w, 't) task" where
  "toml_value env p = bind (io (xe_read env p)) (\<lambda>s. of_result (map_err Message (xe_toml env s)))"

definition package_version :: "('t, 'j, 'w) xtask_env \<Rightarrow> string \<Rightarrow> ('w, string \<times> bool) task" where
  "package_version env p =
     bind (toml_value env p) (\<lambda>doc.
     bind (some_or (Option.bind (xe_get env ''package'' doc) (xe_as_table env)) ''missing package'') (\<lambda>p.
     bind (some_or (xe_get env ''version'' p) ''missing version'') (\<lambda>v.
     ret (or_default (xe_as_str env v),
       Option.bind (xe_get env ''workspace'' v) (xe_as_bool env) = Some True))))"

definition check_member :: "('t, 'j, 'w) xtask_env \<Rightarrow> string \<Rightarrow> 't list \<Rightarrow> string \<Rightarrow> ('w, unit) task" where
  "check_member env root members m =
     (if \<not> list_ex (\<lambda>x. xe_as_str env x = Some m) members then fail (''workspace missing '' @ m)
      else bind (package_version env (path_join (path_join root m) ''Cargo.toml'')) (\<lambda>(literal, inherited).
        want (inherited \<and> literal = []) (m @ '' must use version.workspace = true'')))"

definition lock_needle :: "string \<Rightarrow> string \<Rightarrow> string" where
  "lock_needle package version =
     ''name = '' @ quoted package @ [newline] @ ''version = '' @ quoted version"

definition check_lock :: "string \<Rightarrow> string \<Rightarrow> string \<Rightarrow> ('w, unit) task" where
  "check_lock lock version package = want (match_count (lock_needle package version) lock = 1)
     (''Cargo.lock entry for '' @ package @ '' does not match '' @ version)"

definition validate_repository :: "('t, 'j, 'w) xtask_env \<Rightarrow> string \<Rightarrow> string \<Rightarrow> ('w, string) task" where
  "validate_repository env root tag =
     bind (toml_value env (path_join root ''Cargo.toml'')) (\<lambda>doc.
     bind (some_or (Option.bind (xe_get env ''workspace'' doc) (xe_as_table env)) ''missing workspace'') (\<lambda>ws.
     bind (some_or (Option.bind (xe_get env ''package'' ws) (\<lambda>x.
       Option.bind (xe_get env ''version'' x) (xe_as_str env))) ''missing workspace version'') (\<lambda>version.
     bind (of_result (validate_tag tag version)) (\<lambda>_.
     bind (some_or (Option.bind (xe_get env ''members'' ws) (xe_as_array env)) ''missing members'') (\<lambda>members.
     bind (each (check_member env root members) [''crates/postgres-mcp'', ''crates/postgres-mcp-core'']) (\<lambda>_.
     bind (io (xe_read env (path_join root ''Cargo.lock''))) (\<lambda>lock.
     bind (each (check_lock lock version) [''postgres-mcp'', ''postgres-mcp-core'']) (\<lambda>_.
     bind (run_ok env ''cargo'' [''metadata'', ''--locked'', ''--no-deps'', ''--format-version'', ''1'']
       (Some root) ''cargo metadata'') (\<lambda>_.
     ret version)))))))))"

section \<open>Assets\<close>

definition asset_names :: "string list" where
  "asset_names = archive_names @ [''SHA256SUMS'']"

definition checksum :: "('t, 'j, 'w) xtask_env \<Rightarrow> string \<Rightarrow> ('w, string) task" where
  "checksum env p =
     bind (some_or (to_str p) ''non-utf8 path'') (\<lambda>p.
     bind (run_ok env ''sha256sum'' [p] None ''sha256sum'') (\<lambda>out.
     case split_whitespace (from_utf8_lossy (out_stdout out)) of
       [] \<Rightarrow> fail ''missing checksum'' | w # _ \<Rightarrow> ret w))"

definition listed_checksum :: "string \<Rightarrow> string \<Rightarrow> string" where
  "listed_checksum sums n = (case find (\<lambda>l. ends_with l n) (text_lines sums) of
     None \<Rightarrow> [] | Some l \<Rightarrow> (case split_whitespace l of [] \<Rightarrow> [] | w # _ \<Rightarrow> w))"

definition check_asset :: "('t, 'j, 'w) xtask_env \<Rightarrow> string \<Rightarrow> string \<Rightarrow> string \<Rightarrow> ('w, unit) task" where
  "check_asset env dir sums n =
     bind (checksum env (path_join dir n)) (\<lambda>c.
     want (c = listed_checksum sums n) (''checksum mismatch for '' @ n))"

definition verify_asset_dir :: "('t, 'j, 'w) xtask_env \<Rightarrow> string \<Rightarrow> ('w, string list) task" where
  "verify_asset_dir env dir =
     bind (io (xe_read_dir env dir)) (\<lambda>got.
     bind (want (sort got = sort asset_names)
       ''asset directory must contain exactly four archives and SHA256SUMS'') (\<lambda>_.
     bind (io (xe_read env (path_join dir ''SHA256SUMS''))) (\<lambda>sums.
     bind (of_result (verify_checksums sums archive_names)) (\<lambda>_.
     bind (each (check_asset env dir sums) archive_names) (\<lambda>_.
     ret (map (path_join dir) archive_names))))))"

definition verify_binary :: "('t, 'j, 'w) xtask_env \<Rightarrow> string \<Rightarrow> string \<Rightarrow> ('w, unit) task" where
  "verify_binary env binary version =
     bind (rd (xe_is_file env binary)) (\<lambda>present.
     if \<not> present then fail ''binary missing''
     else bind (run_with (\<lambda>e. e) env binary [''--version''] None) (\<lambda>out.
       want (out_success out \<and> out_stderr out = [] \<and> out_stdout out = product_name @ '' '' @ version @ [newline])
         ''--version contract failed''))"

definition fetch_asset :: "('t, 'j, 'w) xtask_env \<Rightarrow> string \<Rightarrow> string \<Rightarrow> string \<Rightarrow> ('w, unit) task" where
  "fetch_asset env tag dir name =
     bind (some_or (to_str (path_join dir name)) ''bad asset path'') (\<lambda>destination.
     bind (run_ok env ''curl'' (curl [''--output'', destination,
         ''https://github.com/'' @ repo @ ''/releases/download/'' @ tag @ ''/'' @ name])
       None ''anonymous asset download'') (\<lambda>_. ret ()))"

definition fetch_public_assets :: "('t, 'j, 'w) xtask_env \<Rightarrow> string \<Rightarrow> string \<Rightarrow> ('w, unit) task" where
  "fetch_public_assets env tag dir =
     (if \<not> starts_with tag ''v'' then fail ''invalid release tag''
      else bind (io (xe_create_dir env True dir)) (\<lambda>_.
        bind (each (fetch_asset env tag dir) asset_names) (\<lambda>_.
        bind (verify_asset_dir env dir) (\<lambda>_. ret ()))))"

definition check_members :: "('t, 'j, 'w) xtask_env \<Rightarrow> string \<Rightarrow> string \<Rightarrow> ('w, unit) task" where
  "check_members env dir name =
     bind (some_or (to_str (path_join dir name)) ''bad archive path'') (\<lambda>archive.
     bind (run_ok env ''tar'' [''-tzf'', archive] None ''archive listing'') (\<lambda>out.
     want (text_lines (from_utf8_lossy (out_stdout out)) = [product_name])
       (''archive '' @ name @ '' must contain only '' @ product_name)))"

definition verify_archive_members :: "('t, 'j, 'w) xtask_env \<Rightarrow> string \<Rightarrow> ('w, unit) task" where
  "verify_archive_members env dir = each (check_members env dir) archive_names"

definition verify_archive :: "('t, 'j, 'w) xtask_env \<Rightarrow> string \<Rightarrow> ('w, unit) task" where
  "verify_archive env dir = bind (verify_asset_dir env dir) (\<lambda>_. verify_archive_members env dir)"

definition verify_downloads ::
  "('t, 'j, 'w) xtask_env \<Rightarrow> string \<Rightarrow> string \<Rightarrow> string \<Rightarrow> string \<Rightarrow> ('w, unit) task" where
  "verify_downloads env root tag dir binary =
     bind (validate_repository env root tag) (\<lambda>version.
     bind (verify_asset_dir env dir) (\<lambda>_.
     bind (verify_archive_members env dir) (\<lambda>_.
     verify_binary env binary version)))"

section \<open>Releases\<close>

definition decode_release :: "('t, 'j, 'w) xtask_env \<Rightarrow> process_output \<Rightarrow> ('w, release_json) task" where
  "decode_release env out = of_result
     (map_err (\<lambda>e. Message (''invalid GitHub release JSON: '' @ e)) (xe_release env (out_stdout out)))"

definition decode_releases ::
  "('t, 'j, 'w) xtask_env \<Rightarrow> string \<Rightarrow> process_output \<Rightarrow> ('w, release_json list) task" where
  "decode_releases env what out = of_result
     (map_err (\<lambda>e. Message (''invalid '' @ what @ '' JSON: '' @ e)) (xe_releases env (out_stdout out)))"

definition compare_asset ::
  "('t, 'j, 'w) xtask_env \<Rightarrow> string \<Rightarrow> string \<Rightarrow> string \<Rightarrow> ('w, unit) task" where
  "compare_asset env dir download name =
     bind (checksum env (path_join dir name)) (\<lambda>c.
     bind (checksum env (path_join download name)) (\<lambda>d.
     bind (want (c = d) (''release asset digest mismatch for '' @ name)) (\<lambda>_.
     bind (io (xe_len env (path_join dir name))) (\<lambda>m.
     bind (io (xe_len env (path_join download name))) (\<lambda>n.
     want (m = n) (''release asset size mismatch for '' @ name))))))"

definition compare_release_assets ::
  "('t, 'j, 'w) xtask_env \<Rightarrow> string \<Rightarrow> string \<Rightarrow> string \<Rightarrow> ('w, unit) task" where
  "compare_release_assets env root tag dir =
     (let download = path_join (path_join root ''target'') (''.xtask-release-download-'' @ xe_pid env) in
      bind (rd (xe_exists env download)) (\<lambda>present.
      if present then fail ''release download directory already exists; manual recovery required''
      else bind (io (xe_create_dir env True download)) (\<lambda>_.
        bind (attempt
          (bind (some_or (to_str download) ''bad download path'') (\<lambda>p.
           bind (run_ok env ''gh'' [''release'', ''download'', tag, ''--dir'', p] (Some root)
             ''release asset download'') (\<lambda>_.
           bind (verify_archive env download) (\<lambda>_.
           each (compare_asset env dir download) asset_names))))) (\<lambda>r.
        bind (act (xe_remove_dir_all env download)) (\<lambda>_. of_result r)))))"

definition tag_api :: "string \<Rightarrow> string" where
  "tag_api tag = ''repos/'' @ repo @ ''/releases/tags/'' @ tag"

definition list_api :: "string list" where
  "list_api = [''api'', ''repos/'' @ repo @ ''/releases'', ''--paginate'']"

definition edit_args :: "string \<Rightarrow> string list" where
  "edit_args tag = [''release'', ''edit'', tag, ''--draft=false'']"

definition confirm_published :: "('t, 'j, 'w) xtask_env \<Rightarrow> string \<Rightarrow> string \<Rightarrow> ('w, unit) task" where
  "confirm_published env root tag =
     bind (run env ''gh'' [''api'', tag_api tag] (Some root)) (\<lambda>out.
     bind (decode_release env out) (\<lambda>release.
     want (\<not> rl_draft release \<and> rl_published_at release \<noteq> None)
       ''release publish transition was not confirmed''))"

section \<open>Publishing\<close>

definition trim_slashes :: "string \<Rightarrow> string" where
  "trim_slashes s = rev (dropWhile (\<lambda>c. c = CHR ''/'') (rev s))"

definition origin_url :: string where
  "origin_url = ''https://github.com/'' @ repo @ ''.git''"

definition notes_path :: "string \<Rightarrow> string" where
  "notes_path root = path_join root ''target/release-notes.md''"

text \<open>The checks before anything is written or published.\<close>

definition git_checks ::
  "('t, 'j, 'w) xtask_env \<Rightarrow> string \<Rightarrow> string \<Rightarrow> string \<Rightarrow> ('w, unit) task" where
  "git_checks env root tag sha =
     bind (run_ok env ''git'' [''rev-parse'', ''HEAD''] (Some root) ''git HEAD'') (\<lambda>head.
     bind (want (trimmed_stdout head = sha) ''checked-out HEAD does not match expected SHA'') (\<lambda>_.
     bind (run_ok env ''git'' [''remote'', ''get-url'', ''origin''] (Some root) ''origin preflight'') (\<lambda>remote.
     bind (want (trim_slashes (trimmed_stdout remote) = origin_url) ''origin must be canonical HTTPS GitHub URL'') (\<lambda>_.
     bind (run_ok env ''git'' [''cat-file'', ''-t'', tag] (Some root) ''annotated tag check'') (\<lambda>tag_type.
     bind (want (trimmed_stdout tag_type = ''tag'') ''release tag must be annotated'') (\<lambda>_.
     bind (run_ok env ''git'' [''rev-parse'', tag @ ''^{}''] (Some root) ''tag target check'') (\<lambda>peeled.
     want (trimmed_stdout peeled = sha) ''annotated tag does not resolve to expected SHA'')))))))"

definition write_notes :: "('t, 'j, 'w) xtask_env \<Rightarrow> string \<Rightarrow> string \<Rightarrow> ('w, unit) task" where
  "write_notes env root version =
     bind (io (xe_create_dir env True (path_join root ''target''))) (\<lambda>_.
     bind (io (xe_read env (path_join root ''CHANGELOG.md''))) (\<lambda>changelog.
     bind (of_result (extract_notes changelog version)) (\<lambda>notes.
     io (xe_write env (notes_path root) notes))))"

text \<open>The release of the tag: by its tag, or the only one of the list, whose bytes are printed again.\<close>

definition find_release ::
  "('t, 'j, 'w) xtask_env \<Rightarrow> string \<Rightarrow> string \<Rightarrow> ('w, process_output) task" where
  "find_release env root tag =
     bind (run env ''gh'' [''api'', tag_api tag] (Some root)) (\<lambda>existing.
     if out_success existing then ret existing
     else
       bind (run_ok env ''gh'' list_api (Some root) ''release list'') (\<lambda>listed.
       bind (decode_releases env ''release list'' listed) (\<lambda>releases.
       case filter (\<lambda>r. rl_tag_name r = tag) releases of
         [] \<Rightarrow> map_error (\<lambda>e. case e of Message m \<Rightarrow> Message (''release lookup fallback: '' @ m) | e \<Rightarrow> e)
           (run env ''false'' [] None)
       | [release] \<Rightarrow>
           bind (run env ''true'' [] None) (\<lambda>synthetic.
           bind (of_result (map_err Message (xe_release_bytes env release))) (\<lambda>bytes.
           ret (synthetic\<lparr>out_stdout := bytes\<rparr>)))
       | _ \<Rightarrow> fail ''multiple releases share this tag; manual recovery required'')))"

definition go_public :: "('t, 'j, 'w) xtask_env \<Rightarrow> string \<Rightarrow> string \<Rightarrow> ('w, unit) task" where
  "go_public env root tag =
     bind (run_ok env ''gh'' (edit_args tag) (Some root) ''GitHub release publish'') (\<lambda>_.
     confirm_published env root tag)"

definition publish_draft ::
  "('t, 'j, 'w) xtask_env \<Rightarrow> string \<Rightarrow> string \<Rightarrow> string \<Rightarrow> string \<Rightarrow> string \<Rightarrow> process_output \<Rightarrow> ('w, unit) task" where
  "publish_draft env root tag sha dir version out =
     bind (decode_release env out) (\<lambda>release.
     bind (want (rl_draft release) ''release is already published; refusing overwrite'') (\<lambda>_.
     bind (want (rl_tag_name release = tag \<and> rl_target_commitish release = sha
         \<and> rl_prerelease release = contains_char version (CHR ''-''))
       ''existing draft release metadata mismatch; manual recovery required'') (\<lambda>_.
     bind (io (xe_read env (notes_path root))) (\<lambda>notes.
     bind (want (trim_end (rl_body release) = trim_end notes)
       ''existing draft notes mismatch; manual recovery required'') (\<lambda>_.
     bind (want (map ra_name (rl_assets release) = asset_names)
       ''existing draft assets mismatch; manual recovery required'') (\<lambda>_.
     bind (compare_release_assets env root tag dir) (\<lambda>_.
     go_public env root tag)))))))"

definition create_args :: "string \<Rightarrow> string \<Rightarrow> string \<Rightarrow> string list \<Rightarrow> string list" where
  "create_args tag sha notes assets = [''release'', ''create'', tag, ''--verify-tag'', ''--target'', sha,
     ''--draft'', ''--notes-file'', notes] @ assets"

definition asset_path :: "string \<Rightarrow> string \<Rightarrow> xtask_error + string" where
  "asset_path dir name = ok_or (Message ''bad asset path'') (to_str (path_join dir name))"

definition draft_mismatch :: string where
  "draft_mismatch = ''created draft metadata mismatch; manual recovery required''"

definition create_release ::
  "('t, 'j, 'w) xtask_env \<Rightarrow> string \<Rightarrow> string \<Rightarrow> string \<Rightarrow> string \<Rightarrow> ('w, unit) task" where
  "create_release env root tag sha dir =
     bind (some_or (to_str (notes_path root)) ''bad notes path'') (\<lambda>notes.
     bind (of_result (map_result (asset_path dir) asset_names)) (\<lambda>assets.
     bind (run_ok env ''gh'' (create_args tag sha notes assets) (Some root) ''GitHub draft release'') (\<lambda>_.
     bind (run_ok env ''gh'' list_api (Some root) ''created release lookup'') (\<lambda>created.
     bind (decode_releases env ''created release list'' created) (\<lambda>releases.
     bind (some_or (find (\<lambda>r. rl_tag_name r = tag) releases) ''created draft disappeared'') (\<lambda>release.
     bind (want (rl_draft release \<and> rl_tag_name release = tag \<and> rl_target_commitish release = sha)
       draft_mismatch) (\<lambda>_.
     bind (io (xe_read env (notes_path root))) (\<lambda>written.
     bind (want (trim_end (rl_body release) = trim_end written) draft_mismatch) (\<lambda>_.
     go_public env root tag)))))))))"

definition publish ::
  "('t, 'j, 'w) xtask_env \<Rightarrow> string \<Rightarrow> string \<Rightarrow> string \<Rightarrow> string \<Rightarrow> ('w, unit) task" where
  "publish env root tag sha dir =
     bind (validate_repository env root tag) (\<lambda>version.
     bind (git_checks env root tag sha) (\<lambda>_.
     bind (write_notes env root version) (\<lambda>_.
     bind (verify_asset_dir env dir) (\<lambda>_.
     bind (find_release env root tag) (\<lambda>out.
     if out_success out then publish_draft env root tag sha dir version out
     else create_release env root tag sha dir)))))"

section \<open>Verifying what was published\<close>

definition github_api :: "string \<Rightarrow> string" where
  "github_api p = ''https://api.github.com/repos/'' @ repo @ p"

definition asset_url :: "string \<Rightarrow> string \<Rightarrow> string" where
  "asset_url tag name = ''https://github.com/'' @ repo @ ''/releases/download/'' @ tag @ ''/'' @ name"

definition public_metadata :: "string \<Rightarrow> string \<Rightarrow> release_json \<Rightarrow> bool" where
  "public_metadata tag sha release \<longleftrightarrow> rl_tag_name release = tag \<and> \<not> rl_draft release
     \<and> \<not> rl_prerelease release \<and> rl_published_at release \<noteq> None \<and> rl_target_commitish release = sha
     \<and> map ra_name (rl_assets release) = asset_names"

definition public_asset :: "string \<Rightarrow> release_asset \<Rightarrow> bool" where
  "public_asset tag a \<longleftrightarrow> ra_size a \<noteq> 0 \<and> ra_url a = Some (asset_url tag (ra_name a))"

text \<open>A field of the document's \<open>object\<close>, as a string.\<close>

definition object_field :: "('t, 'j, 'w) xtask_env \<Rightarrow> string \<Rightarrow> 'j \<Rightarrow> string option" where
  "object_field env k doc = Option.bind (xe_json_get env ''object'' doc) (\<lambda>v.
     Option.bind (xe_json_get env k v) (xe_json_str env))"

definition fetch_json ::
  "('t, 'j, 'w) xtask_env \<Rightarrow> string \<Rightarrow> string \<Rightarrow> string \<Rightarrow> ('w, 'j) task" where
  "fetch_json env url lookup_what what =
     bind (run_ok env ''curl'' (curl [url]) None lookup_what) (\<lambda>out.
     of_result (map_err (\<lambda>e. Message (''invalid '' @ what @ '' JSON: '' @ e)) (xe_json env (out_stdout out))))"

definition verify_public_release ::
  "('t, 'j, 'w) xtask_env \<Rightarrow> string \<Rightarrow> string \<Rightarrow> string \<Rightarrow> ('w, unit) task" where
  "verify_public_release env tag sha evidence =
     bind (run_ok env ''curl'' (curl [github_api (''/releases/tags/'' @ tag)]) None ''public release metadata'') (\<lambda>out.
     bind (of_result (map_err (\<lambda>e. Message (''invalid public release JSON: '' @ e)) (xe_release env (out_stdout out)))) (\<lambda>release.
     bind (want (public_metadata tag sha release) ''public release metadata mismatch'') (\<lambda>_.
     bind (want (list_all (public_asset tag) (rl_assets release)) ''public release asset metadata mismatch'') (\<lambda>_.
     bind (fetch_json env (github_api (''/git/ref/tags/'' @ tag)) ''public tag lookup'' ''public tag'') (\<lambda>reference.
     bind (want (object_field env ''type'' reference = Some ''tag'') ''public tag is not annotated'') (\<lambda>_.
     bind (some_or (object_field env ''sha'' reference) ''public tag object SHA missing'') (\<lambda>tag_sha.
     bind (fetch_json env (github_api (''/git/tags/'' @ tag_sha)) ''public annotated tag lookup'' ''public annotated tag'') (\<lambda>annotated.
     bind (want (object_field env ''type'' annotated = Some ''commit'' \<and> object_field env ''sha'' annotated = Some sha)
       ''public annotated tag target mismatch'') (\<lambda>_.
     bind (of_result (map_err Message (xe_evidence env tag sha (rl_body release) (map ra_name (rl_assets release))))) (\<lambda>bytes.
     io (xe_write env evidence bytes)))))))))))"

section \<open>The command line\<close>

definition workflow_check :: "('t, 'j, 'w) xtask_env \<Rightarrow> string \<Rightarrow> ('w, unit) task" where
  "workflow_check env root =
     bind (io (xe_read env (path_join root ''.github/workflows/release.yml''))) (\<lambda>s.
     of_result (check_workflow s))"

definition changelog_notes :: "('t, 'j, 'w) xtask_env \<Rightarrow> string \<Rightarrow> string \<Rightarrow> ('w, string) task" where
  "changelog_notes env root version =
     bind (io (xe_read env (path_join root ''CHANGELOG.md''))) (\<lambda>s. of_result (extract_notes s version))"

definition known_target :: "string \<Rightarrow> ('w, unit) task" where
  "known_target t = want (t \<in> set targets) ''unsupported target''"

text \<open>\<open>println!\<close>: what a command prints is its value.\<close>

definition line :: "string \<Rightarrow> string" where
  "line s = s @ [newline]"

definition package ::
  "('t, 'j, 'w) xtask_env \<Rightarrow> string \<Rightarrow> string \<Rightarrow> string \<Rightarrow> string \<Rightarrow> string \<Rightarrow> ('w, string) task" where
  "package env root tag target binary out_dir =
     bind (validate_repository env root tag) (\<lambda>version.
     bind (verify_binary env binary version) (\<lambda>_.
     bind (io (xe_create_dir env True out_dir)) (\<lambda>_.
     let archive = path_join out_dir (product_name @ ''-'' @ target @ ''.tar.gz'') in
     bind (rd (xe_exists env archive)) (\<lambda>present.
     if present then fail ''refusing to overwrite archive''
     else
       bind (rd (xe_nanos env)) (\<lambda>nanos.
       let stage = path_join out_dir (''.stage-'' @ nanos) in
       bind (io (xe_create_dir env False stage)) (\<lambda>_.
       bind (io (xe_copy env binary (path_join stage product_name))) (\<lambda>_.
       bind (some_or (to_str archive) ''bad archive path'') (\<lambda>ar.
       bind (some_or (to_str stage) ''bad stage path'') (\<lambda>st.
       bind (run_ok env ''tar'' [''-czf'', ar, ''-C'', st, product_name] (Some root) ''tar'') (\<lambda>_.
       bind (act (xe_remove_dir_all env stage)) (\<lambda>_.
       ret (line archive))))))))))))"

definition release_build ::
  "('t, 'j, 'w) xtask_env \<Rightarrow> string \<Rightarrow> string \<Rightarrow> string \<Rightarrow> string \<Rightarrow> ('w, string) task" where
  "release_build env root tag target binary =
     bind (validate_repository env root tag) (\<lambda>_.
     bind (run_ok env ''cargo'' [''build'', ''--locked'', ''--release'', ''-p'', product_name, ''--bin'',
       product_name, ''--target'', target] (Some root) ''release build'') (\<lambda>_.
     bind (verify_binary env binary (drop 1 tag)) (\<lambda>_.
     ret (line (''release build verified: '' @ binary)))))"

definition workspace_tag :: "('t, 'j, 'w) xtask_env \<Rightarrow> string \<Rightarrow> ('w, string) task" where
  "workspace_tag env root =
     bind (toml_value env (path_join root ''Cargo.toml'')) (\<lambda>doc.
     bind (some_or (Option.bind (xe_get env ''workspace'' doc) (\<lambda>x. Option.bind (xe_get env ''package'' x) (\<lambda>x.
       Option.bind (xe_get env ''version'' x) (xe_as_str env)))) ''missing version'') (\<lambda>v.
     ret (line (expected_tag v))))"

definition silently :: "('w, unit) task \<Rightarrow> ('w, string) task" where
  "silently m = bind m (\<lambda>_. ret [])"

text \<open>The arguments of a command, each asked for when the code asks for it.\<close>

definition arg :: "string list \<Rightarrow> nat \<Rightarrow> string \<Rightarrow> ('w, string) task" where
  "arg args i what = some_or (if i < length args then Some (args ! i) else None) (what @ '' required'')"

definition real_main :: "('t, 'j, 'w) xtask_env \<Rightarrow> string + string \<Rightarrow> string list \<Rightarrow> ('w, string) task" where
  "real_main env current_dir argv = (case argv of
     [] \<Rightarrow> fail ''usage: xtask <command>''
   | action # a \<Rightarrow> bind (of_result (map_err Message current_dir)) (\<lambda>root.
     if action = ''expected-tag'' then workspace_tag env root
     else if action = ''release-check'' then
       bind (arg a 0 ''TAG'') (\<lambda>t. bind (validate_repository env root t) (\<lambda>_.
       bind (changelog_notes env root (drop 1 t)) (\<lambda>_. ret (line (''release metadata valid: '' @ t)))))
     else if action = ''release-notes'' then
       bind (arg a 0 ''TAG'') (\<lambda>t. bind (arg a 1 ''OUTPUT'') (\<lambda>out.
       bind (validate_repository env root t) (\<lambda>v. bind (changelog_notes env root v) (\<lambda>notes.
       silently (io (xe_write env out notes))))))
     else if action = ''workflow-check'' then silently (workflow_check env root)
     else if action = ''release-build'' then
       bind (arg a 0 ''TAG'') (\<lambda>t. bind (arg a 1 ''TARGET'') (\<lambda>target. bind (known_target target) (\<lambda>_.
       bind (arg a 2 ''BINARY'') (\<lambda>b. release_build env root t target b))))
     else if action = ''fetch-public-assets'' then
       bind (arg a 0 ''TAG'') (\<lambda>t. bind (arg a 1 ''ASSET_DIR'') (\<lambda>dir. silently (fetch_public_assets env t dir)))
     else if action = ''verify-archive'' then
       bind (arg a 0 ''ASSET_DIR'') (\<lambda>dir. silently (verify_archive env dir))
     else if action = ''verify-downloads'' then
       bind (arg a 0 ''TAG'') (\<lambda>t. bind (arg a 1 ''ASSET_DIR'') (\<lambda>dir. bind (arg a 2 ''BINARY'') (\<lambda>b.
       silently (verify_downloads env root t dir b))))
     else if action = ''publish'' then
       bind (arg a 0 ''TAG'') (\<lambda>t. bind (arg a 1 ''EXPECTED_SHA'') (\<lambda>sha. bind (arg a 2 ''ASSET_DIR'') (\<lambda>dir.
       silently (publish env root t sha dir))))
     else if action = ''verify-public-release'' then
       bind (arg a 0 ''TAG'') (\<lambda>t. bind (arg a 1 ''EXPECTED_SHA'') (\<lambda>sha. bind (arg a 2 ''EVIDENCE_PATH'') (\<lambda>evidence.
       silently (verify_public_release env t sha evidence))))
     else if action = ''native-smoke'' then
       bind (arg a 0 ''TAG'') (\<lambda>t. bind (arg a 1 ''BINARY'') (\<lambda>b. bind (validate_repository env root t) (\<lambda>v.
       silently (verify_binary env b v))))
     else if action = ''package'' then
       bind (arg a 0 ''TAG'') (\<lambda>t. bind (arg a 1 ''TARGET'') (\<lambda>target. bind (known_target target) (\<lambda>_.
       bind (arg a 2 ''BINARY'') (\<lambda>b. bind (arg a 3 ''OUTPUT'') (\<lambda>out. package env root t target b out)))))
     else fail (''unknown command '' @ action)))"

definition xtask_exit :: "(xtask_error + string) \<Rightarrow> nat" where
  "xtask_exit r = (case r of Inl _ \<Rightarrow> 1 | Inr _ \<Rightarrow> 0)"

end
