(* ===== verification/Publish_Safety.thy ===== *)
theory Publish_Safety
  imports Publish
begin

text \<open>
  When \<open>publish\<close> makes a release public: every computation but the publishing command leaves that
  command out of the log, and what the log shows before it is what the code has checked. A sample
  repository and GitHub show a run that publishes.
\<close>

section \<open>Quiet computations\<close>

text \<open>Computations that only add commands other than the publishing one to the log.\<close>

definition is_edit :: "string \<Rightarrow> command_run \<Rightarrow> bool" where
  "is_edit tag c \<longleftrightarrow> fst c = ''gh'' \<and> fst (snd c) = edit_args tag"

definition quiet_log :: "string \<Rightarrow> command_run list \<Rightarrow> bool" where
  "quiet_log tag log \<longleftrightarrow> list_all (\<lambda>c. \<not> is_edit tag c) log"

definition extends :: "string \<Rightarrow> command_run list \<Rightarrow> command_run list \<Rightarrow> bool" where
  "extends tag l l' \<longleftrightarrow> (\<exists>ts. l' = l @ ts \<and> quiet_log tag ts)"

definition quietly :: "string \<Rightarrow> ('w, 'a) task \<Rightarrow> bool" where
  "quietly tag m \<longleftrightarrow> (\<forall>l w. post m (\<lambda>_ (l', w'). extends tag l l') (l, w))"

named_theorems quiet_rules \<open>computations that never publish\<close>

lemma extends_refl [simp]: "extends tag l l"
  by (simp add: extends_def quiet_log_def)

lemma extends_trans: "extends tag l l' \<Longrightarrow> extends tag l' l'' \<Longrightarrow> extends tag l l''"
  by (auto simp: extends_def quiet_log_def)

lemma extends_Snoc: "extends tag l l' \<Longrightarrow> \<not> is_edit tag c \<Longrightarrow> extends tag l (l' @ [c])"
  by (auto simp: extends_def quiet_log_def)

lemma extends_quiet: "extends tag [] l \<longleftrightarrow> quiet_log tag l"
  by (simp add: extends_def)

lemma quiet_bind [quiet_rules]:
  fixes m :: "('w, 'a) task" and f :: "'a \<Rightarrow> ('w, 'b) task"
  assumes "quietly tag m" and "\<And>a. quietly tag (f a)"
  shows "quietly tag (bind m f)"
  unfolding quietly_def
proof (intro allI)
  fix l and w :: 'w
  from assms(1) have "post m (\<lambda>_ (l', w'). extends tag l l') (l, w)" by (simp add: quietly_def)
  then show "post (bind m f) (\<lambda>_ (l', w'). extends tag l l') (l, w)"
    unfolding post_bind
  proof (rule post_mono)
    fix r and s' :: "command_run list \<times> 'w"
    assume "case s' of (l', w') \<Rightarrow> extends tag l l'"
    moreover obtain l' w' where "s' = (l', w')" by fastforce
    ultimately have s': "s' = (l', w')" "extends tag l l'" by auto
    have "post (f a) (\<lambda>_ (l', w'). extends tag l l') s'" for a
    proof -
      from assms(2) have "post (f a) (\<lambda>_ (l'', w'). extends tag l' l'') s'" by (simp add: quietly_def s')
      then show ?thesis by (rule post_mono) (use s' in \<open>auto intro: extends_trans\<close>)
    qed
    with s' show "case r of Inl e \<Rightarrow> case s' of (l', w') \<Rightarrow> extends tag l l'
      | Inr a \<Rightarrow> post (f a) (\<lambda>_ (l', w'). extends tag l l') s'" by (auto split: sum.split)
  qed
qed

lemma quiet_basic [quiet_rules]:
  "quietly tag (ret a)" "quietly tag (of_result r)" "quietly tag (rd g)" "quietly tag (act h)"
  "quietly tag (fail e)" "quietly tag (want b e)" "quietly tag (some_or x e)" "quietly tag (throw d)"
  by (simp_all add: quietly_def fail_def want_def some_or_def)

lemma quiet_wrap [quiet_rules]:
  "quietly tag m \<Longrightarrow> quietly tag (attempt m)" "quietly tag m \<Longrightarrow> quietly tag (map_error d m)"
  by (simp_all add: quietly_def)

lemma quiet_if [quiet_rules]:
  "(b \<Longrightarrow> quietly tag m) \<Longrightarrow> (\<not> b \<Longrightarrow> quietly tag n) \<Longrightarrow> quietly tag (if b then m else n)"
  by simp

lemma quiet_each [quiet_rules]: "(\<And>x. quietly tag (f x)) \<Longrightarrow> quietly tag (each f xs)"
  by (induction xs) (auto intro: quiet_rules)

lemma quiet_io [quiet_rules]: "quietly tag (io f)"
  unfolding io_def by (intro quiet_rules)

lemma quiet_log: "\<not> is_edit tag c \<Longrightarrow> quietly tag (log_run c)"
  by (auto simp: quietly_def log_run_def intro: extends_Snoc)

lemma quiet_run_with:
  fixes env :: "('t, 'j, 'w) xtask_env"
  assumes "program \<noteq> ''gh'' \<or> args \<noteq> edit_args tag"
  shows "quietly tag (run_with describe env program args dir)"
proof -
  have "quietly tag (log_run (program, args, out) :: ('w, unit) task)" for out
    using assms by (intro quiet_log) (auto simp: is_edit_def)
  then show ?thesis
    unfolding run_with_def by (intro quiet_rules) (auto split: sum.split intro: quiet_rules)
qed

lemma quiet_run [quiet_rules]:
  "program \<noteq> ''gh'' \<or> args \<noteq> edit_args tag \<Longrightarrow> quietly tag (run env program args dir)"
  unfolding run_def by (rule quiet_run_with)

lemma quiet_run_ok [quiet_rules]:
  "program \<noteq> ''gh'' \<or> args \<noteq> edit_args tag \<Longrightarrow> quietly tag (run_ok env program args dir what)"
  unfolding run_ok_def check_ok_def by (intro quiet_rules)

lemma not_edit [simp]:
  "[''api'', a] \<noteq> edit_args tag" "list_api \<noteq> edit_args tag" "''release'' # ''download'' # a # b \<noteq> edit_args tag"
  "create_args t sha notes assets \<noteq> edit_args tag" "''api'' # b \<noteq> edit_args tag"
  by (auto simp: edit_args_def list_api_def create_args_def)

lemma quiet_toml_value [quiet_rules]: "quietly tag (toml_value env p)"
  unfolding toml_value_def by (intro quiet_rules)

lemma quiet_package_version [quiet_rules]: "quietly tag (package_version env p)"
  unfolding package_version_def by (intro quiet_rules)

lemma quiet_check_member [quiet_rules]: "quietly tag (check_member env root members m)"
  unfolding check_member_def by (auto intro!: quiet_rules split: prod.split)

lemma quiet_repository [quiet_rules]: "quietly tag (validate_repository env root t)"
  unfolding validate_repository_def check_lock_def by (intro quiet_rules) simp_all

lemma quiet_checksum [quiet_rules]: "quietly tag (checksum env p)"
  unfolding checksum_def by (intro quiet_rules) (auto split: list.split intro: quiet_rules)

lemma quiet_asset_dir [quiet_rules]: "quietly tag (verify_asset_dir env dir)"
  unfolding verify_asset_dir_def check_asset_def by (intro quiet_rules)

lemma quiet_archive_members [quiet_rules]: "quietly tag (verify_archive_members env dir)"
  unfolding verify_archive_members_def check_members_def by (intro quiet_rules) simp_all

lemma quiet_compare [quiet_rules]: "quietly tag (compare_release_assets env root t dir)"
  unfolding compare_release_assets_def compare_asset_def verify_archive_def Let_def
  by (intro quiet_rules) simp_all

lemma quiet_confirm [quiet_rules]: "quietly tag (confirm_published env root t)"
  unfolding confirm_published_def decode_release_def by (intro quiet_rules) simp_all

lemma quiet_git [quiet_rules]: "quietly tag (git_checks env root t sha)"
  unfolding git_checks_def by (intro quiet_rules) simp_all

lemma quiet_notes [quiet_rules]: "quietly tag (write_notes env root version)"
  unfolding write_notes_def by (intro quiet_rules)

lemma quiet_find [quiet_rules]: "quietly tag (find_release env root t)"
  unfolding find_release_def decode_releases_def
  by (intro quiet_rules) (auto split: list.split intro!: quiet_rules)

section \<open>Postconditions\<close>

lemma run_with_post [simp, post_rules]:
  "post (run_with describe env program args dir) Q (l, w) = (case xe_run env program args dir w of
     (Inl e, w') \<Rightarrow> Q (Inl (Message (describe e))) (l, w')
   | (Inr out, w') \<Rightarrow> Q (Inr out) (l @ [(program, args, out)], w'))"
  by (auto simp: run_with_def fail_def log_run_def split: prod.split sum.split)

lemma run_post [simp, post_rules]:
  "post (run env program args dir) Q (l, w) = (case xe_run env program args dir w of
     (Inl e, w') \<Rightarrow> Q (Inl (Message (''run '' @ program @ '': '' @ e))) (l, w')
   | (Inr out, w') \<Rightarrow> Q (Inr out) (l @ [(program, args, out)], w'))"
  by (simp only: run_def run_with_post)

lemma want_post [simp, post_rules]:
  "post (want b e) Q s = (if b then Q (Inr ()) s else Q (Inl (Message e)) s)"
  by (simp add: want_def)

lemma some_or_post [simp, post_rules]:
  "post (some_or x e) Q s = (case x of None \<Rightarrow> Q (Inl (Message e)) s | Some a \<Rightarrow> Q (Inr a) s)"
  by (simp add: some_or_def split: option.split)

lemma fail_post [simp, post_rules]: "post (fail e) Q s = Q (Inl (Message e)) s"
  by (simp add: fail_def)

lemma run_ok_post [simp, post_rules]:
  "post (run_ok env program args dir what) Q (l, w) \<longleftrightarrow> (case xe_run env program args dir w of
     (Inl e, w') \<Rightarrow> Q (Inl (Message (''run '' @ program @ '': '' @ e))) (l, w')
   | (Inr out, w') \<Rightarrow> if out_success out then Q (Inr out) (l @ [(program, args, out)], w')
       else Q (Inl (Message (what @ '' failed: '' @ trim (from_utf8_lossy (out_stderr out)))))
         (l @ [(program, args, out)], w'))"
  by (auto simp: run_ok_def check_ok_def split: prod.split sum.split)

lemma quietly_post:
  assumes "quietly tag m" and "\<And>r l' w'. extends tag l l' \<Longrightarrow> Q r (l', w')"
  shows "post m Q (l, w)"
proof -
  from assms(1) have "post m (\<lambda>_ (l', w'). extends tag l l') (l, w)" by (simp add: quietly_def)
  then show ?thesis by (rule post_mono) (use assms(2) in auto)
qed

section \<open>What is known when a release goes public\<close>

definition ran :: "command_run list \<Rightarrow> string \<Rightarrow> string list \<Rightarrow> (process_output \<Rightarrow> bool) \<Rightarrow> bool" where
  "ran log program args p \<longleftrightarrow> (\<exists>out. (program, args, out) \<in> set log \<and> out_success out \<and> p out)"

text \<open>
  HEAD and the annotated tag are the expected commit and the origin is the repository.
\<close>

definition git_checked :: "string \<Rightarrow> string \<Rightarrow> command_run list \<Rightarrow> bool" where
  "git_checked tag sha log \<longleftrightarrow>
     ran log ''git'' [''rev-parse'', ''HEAD''] (\<lambda>out. trimmed_stdout out = sha) \<and>
     ran log ''git'' [''remote'', ''get-url'', ''origin''] (\<lambda>out. trim_slashes (trimmed_stdout out) = origin_url) \<and>
     ran log ''git'' [''cat-file'', ''-t'', tag] (\<lambda>out. trimmed_stdout out = ''tag'') \<and>
     ran log ''git'' [''rev-parse'', tag @ ''^{}''] (\<lambda>out. trimmed_stdout out = sha)"

text \<open>
  A release that a lookup answered: the one of the tag, one of the list, or one of the list printed
  and read again. (When the list has none, the code reads the output of \<open>false\<close> if that succeeds.)
\<close>

definition release_printed :: "('t, 'j, 'w) xtask_env \<Rightarrow> command_run list \<Rightarrow> release_json \<Rightarrow> bool" where
  "release_printed env log r \<longleftrightarrow> (\<exists>program args out. (program, args, out) \<in> set log \<and>
     out_success out \<and> program \<in> {''gh'', ''false''} \<and>
     (xe_release env (out_stdout out) = Ok r \<or> (\<exists>rs. xe_releases env (out_stdout out) = Ok rs \<and>
        (r \<in> set rs \<or> (\<exists>s \<in> set rs. \<exists>b. xe_release_bytes env s = Ok b \<and> xe_release env b = Ok r)))))"

definition draft_seen :: "('t, 'j, 'w) xtask_env \<Rightarrow> string \<Rightarrow> string \<Rightarrow> command_run list \<Rightarrow> bool" where
  "draft_seen env tag sha log \<longleftrightarrow> (\<exists>r. release_printed env log r \<and> rl_draft r \<and> rl_tag_name r = tag \<and>
     rl_target_commitish r = sha)"

definition confirmed :: "('t, 'j, 'w) xtask_env \<Rightarrow> string \<Rightarrow> command_run list \<Rightarrow> bool" where
  "confirmed env tag log \<longleftrightarrow> (\<exists>out r. (''gh'', [''api'', tag_api tag], out) \<in> set log \<and>
     xe_release env (out_stdout out) = Ok r \<and> \<not> rl_draft r \<and> rl_published_at r \<noteq> None)"

definition published_once ::
  "('t, 'j, 'w) xtask_env \<Rightarrow> string \<Rightarrow> string \<Rightarrow> xtask_error + unit \<Rightarrow> command_run list \<Rightarrow> bool" where
  "published_once env tag sha r log \<longleftrightarrow> (quiet_log tag log \<and> \<not> is_ok r) \<or>
     (\<exists>pre out rest. log = pre @ (''gh'', edit_args tag, out) # rest \<and> quiet_log tag pre \<and> quiet_log tag rest \<and>
        git_checked tag sha pre \<and> draft_seen env tag sha pre \<and>
        (is_ok r \<longrightarrow> out_success out \<and> confirmed env tag rest))"

lemma ran_extends: "extends tag l l' \<Longrightarrow> ran l program args p \<Longrightarrow> ran l' program args p"
  by (auto simp: extends_def ran_def)

lemma git_checked_extends: "extends tag l l' \<Longrightarrow> git_checked t sha l \<Longrightarrow> git_checked t sha l'"
  by (auto simp: git_checked_def intro: ran_extends)

lemma release_printed_extends: "extends tag l l' \<Longrightarrow> release_printed env l r \<Longrightarrow> release_printed env l' r"
  by (fastforce simp: extends_def release_printed_def)

lemma quiet_extends: "extends tag l l' \<Longrightarrow> quiet_log tag l \<Longrightarrow> quiet_log tag l'"
  by (auto simp: extends_def quiet_log_def)

lemma quiet_Snoc [simp]: "quiet_log tag (l @ [c]) \<longleftrightarrow> quiet_log tag l \<and> \<not> is_edit tag c"
  by (simp add: quiet_log_def)

lemma is_edit_simps [simp]:
  "is_edit tag (''gh'', args, out) \<longleftrightarrow> args = edit_args tag" "\<not> is_edit tag (''git'', args, out)"
  by (auto simp: is_edit_def)

lemma published_once_quiet: "quiet_log tag log \<Longrightarrow> published_once env tag sha (Inl e) log"
  by (simp add: published_once_def)

lemma git_checks_post: "post (git_checks env root tag sha) (\<lambda>r (l', w'). is_ok r \<longrightarrow> git_checked tag sha l') (l, w)"
  by (auto simp: git_checks_def git_checked_def ran_def split: prod.split sum.split)

lemma go_public_post:
  assumes "quiet_log tag l" and "git_checked tag sha l" and "draft_seen env tag sha l"
  shows "post (go_public env root tag) (\<lambda>r (l', w'). published_once env tag sha r l') (l, w)"
proof -
  have once: "published_once env tag sha r (l @ (''gh'', edit_args tag, out) # rest)"
    if "quiet_log tag rest" "is_ok r \<longrightarrow> out_success out \<and> confirmed env tag rest" for r out rest
    using assms that unfolding published_once_def by blast
  show ?thesis
    by (auto simp: go_public_def confirm_published_def decode_release_def quiet_log_def confirmed_def
        published_once_quiet[OF assms(1)] split: prod.split sum.split intro!: once)
qed

lemma compare_then_public:
  assumes "quiet_log tag l" and "git_checked tag sha l" and "release_printed env l release"
    and "rl_draft release" and "rl_tag_name release = tag" and "rl_target_commitish release = sha"
  shows "post (compare_release_assets env root tag dir) (\<lambda>r s'.
      (\<forall>e. r = Inl e \<longrightarrow> (case s' of (l', w') \<Rightarrow> published_once env tag sha (Inl e) l')) \<and>
      (r = Inr () \<longrightarrow> post (go_public env root tag) (\<lambda>r (l', w'). published_once env tag sha r l') s')) (l, w)"
proof (rule quietly_post[of tag])
  show "quietly tag (compare_release_assets env root tag dir)" by (rule quiet_rules)
next
  fix r :: "xtask_error + unit" and l' w'
  assume l': "extends tag l l'"
  with assms have "quiet_log tag l'" "git_checked tag sha l'" "draft_seen env tag sha l'"
    unfolding draft_seen_def by (blast intro: quiet_extends git_checked_extends release_printed_extends)+
  then show "(\<forall>e. r = Inl e \<longrightarrow> (case (l', w') of (l', w') \<Rightarrow> published_once env tag sha (Inl e) l')) \<and>
      (r = Inr () \<longrightarrow> post (go_public env root tag) (\<lambda>r (l', w'). published_once env tag sha r l') (l', w'))"
    by (auto intro: published_once_quiet go_public_post)
qed

lemma publish_draft_post:
  assumes "quiet_log tag l" and "git_checked tag sha l"
    and "\<And>release. xe_release env (out_stdout out) = Ok release \<Longrightarrow> release_printed env l release"
  shows "post (publish_draft env root tag sha dir version out) (\<lambda>r (l', w'). published_once env tag sha r l') (l, w)"
  unfolding publish_draft_def decode_release_def io_def post_bind
  using assms by (auto simp: published_once_quiet split: sum.split intro!: compare_then_public)

lemma quiet_append [simp]: "quiet_log tag (l @ m) \<longleftrightarrow> quiet_log tag l \<and> quiet_log tag m"
  by (simp add: quiet_log_def)

lemma quiet_Cons [simp]: "quiet_log tag [] \<and> (quiet_log tag (c # l) \<longleftrightarrow> \<not> is_edit tag c \<and> quiet_log tag l)"
  by (simp add: quiet_log_def)

lemma git_checked_append: "git_checked tag sha l \<Longrightarrow> git_checked tag sha (l @ m)"
  by (auto simp: git_checked_def ran_def)

lemma listed_draft:
  assumes "out_success out" and "xe_releases env (out_stdout out) = Ok rs"
    and "find (\<lambda>r. rl_tag_name r = tag) rs = Some release" and "rl_draft release"
  shows "draft_seen env (rl_tag_name release) (rl_target_commitish release) (l @ [c, (''gh'', args, out)])"
proof -
  from assms(3) have "release \<in> set rs" by (auto simp: find_Some_iff)
  with assms(1,2) have "release_printed env (l @ [c, (''gh'', args, out)]) release"
    by (auto simp: release_printed_def)
  with assms(4) show ?thesis by (auto simp: draft_seen_def)
qed

lemma create_release_post:
  assumes "quiet_log tag l" and "git_checked tag sha l"
  shows "post (create_release env root tag sha dir) (\<lambda>r (l', w'). published_once env tag sha r l') (l, w)"
  unfolding create_release_def decode_releases_def io_def post_bind
  using assms by (auto simp: published_once_quiet split: sum.split option.split prod.split
      intro!: go_public_post git_checked_append intro: listed_draft)

lemma printed_directly:
  assumes "(program, args, out) \<in> set log" and "program = ''gh'' \<or> program = ''false''" and "out_success out"
    and "xe_release env (out_stdout out) = Ok r"
  shows "release_printed env log r"
  using assms unfolding release_printed_def by blast

lemma printed_again:
  assumes "(''gh'', args, out) \<in> set log" and "out_success out" and "xe_releases env (out_stdout out) = Ok rs"
    and "filter p rs = s # ss" and "xe_release_bytes env s = Ok b" and "xe_release env b = Ok r"
  shows "release_printed env log r"
proof -
  from assms(4) have "s \<in> set rs" by (metis filter_is_subset list.set_intros(1) subsetD)
  with assms show ?thesis unfolding release_printed_def by blast
qed

lemma find_release_post:
  "post (find_release env root tag) (\<lambda>r (l', w'). \<forall>out. r = Ok out \<longrightarrow> (\<forall>release. out_success out \<longrightarrow>
     xe_release env (out_stdout out) = Ok release \<longrightarrow> release_printed env l' release)) (l, w)"
  unfolding find_release_def decode_releases_def post_bind
  by (auto split: sum.split option.split prod.split list.split intro: printed_directly printed_again)

text \<open>Binding after a quiet computation.\<close>

lemma post_quiet_bind:
  fixes m :: "('w, 'a) task" and f :: "'a \<Rightarrow> ('w, 'b) task"
  assumes "quietly tag m" and "quiet_log tag l" and "git_checked tag sha l \<or> \<not> git"
    and "post m (\<lambda>r (l', w'). \<forall>a. r = Inr a \<longrightarrow> P a l') (l, w)"
    and "\<And>e l' w'. quiet_log tag l' \<Longrightarrow> Q (Inl e) (l', w')"
    and "\<And>a l' w'. quiet_log tag l' \<Longrightarrow> (git \<longrightarrow> git_checked tag sha l') \<Longrightarrow> P a l' \<Longrightarrow> post (f a) Q (l', w')"
  shows "post (bind m f) Q (l, w)"
proof -
  from assms(1) have "post m (\<lambda>_ (l', w'). extends tag l l') (l, w)" by (simp add: quietly_def)
  from post_conj[OF this assms(4)] show ?thesis
    unfolding post_bind
  proof (rule post_mono)
    fix r :: "xtask_error + 'a" and s' :: "command_run list \<times> 'w"
    assume s': "(case s' of (l', w') \<Rightarrow> extends tag l l') \<and> (case s' of (l', w') \<Rightarrow> \<forall>a. r = Inr a \<longrightarrow> P a l')"
    obtain l' w' where eq: "s' = (l', w')" by fastforce
    with s' have ext: "extends tag l l'" and P: "\<And>a. r = Inr a \<Longrightarrow> P a l'" by auto
    from ext assms(2) have "quiet_log tag l'" by (rule quiet_extends)
    moreover have "git \<longrightarrow> git_checked tag sha l'" using ext assms(3) git_checked_extends by blast
    ultimately show "case r of Inl e \<Rightarrow> Q (Inl e) s' | Inr a \<Rightarrow> post (f a) Q s'"
      using P assms(5,6) by (cases r) (auto simp: eq)
  qed
qed

lemma post_True_pair [simp]: "post m (\<lambda>r (l, w). True) s"
  by (rule post_mono[OF post_True]) auto

lemma publish_after_find:
  assumes "quiet_log tag l" and "git_checked tag sha l"
  shows "post (bind (find_release env root tag) (\<lambda>out.
      if out_success out then publish_draft env root tag sha dir version out
      else create_release env root tag sha dir)) (\<lambda>r (l', w'). published_once env tag sha r l') (l, w)"
proof (rule post_quiet_bind[where git = True, OF quiet_find assms(1) _ find_release_post])
  show "git_checked tag sha l \<or> \<not> True" using assms(2) by simp
next
  fix out :: process_output and l' w'
  assume "quiet_log tag l'" and "True \<longrightarrow> git_checked tag sha l'"
    and "\<forall>release. out_success out \<longrightarrow> xe_release env (out_stdout out) = Ok release \<longrightarrow> release_printed env l' release"
  then show "post (if out_success out then publish_draft env root tag sha dir version out
      else create_release env root tag sha dir) (\<lambda>r (l', w'). published_once env tag sha r l') (l', w')"
    by (auto intro: publish_draft_post create_release_post)
qed (simp add: published_once_quiet)

lemma publish_after_git:
  assumes "quiet_log tag l" and "git_checked tag sha l"
  shows "post (bind (write_notes env root version) (\<lambda>_. bind (verify_asset_dir env dir) (\<lambda>_.
      bind (find_release env root tag) (\<lambda>out.
      if out_success out then publish_draft env root tag sha dir version out
      else create_release env root tag sha dir)))) (\<lambda>r (l', w'). published_once env tag sha r l') (l, w)"
proof (rule post_quiet_bind[where tag = tag and sha = sha and git = True and P = "\<lambda>_ _. True", OF quiet_notes assms(1)], goal_cases)
  case (4 a l' w')
  then show ?case
  proof (intro post_quiet_bind[where tag = tag and sha = sha and git = True and P = "\<lambda>_ _. True", OF quiet_asset_dir], goal_cases)
    case (5 b l'' w'')
    then show ?case by (intro publish_after_find) auto
  qed (simp_all add: published_once_quiet)
qed (simp_all add: assms(2) published_once_quiet)

lemma publish_published_once:
  "post (publish env root tag sha dir) (\<lambda>r (l', w'). published_once env tag sha r l') ([], w)"
  unfolding publish_def
proof (rule post_quiet_bind[where tag = tag and sha = sha and git = False and P = "\<lambda>_ _. True", OF quiet_repository], goal_cases)
  case (5 version l w)
  show ?case
  proof (rule post_quiet_bind[where tag = tag and sha = sha and git = False and P = "\<lambda>_. git_checked tag sha", OF quiet_git 5(1)], goal_cases)
    case 2
    show ?case by (rule post_mono[OF git_checks_post]) auto
  next
    case (4 a l' w')
    then show ?case by (intro publish_after_git) auto
  qed (simp_all add: published_once_quiet)
qed (simp_all add: published_once_quiet)

section \<open>A release that goes public\<close>

text \<open>
  A repository at version 1.0.0 with its assets, and a GitHub without the release: the world counts
  the steps "created" and "published".
\<close>

lemma lossy_printable: "list_all printable s \<Longrightarrow> from_utf8_lossy s = s"
proof (induction s)
  case Nil
  then show ?case by (simp add: from_utf8_lossy.simps)
next
  case (Cons c s)
  then show ?case
    by (subst from_utf8_lossy.simps) (simp add: char_width_def Let_def printable_def split: list.split)
qed

definition sample_digest :: string where "sample_digest = replicate 64 (CHR ''a'')"

definition sample_sums :: string where
  "sample_sums = concat (map (\<lambda>n. (sample_digest @ '' '' @ n) @ [newline]) archive_names)"

definition sample_changelog :: string where
  "sample_changelog = ''# Changelog'' @ newline # ''## [1.0.0] - 2026-09-17'' @ newline # ''first''"

definition sample_lock :: string where
  "sample_lock = lock_needle ''postgres-mcp'' ''1.0.0'' @ [newline] @ lock_needle ''postgres-mcp-core'' ''1.0.0''"

definition sample_files :: "(string \<times> string) list" where
  "sample_files = [(''r/Cargo.toml'', ''root''), (''r/crates/postgres-mcp/Cargo.toml'', ''member''),
     (''r/crates/postgres-mcp-core/Cargo.toml'', ''member''), (''r/Cargo.lock'', sample_lock),
     (''r/CHANGELOG.md'', sample_changelog), (''a/SHA256SUMS'', sample_sums),
     (''r/target/release-notes.md'', ''first'' @ [newline])]"

definition sample_fields :: "((string \<times> string) \<times> string) list" where
  "sample_fields = [((''workspace'', ''root''), ''ws''), ((''package'', ''ws''), ''wp''),
     ((''version'', ''wp''), ''1.0.0''), ((''members'', ''ws''), ''members''),
     ((''package'', ''member''), ''mp''), ((''version'', ''mp''), ''inherited''),
     ((''workspace'', ''inherited''), ''true'')]"

definition sample_release :: "bool \<Rightarrow> release_json" where
  "sample_release draft = \<lparr>rl_draft = draft, rl_prerelease = False, rl_tag_name = ''v1.0.0'',
     rl_target_commitish = ''abc'', rl_body = ''first'', rl_published_at = (if draft then None else Some ''now''),
     rl_assets = []\<rparr>"

fun sample_output :: "string \<Rightarrow> string list \<Rightarrow> nat \<Rightarrow> bool \<times> string" where
  "sample_output program args n =
     (if program = ''sha256sum'' then (True, sample_digest)
      else if program = ''git'' then (True,
        if args = [''remote'', ''get-url'', ''origin''] then origin_url
        else if take 1 args = [''cat-file''] then ''tag'' else ''abc'')
      else if program = ''gh'' \<and> args = [''api'', tag_api ''v1.0.0''] then (n = 2, ''public'')
      else if program = ''gh'' \<and> args = list_api then (True, if n = 0 then ''none'' else ''draft'')
      else (program \<noteq> ''false'', []))"

definition sample_step :: "string \<Rightarrow> string list \<Rightarrow> nat \<Rightarrow> nat" where
  "sample_step program args n =
     (if program = ''gh'' \<and> take 2 args = [''release'', ''create''] then 1
      else if program = ''gh'' \<and> args = edit_args ''v1.0.0'' then 2 else n)"

definition sample_xtask :: "(string, unit, nat) xtask_env" where
  "sample_xtask = \<lparr>
     xe_run = (\<lambda>program args dir n. (case sample_output program args n of (b, s) \<Rightarrow>
       (Ok \<lparr>out_success = b, out_stdout = s, out_stderr = []\<rparr>, sample_step program args n))),
     xe_read = (\<lambda>p n. (ok_or [] (map_of sample_files p), n)),
     xe_write = (\<lambda>_ _ n. (Ok (), n)), xe_create_dir = (\<lambda>_ _ n. (Ok (), n)), xe_copy = (\<lambda>_ _ n. (Ok (), n)),
     xe_read_dir = (\<lambda>_ n. (Ok asset_names, n)), xe_len = (\<lambda>_ n. (Ok 0, n)), xe_exists = (\<lambda>_ n. (False, n)),
     xe_is_file = (\<lambda>_ n. (True, n)), xe_remove_dir_all = (\<lambda>_ n. n), xe_nanos = (\<lambda>n. ([], n)), xe_pid = [],
     xe_toml = Ok, xe_get = (\<lambda>k v. map_of sample_fields (k, v)), xe_as_table = Some,
     xe_as_str = (\<lambda>v. if v = ''inherited'' then None else Some v),
     xe_as_bool = (\<lambda>v. Some (v = ''true'')),
     xe_as_array = (\<lambda>_. Some [''crates/postgres-mcp'', ''crates/postgres-mcp-core'']),
     xe_release = (\<lambda>s. if s = ''public'' then Ok (sample_release False) else Err []),
     xe_releases = (\<lambda>s. Ok (if s = ''draft'' then [sample_release True] else [])),
     xe_release_bytes = (\<lambda>_. Err []), xe_json = (\<lambda>_. Err []), xe_json_get = (\<lambda>_ _. None),
     xe_json_str = (\<lambda>_. None), xe_evidence = (\<lambda>_ _ _ _. Err [])\<rparr>"

lemmas task_run = eff_run io_def fail_def want_def some_or_def run_def run_with_def run_ok_def check_ok_def log_run_def

lemma sample_lock_counts: "match_count (lock_needle ''postgres-mcp'' ''1.0.0'') sample_lock = 1"
  "match_count (lock_needle ''postgres-mcp-core'' ''1.0.0'') sample_lock = 1"
  by (simp_all add: sample_lock_def lock_needle_def quoted_def newline_def starts_with_def)

lemma sample_tag: "validate_tag ''v1.0.0'' ''1.0.0'' = Ok ()"
  by (simp add: validate_tag_def expected_tag_def is_ascii_digit_def is_ascii_alphanumeric_def
      is_ascii_upper_def is_ascii_lower_def contains_char_def byte_def)

lemma sample_repository:
  "\<exists>l. validate_repository sample_xtask ''r'' ''v1.0.0'' ([], 0) = Some (Ok ''1.0.0'', (l, 0))"
  by (simp add: validate_repository_def toml_value_def package_version_def check_member_def check_lock_def
    task_run sample_xtask_def sample_files_def sample_fields_def path_join_def sample_tag sample_lock_counts sample_step_def
    or_default_def)

lemma sample_lines:
  "text_lines sample_changelog = [''# Changelog'', ''## [1.0.0] - 2026-09-17'', ''first'']"
proof -
  have "one_line ''# Changelog''" "one_line ''## [1.0.0] - 2026-09-17''" by (simp_all add: one_line_def newline_def)
  then show ?thesis unfolding sample_changelog_def
    by (simp only: text_lines_line) (simp add: text_lines_end newline_def)
qed
lemma sample_heading: "release_heading ''## [1.0.0] - 2026-09-17'' = Some (''1.0.0'', ''2026-09-17'')"
  by (simp add: release_heading_def starts_with_def find_str_def)
lemma sample_date: "date_valid ''2026-09-17''"
  by (simp add: date_valid_def is_ascii_digit_def byte_def number_or_zero_def parse_u32_def digit_value_def)
lemma printable_first: "list_all printable ''first''" by (simp add: printable_def byte_def)
lemma sample_notes: "extract_notes sample_changelog ''1.0.0'' = Ok (''first'' @ [newline])"
  by (simp add: extract_notes_def sample_lines sample_heading sample_date fence_step_def opens_fence_def
    starts_with_def trim_start.simps[of "_ # _"] hash_white trim_word[OF printable_first] is_blank_def malformed_heading_def
    printable_not_white printable_def byte_def unreleased_def)

lemma text_lines_concat: "list_all one_line ls \<Longrightarrow> text_lines (concat (map (\<lambda>l. l @ [newline]) ls)) = ls"
  by (induction ls) (simp_all add: text_lines_line)

lemma sample_printable: "list_all printable ''abc''" "list_all printable ''tag''" "list_all printable origin_url"
    "list_all printable sample_digest" "list_all (list_all printable) archive_names"
  by (simp_all add: printable_def byte_def origin_url_def repo_def sample_digest_def archive_names_def list_all_iff)

lemma sample_sum_lines: "text_lines sample_sums = map (\<lambda>n. sample_digest @ '' '' @ n) archive_names"
proof -
  have "one_line (sample_digest @ '' '' @ n)" if "list_all printable n" "n \<noteq> []" for n
  proof -
    have "\<not> printable newline" "\<not> printable (CHR 0x0D)" by (simp_all add: printable_def byte_def newline_def)
    with that have "newline \<notin> set n" "last n \<noteq> CHR 0x0D"
      by (metis list_all_iff, metis last_in_set list_all_iff)
    then show ?thesis using that(2) by (simp add: one_line_def sample_digest_def newline_def)
  qed
  then have "list_all one_line (map (\<lambda>n. sample_digest @ '' '' @ n) archive_names)"
    using sample_printable(5) by (simp add: archive_names_def)
  from text_lines_concat[OF this] show ?thesis by (simp add: sample_sums_def comp_def)
qed

lemma sample_words: "list_all printable n \<Longrightarrow> n \<noteq> [] \<Longrightarrow>
    split_whitespace (sample_digest @ CHR '' '' # n) = [sample_digest, n]"
  using split_whitespace_word[of sample_digest n] sample_printable(4)
  by (simp add: split_whitespace_last) (simp add: sample_digest_def)

lemma sample_verified: "verify_checksums sample_sums archive_names = Ok ()"
proof -
  have digest: "length sample_digest = 64" "list_all is_ascii_hexdigit sample_digest"
    by (simp_all add: sample_digest_def is_ascii_hexdigit_def byte_def list_all_iff)
  have "checksum_names (map (\<lambda>n. sample_digest @ '' '' @ n) ns) = Ok (map (dropWhile (\<lambda>c. c = CHR ''*'')) ns)"
    if "list_all (list_all printable) ns" "list_all (\<lambda>n. n \<noteq> []) ns" for ns
    using that by (induction ns) (simp_all add: sample_words digest)
  from this[OF sample_printable(5)]
  have "checksum_names (map (\<lambda>n. sample_digest @ '' '' @ n) archive_names) = Ok archive_names"
    by (simp add: archive_names_def)
  then show ?thesis by (simp only: verify_checksums_def sample_sum_lines and_then_simps) (simp add: archive_names_def)
qed

lemma sample_listed: "n \<in> set archive_names \<Longrightarrow> listed_checksum sample_sums n = sample_digest"
proof -
  assume n: "n \<in> set archive_names"
  have "ends_with (sample_digest @ '' '' @ n) n" by (simp add: ends_with_def)
  with n have "find (\<lambda>l. ends_with l n) (text_lines sample_sums) \<noteq> None"
    by (auto simp: find_None_iff sample_sum_lines)
  then obtain l where l: "find (\<lambda>l. ends_with l n) (text_lines sample_sums) = Some l" by blast
  then have "l \<in> set (text_lines sample_sums)" by (auto simp: find_Some_iff)
  then obtain m where "m \<in> set archive_names" "l = sample_digest @ '' '' @ m" by (auto simp: sample_sum_lines)
  moreover from this(1) have "list_all printable m" "m \<noteq> []"
    using sample_printable(5) by (auto simp: archive_names_def)
  ultimately show ?thesis using l sample_words[of m] by (simp add: listed_checksum_def)
qed

lemma sample_word: "split_whitespace sample_digest = [sample_digest]"
  using split_whitespace_last[OF sample_printable(4)] by (simp add: sample_digest_def)

lemma sample_checksum:
  "utf8_valid p \<Longrightarrow> \<exists>c. checksum sample_xtask p (l, n) = Some (Ok sample_digest, (l @ [c], n))"
  by (simp add: checksum_def to_str_def task_run sample_xtask_def sample_step_def lossy_printable sample_printable(4)
      sample_word)

lemma archives_plain: "n \<in> set asset_names \<Longrightarrow> utf8_valid (path_join ''a'' n)"
  by (auto simp: asset_names_def archive_names_def path_join_def utf8_valid_def byte_def)

lemma sample_asset:
  assumes "n \<in> set archive_names"
  shows "\<exists>c. check_asset sample_xtask ''a'' sample_sums n (l, k) = Some (Ok (), (l @ [c], k))"
proof -
  from assms have "utf8_valid (path_join ''a'' n)" by (intro archives_plain) (simp add: asset_names_def)
  from sample_checksum[OF this, of l k] obtain c where
    "checksum sample_xtask (path_join ''a'' n) (l, k) = Some (Ok sample_digest, (l @ [c], k))" by blast
  then show ?thesis
    by (cases c) (simp add: check_asset_def bind_def want_def of_result_def sample_listed[OF assms])
qed

lemma sample_assets:
  "set ns \<subseteq> set archive_names \<Longrightarrow>
     \<exists>ts. each (check_asset sample_xtask ''a'' sample_sums) ns (l, k) = Some (Ok (), (l @ ts, k))"
proof (induction ns arbitrary: l)
  case Nil
  then show ?case by (simp add: ret_def)
next
  case (Cons n ns)
  then obtain c where "check_asset sample_xtask ''a'' sample_sums n (l, k) = Some (Ok (), (l @ [c], k))"
    using sample_asset by fastforce
  with Cons.IH[of "l @ [c]"] Cons.prems show ?case by (auto simp: bind_def)
qed

lemma sample_asset_dir:
  "\<exists>ts. verify_asset_dir sample_xtask ''a'' (l, k) = Some (Ok (map (path_join ''a'') archive_names), (l @ ts, k))"
proof -
  have "map_of sample_files (path_join ''a'' ''SHA256SUMS'') = Some sample_sums"
    by (simp add: sample_files_def path_join_def)
  with sample_assets[of archive_names l k] show ?thesis
    by (auto simp: verify_asset_dir_def task_run sample_xtask_def sample_verified)
qed


lemma sample_trimmed:
  "trim (from_utf8_lossy ''abc'') = ''abc''" "trim (from_utf8_lossy ''tag'') = ''tag''"
  "trim (from_utf8_lossy origin_url) = origin_url" "trim_slashes origin_url = origin_url"
  using sample_printable
  by (simp_all only: lossy_printable trim_word) (simp add: trim_slashes_def origin_url_def repo_def)

lemma sample_git:
  "\<exists>ts. git_checks sample_xtask ''r'' ''v1.0.0'' ''abc'' (l, k) = Some (Ok (), (l @ ts, k))"
  by (simp add: git_checks_def task_run sample_xtask_def sample_step_def trimmed_stdout_def sample_trimmed)

lemma sample_write: "write_notes sample_xtask ''r'' ''1.0.0'' (l, k) = Some (Ok (), (l, k))"
  by (simp add: write_notes_def task_run sample_xtask_def sample_files_def path_join_def sample_notes)

lemma sample_find:
  "\<exists>ts out. find_release sample_xtask ''r'' ''v1.0.0'' (l, 0) = Some (Ok out, (l @ ts, 0)) \<and> \<not> out_success out"
  by (simp add: find_release_def decode_releases_def task_run sample_xtask_def sample_step_def tag_api_def list_api_def
      repo_def edit_args_def)

lemma trim_end_newline: "list_all printable w \<Longrightarrow> trim_end (w @ [newline]) = w"
proof (induction w)
  case Nil
  have "white_len [newline] = 1" by (simp add: white_len_def byte_def newline_def)
  then show ?case by (simp add: trim_end.simps)
next
  case (Cons c w)
  then show ?case by (auto simp: trim_end.simps(2)[of c] printable_not_white)
qed

lemma sample_create:
  "\<exists>ts. create_release sample_xtask ''r'' ''v1.0.0'' ''abc'' ''a'' (l, 0) = Some (Ok (), (l @ ts, 2))"
proof -
  have "map_result (asset_path ''a'') asset_names = Ok (map (path_join ''a'') asset_names)"
    using archives_plain by (auto simp: map_result_Ok_iff asset_path_def to_str_def list_all2_map2 list_all2_same)
  moreover have "utf8_valid (notes_path ''r'')" by (simp add: notes_path_def path_join_def utf8_valid_def byte_def)
  moreover have "map_of sample_files (notes_path ''r'') = Some (''first'' @ [newline])"
    by (simp add: notes_path_def path_join_def sample_files_def)
  ultimately show ?thesis
    by (simp add: create_release_def go_public_def confirm_published_def decode_release_def decode_releases_def task_run
      sample_xtask_def sample_step_def to_str_def create_args_def tag_api_def list_api_def repo_def edit_args_def
      sample_release_def trim_end_word[OF printable_first] trim_end_newline[OF printable_first, simplified])
qed

lemma sample_publish:
  "\<exists>log. publish sample_xtask ''r'' ''v1.0.0'' ''abc'' ''a'' ([], 0) = Some (Ok (), (log, 2))"
proof -
  obtain l1 where 1: "validate_repository sample_xtask ''r'' ''v1.0.0'' ([], 0) = Some (Ok ''1.0.0'', (l1, 0))"
    using sample_repository by blast
  obtain l2 where 2: "git_checks sample_xtask ''r'' ''v1.0.0'' ''abc'' (l1, 0) = Some (Ok (), (l2, 0))"
    using sample_git by blast
  obtain l3 where 3: "verify_asset_dir sample_xtask ''a'' (l2, 0) =
    Some (Ok (map (path_join ''a'') archive_names), (l3, 0))"
    using sample_asset_dir by blast
  obtain l4 out where 4: "find_release sample_xtask ''r'' ''v1.0.0'' (l3, 0) = Some (Ok out, (l4, 0))" "\<not> out_success out"
    using sample_find by blast
  obtain l5 where 5: "create_release sample_xtask ''r'' ''v1.0.0'' ''abc'' ''a'' (l4, 0) = Some (Ok (), (l5, 2))"
    using sample_create by blast
  show ?thesis by (simp add: publish_def bind_def 1 2 sample_write 3 4 5)
qed

section \<open>Properties\<close>

text \<open>
  C39. A release goes public at most once and only after its checks: whatever the programs answer,
  \<open>publish\<close> either ends in an error without running \<open>gh release edit --draft=false\<close>, or runs it
  exactly once, after git showed HEAD and the annotated tag at the expected commit of the canonical
  repository and after a draft release of that tag and commit was printed; and it succeeds only if
  GitHub then prints the release as published.
\<close>

theorem published_only_after_checks:
  "post (publish env root tag sha dir) (\<lambda>r (log, w').
     (quiet_log tag log \<and> \<not> is_ok r) \<or>
     (\<exists>pre out rest. log = pre @ (''gh'', [''release'', ''edit'', tag, ''--draft=false''], out) # rest \<and>
        quiet_log tag pre \<and> quiet_log tag rest \<and> git_checked tag sha pre \<and> draft_seen env tag sha pre \<and>
        (is_ok r \<longrightarrow> out_success out \<and> confirmed env tag rest))) ([], w)"
  using publish_published_once unfolding published_once_def edit_args_def .

theorem published_only_after_checks_witness:
  "\<exists>log w' pre out rest. publish sample_xtask ''r'' ''v1.0.0'' ''abc'' ''a'' ([], 0) = Some (Ok (), (log, w')) \<and>
     log = pre @ (''gh'', [''release'', ''edit'', ''v1.0.0'', ''--draft=false''], out) # rest \<and>
     git_checked ''v1.0.0'' ''abc'' pre \<and> draft_seen sample_xtask ''v1.0.0'' ''abc'' pre \<and>
     confirmed sample_xtask ''v1.0.0'' rest"
proof -
  obtain log where run: "publish sample_xtask ''r'' ''v1.0.0'' ''abc'' ''a'' ([], 0) = Some (Ok (), (log, 2))"
    using sample_publish by blast
  from postD[OF published_only_after_checks run] obtain pre out rest where
    "log = pre @ (''gh'', [''release'', ''edit'', ''v1.0.0'', ''--draft=false''], out) # rest"
    "git_checked ''v1.0.0'' ''abc'' pre" "draft_seen sample_xtask ''v1.0.0'' ''abc'' pre"
    "confirmed sample_xtask ''v1.0.0'' rest" by auto
  with run show ?thesis by blast
qed

end
