(* ===== verification/Adapter_Progress.thy ===== *)
theory Adapter_Progress
  imports Adapter_Safety
begin

text \<open>
  The operations of \<open>Adapter\<close> return. \<open>advances clk m\<close> says that \<open>m\<close> returns from every state and
  never turns the clock back; it composes, and each loop has a measure: the time left until its
  deadline, or the results libpq still has.
\<close>

section \<open>Clocks\<close>

definition keeps_time :: "('w \<Rightarrow> nat) \<Rightarrow> ('w \<Rightarrow> 'w) \<Rightarrow> bool" where
  "keeps_time clk f \<longleftrightarrow> (\<forall>w. clk w \<le> clk (f w))"

definition reads_in_time :: "('w \<Rightarrow> nat) \<Rightarrow> ('a, 'w) reader \<Rightarrow> bool" where
  "reads_in_time clk f \<longleftrightarrow> (\<forall>w. clk w \<le> clk (snd (f w)))"

text \<open>
  What the termination of the adapter rests on: \<open>env_now\<close> reads a clock that no call turns back;
  a \<open>poll\<close> takes time, and so do the two polling functions of libpq when they answer
  \<open>PGRES_POLLING_ACTIVE\<close>, which asks to be called again at once; and \<open>PQgetResult\<close> has finitely
  many results, \<open>left w\<close> at most.
\<close>

definition progressive :: "'w libpq_env \<Rightarrow> ('w \<Rightarrow> nat) \<Rightarrow> ('w \<Rightarrow> nat) \<Rightarrow> bool" where
  "progressive env clk left \<longleftrightarrow> clocked env clk \<and>
     (\<forall>s. reads_in_time clk (pq_connect_start env s)) \<and> keeps_time clk (pq_set_notice_processor env) \<and>
     reads_in_time clk (pq_connect_poll env) \<and> reads_in_time clk (pq_cancel_poll env) \<and>
     (\<forall>w w'. pq_connect_poll env w = (POLLING_ACTIVE, w') \<longrightarrow> clk w < clk w') \<and>
     (\<forall>w w'. pq_cancel_poll env w = (POLLING_ACTIVE, w') \<longrightarrow> clk w < clk w') \<and>
     reads_in_time clk (pq_setnonblocking env) \<and> reads_in_time clk (pq_socket env) \<and>
     (\<forall>s os vs. reads_in_time clk (pq_send_query_params env s os vs)) \<and>
     reads_in_time clk (pq_set_single_row_mode env) \<and> reads_in_time clk (pq_flush env) \<and>
     reads_in_time clk (pq_consume_input env) \<and> reads_in_time clk (pq_is_busy env) \<and>
     reads_in_time clk (pq_get_result env) \<and> keeps_time clk (pq_clear env) \<and> keeps_time clk (pq_finish env) \<and>
     reads_in_time clk (pq_cancel_create env) \<and> reads_in_time clk (pq_cancel_start env) \<and>
     reads_in_time clk (pq_cancel_socket env) \<and> keeps_time clk (pq_cancel_finish env) \<and>
     (\<forall>w r w'. pq_get_result env w = (Some r, w') \<longrightarrow> left (pq_clear env w') < left w)"

definition patient :: "'w poll_control \<Rightarrow> ('w \<Rightarrow> nat) \<Rightarrow> bool" where
  "patient ctl clk \<longleftrightarrow> reads_in_time clk (pc_shutdown_requested ctl) \<and> reads_in_time clk (pc_cancelled ctl)"

section \<open>Operations that return\<close>

definition advances :: "('w \<Rightarrow> nat) \<Rightarrow> (connection \<times> 'w, 'e, 'a) eff \<Rightarrow> bool" where
  "advances clk m \<longleftrightarrow> (\<forall>c w. \<exists>r c' w'. m (c, w) = Some (r, (c', w')) \<and> clk w \<le> clk w')"

text \<open>Before a deadline, and strictly later, for the results that satisfy \<open>Q\<close>.\<close>

definition timely :: "('w \<Rightarrow> nat) \<Rightarrow> nat \<Rightarrow> ('a \<Rightarrow> bool) \<Rightarrow> (connection \<times> 'w, 'e, 'a) eff \<Rightarrow> bool" where
  "timely clk d Q m \<longleftrightarrow> (\<forall>c w a c' w'. m (c, w) = Some (Inr a, (c', w')) \<longrightarrow> Q a \<longrightarrow> clk w < d)"

definition later :: "('w \<Rightarrow> nat) \<Rightarrow> ('a \<Rightarrow> bool) \<Rightarrow> (connection \<times> 'w, 'e, 'a) eff \<Rightarrow> bool" where
  "later clk Q m \<longleftrightarrow> (\<forall>c w a c' w'. m (c, w) = Some (Inr a, (c', w')) \<longrightarrow> Q a \<longrightarrow> clk w < clk w')"

fun continues :: "('s, 'r) flow \<Rightarrow> bool" where
  "continues (Continue _) = True"
| "continues (Break _) = False"

named_theorems progress_rules \<open>operations that return in time\<close>

lemma advancesD: "advances clk m \<Longrightarrow> m (c, w) = Some (r, (c', w')) \<Longrightarrow> clk w \<le> clk w'"
  unfolding advances_def by (metis option.inject prod.inject)

lemma advancesE:
  assumes "advances clk m"
  obtains r c' w' where "m (c, w) = Some (r, (c', w'))" and "clk w \<le> clk w'"
  using assms unfolding advances_def by blast

lemma advances_returns: "advances clk m \<Longrightarrow> returns m s"
  unfolding advances_def returns_def by (cases s) (metis option.distinct(1))

lemma advances_basic [progress_rules]:
  "advances clk (ret a)" "advances clk (throw e)" "advances clk (of_result r)" "advances clk get_state"
  by (auto simp: advances_def ret_def throw_def of_result_def get_state_def)

lemma advances_rd [progress_rules]: "reads_in_time clk f \<Longrightarrow> advances clk (rd f)"
  by (auto simp: advances_def rd_def reads_in_time_def case_prod_beta)

lemma advances_act [progress_rules]: "keeps_time clk f \<Longrightarrow> advances clk (act f)"
  by (auto simp: advances_def act_def keeps_time_def)

lemma advances_modify: "(\<And>c w. clk w \<le> clk (snd (f (c, w)))) \<Longrightarrow> advances clk (modify f)"
  unfolding advances_def modify_def by (metis prod.collapse)

lemma advances_bind [progress_rules]:
  assumes "advances clk m" and "\<And>a. advances clk (f a)"
  shows "advances clk (bind m f)"
  unfolding advances_def
proof (intro allI)
  fix c w
  from assms(1) obtain r c1 w1 where 1: "m (c, w) = Some (r, (c1, w1))" "clk w \<le> clk w1"
    by (rule advancesE)
  show "\<exists>r c' w'. bind m f (c, w) = Some (r, (c', w')) \<and> clk w \<le> clk w'"
  proof (cases r)
    case (Inl e)
    with 1 show ?thesis by (simp add: bind_def)
  next
    case (Inr a)
    from assms(2)[of a] obtain r' c2 w2 where "f a (c1, w1) = Some (r', (c2, w2))" "clk w1 \<le> clk w2"
      by (rule advancesE)
    with 1 Inr show ?thesis by (auto simp: bind_def)
  qed
qed

lemma advances_attempt [progress_rules]:
  assumes "advances clk m" shows "advances clk (attempt m)"
  unfolding advances_def
proof (intro allI)
  fix c w
  from assms obtain r c' w' where "m (c, w) = Some (r, (c', w'))" "clk w \<le> clk w'" by (rule advancesE)
  then show "\<exists>r c' w'. attempt m (c, w) = Some (r, (c', w')) \<and> clk w \<le> clk w'"
    by (simp add: attempt_def)
qed

lemma advances_map_error [progress_rules]:
  assumes "advances clk m" shows "advances clk (map_error g m)"
  unfolding advances_def
proof (intro allI)
  fix c w
  from assms obtain r c' w' where "m (c, w) = Some (r, (c', w'))" "clk w \<le> clk w'" by (rule advancesE)
  then show "\<exists>r c' w'. map_error g m (c, w) = Some (r, (c', w')) \<and> clk w \<le> clk w'"
    by (simp add: map_error_def)
qed

lemma advances_if [progress_rules]:
  "(b \<Longrightarrow> advances clk m) \<Longrightarrow> (\<not> b \<Longrightarrow> advances clk n) \<Longrightarrow> advances clk (if b then m else n)"
  by simp

lemma advances_Let [progress_rules]: "advances clk (f x) \<Longrightarrow> advances clk (let y = x in f y)"
  by simp

lemma bind_OkE:
  assumes "bind m f (c, w) = Some (Inr b, s')"
  obtains a c1 w1 where "m (c, w) = Some (Inr a, (c1, w1))" and "f a (c1, w1) = Some (Inr b, s')"
  using assms by (auto simp: bind_def split: option.splits sum.splits)

lemma timely_first: "timely clk d (\<lambda>_. True) m \<Longrightarrow> timely clk d Q (bind m f)"
  unfolding timely_def by (blast elim: bind_OkE)

lemma timely_then:
  assumes "advances clk m" and "\<And>a. timely clk d Q (f a)"
  shows "timely clk d Q (bind m f)"
  unfolding timely_def
proof (intro allI impI)
  fix c w b c' w'
  assume run: "bind m f (c, w) = Some (Inr b, (c', w'))" and Q: "Q b"
  from run obtain a c1 w1 where 1: "m (c, w) = Some (Inr a, (c1, w1))"
    and 2: "f a (c1, w1) = Some (Inr b, (c', w'))"
    by (rule bind_OkE)
  from assms(2) 2 Q have "clk w1 < d" unfolding timely_def by blast
  with advancesD[OF assms(1) 1] show "clk w < d" by simp
qed

lemma later_first:
  assumes "later clk (\<lambda>_. True) m" and "\<And>a. advances clk (f a)"
  shows "later clk Q (bind m f)"
  unfolding later_def
proof (intro allI impI)
  fix c w b c' w'
  assume run: "bind m f (c, w) = Some (Inr b, (c', w'))"
  from run obtain a c1 w1 where 1: "m (c, w) = Some (Inr a, (c1, w1))"
    and 2: "f a (c1, w1) = Some (Inr b, (c', w'))"
    by (rule bind_OkE)
  from assms(1) 1 have "clk w < clk w1" unfolding later_def by blast
  with advancesD[OF assms(2) 2] show "clk w < clk w'" by simp
qed

lemma later_then:
  assumes "advances clk m" and "\<And>a. later clk Q (f a)"
  shows "later clk Q (bind m f)"
  unfolding later_def
proof (intro allI impI)
  fix c w b c' w'
  assume run: "bind m f (c, w) = Some (Inr b, (c', w'))" and Q: "Q b"
  from run obtain a c1 w1 where 1: "m (c, w) = Some (Inr a, (c1, w1))"
    and 2: "f a (c1, w1) = Some (Inr b, (c', w'))"
    by (rule bind_OkE)
  from assms(2) 2 Q have "clk w1 < clk w'" unfolding later_def by blast
  with advancesD[OF assms(1) 1] show "clk w < clk w'" by simp
qed

lemma timely_basic [progress_rules]:
  "timely clk d Q (throw e)" "timely clk d continues (ret (Break x))"
  "later clk Q (throw e)" "later clk continues (ret (Break x))"
  by (simp_all add: timely_def later_def throw_def ret_def)

lemma timely_if [progress_rules]:
  "(b \<Longrightarrow> timely clk d Q m) \<Longrightarrow> (\<not> b \<Longrightarrow> timely clk d Q n) \<Longrightarrow> timely clk d Q (if b then m else n)"
  "(b \<Longrightarrow> later clk Q m) \<Longrightarrow> (\<not> b \<Longrightarrow> later clk Q n) \<Longrightarrow> later clk Q (if b then m else n)"
  by simp_all

text \<open>A loop returns when its rounds do and each of them that continues decreases a measure.\<close>

lemma advances_loop:
  fixes m :: "'x \<Rightarrow> 'w \<Rightarrow> nat"
  assumes total: "\<And>x. advances clk (f x)"
    and step: "\<And>x c w x' c' w'. f x (c, w) = Some (Inr (Continue x'), (c', w')) \<Longrightarrow> m x' w' < m x w"
  shows "advances clk (eff_loop f x)"
proof -
  have "\<exists>r c' w'. eff_loop f x (c, w) = Some (r, (c', w')) \<and> clk w \<le> clk w'" for c w
  proof (induction "m x w" arbitrary: x c w rule: less_induct)
    case less
    from total[of x] obtain r c1 w1 where 1: "f x (c, w) = Some (r, (c1, w1))" "clk w \<le> clk w1"
      by (rule advancesE)
    show ?case
    proof (cases r)
      case (Inl e)
      with 1 have "f x (c, w) = Some (Inl e, (c1, w1))" by simp
      from eff_loop_Err[of f, OF this] 1(2) show ?thesis by blast
    next
      case (Inr g)
      show ?thesis
      proof (cases g)
        case (Break b)
        with 1 Inr have "f x (c, w) = Some (Inr (Break b), (c1, w1))" by simp
        from eff_loop_Break[of f, OF this] 1(2) show ?thesis by blast
      next
        case (Continue x')
        with 1 Inr have eq: "f x (c, w) = Some (Inr (Continue x'), (c1, w1))" by simp
        from less[OF step[OF eq]] obtain r' c2 w2
          where "eff_loop f x' (c1, w1) = Some (r', (c2, w2))" and "clk w1 \<le> clk w2" by blast
        with 1(2) eff_loop_Continue[of f, OF eq] show ?thesis by (auto intro: order_trans)
      qed
    qed
  qed
  then show ?thesis by (simp add: advances_def)
qed

lemma advances_deadline_loop:
  assumes "\<And>x. advances clk (f x)" and "\<And>x. timely clk d continues (f x)" and "\<And>x. later clk continues (f x)"
  shows "advances clk (eff_loop f x)"
  using assms(1)
proof (rule advances_loop[where m = "\<lambda>_ w. d - clk w"])
  fix x c w x' c' w'
  assume "f x (c, w) = Some (Inr (Continue x'), (c', w'))"
  with assms(2)[of x] assms(3)[of x] have "clk w < d" "clk w < clk w'"
    unfolding timely_def later_def by (metis continues.simps(1))+
  then show "d - clk w' < d - clk w" by simp
qed

section \<open>The adapter\<close>

lemma progressive_reads:
  assumes "progressive env clk left"
  shows "reads_in_time clk (env_now env)" "reads_in_time clk (past (env_now env) d)"
    "reads_in_time clk (os_poll env fd rr wr ms)" "reads_in_time clk (pq_connect_start env str)"
    "keeps_time clk (pq_set_notice_processor env)" "reads_in_time clk (pq_connect_poll env)"
    "reads_in_time clk (pq_cancel_poll env)" "reads_in_time clk (pq_setnonblocking env)"
    "reads_in_time clk (pq_socket env)" "reads_in_time clk (pq_send_query_params env str os vs)"
    "reads_in_time clk (pq_set_single_row_mode env)" "reads_in_time clk (pq_flush env)"
    "reads_in_time clk (pq_consume_input env)" "reads_in_time clk (pq_is_busy env)"
    "reads_in_time clk (pq_get_result env)" "keeps_time clk (pq_clear env)"
    "keeps_time clk (pq_finish env)" "reads_in_time clk (pq_cancel_create env)"
    "reads_in_time clk (pq_cancel_start env)" "reads_in_time clk (pq_cancel_socket env)"
    "keeps_time clk (pq_cancel_finish env)"
  using assms
  by (simp_all add: progressive_def clocked_def reads_in_time_def past_def case_prod_beta less_imp_le)

lemma patient_reads:
  "patient ctl clk \<Longrightarrow> reads_in_time clk (pc_shutdown_requested ctl)"
  "patient ctl clk \<Longrightarrow> reads_in_time clk (pc_cancelled ctl)"
  by (simp_all add: patient_def)

lemma timelyI:
  "(\<And>c w. post m (\<lambda>r s'. case r of Inl e \<Rightarrow> True | Inr a \<Rightarrow> Q a \<longrightarrow> clk w < d) (c, w)) \<Longrightarrow> timely clk d Q m"
  unfolding timely_def by (fastforce dest: postD)

lemma laterI:
  "(\<And>c w. post m (\<lambda>r s'. case r of Inl e \<Rightarrow> True | Inr a \<Rightarrow> Q a \<longrightarrow> clk w < clk (snd s')) (c, w)) \<Longrightarrow> later clk Q m"
  unfolding later_def by (fastforce dest: postD)

lemma advances_set_busy [progress_rules]: "advances clk (set_busy b)"
  unfolding set_busy_def by (rule advances_modify) simp

lemma advances_is_alive [progress_rules]: "advances clk is_alive"
  unfolding is_alive_def by (intro progress_rules)

lemma advances_dispose:
  "progressive env clk left \<Longrightarrow> advances clk (dispose env)"
  unfolding dispose_def by (rule advances_modify) (simp add: progressive_def keeps_time_def)

lemma advances_check_control:
  "progressive env clk left \<Longrightarrow> patient ctl clk \<Longrightarrow> advances clk (check_control env ctl d)"
  unfolding check_control_def by (intro progress_rules patient_reads progressive_reads) assumption+

text \<open>Polling a descriptor succeeds only before its deadline, and takes time.\<close>

lemma poll_fd_body_in_time:
  assumes "progressive env clk left"
  shows "post (poll_fd_body env fd rr wr d x) (\<lambda>r s'. case r of Inl e \<Rightarrow> clk w \<le> clk (snd s')
    | Inr _ \<Rightarrow> clk w < d \<and> clk w < clk (snd s')) (c, w)"
proof -
  have now: "fst (env_now env w) = clk w" "clk (snd (env_now env w)) = clk w" for w
    using assms by (simp_all add: progressive_def clocked_def)
  have adv: "clk w < clk (snd (os_poll env fd rr wr ms (snd (env_now env w))))" for ms w
    using assms now(2)[of w] by (metis progressive_def clocked_def)
  show ?thesis
    unfolding poll_fd_body_def Let_def
    by (auto simp: past_def now case_prod_beta adv less_imp_le split: poll_outcome.split)
qed

lemma poll_fd_in_time:
  assumes "progressive env clk left"
  shows "post (poll_fd env fd rr wr d) (\<lambda>r s'. case r of Inl e \<Rightarrow> clk w \<le> clk (snd s')
    | Inr _ \<Rightarrow> clk w < d \<and> clk w < clk (snd s')) (c, w)"
proof -
  have "post (eff_loop (poll_fd_body env fd rr wr d) ()) (\<lambda>r s'. case r of Inl e \<Rightarrow> clk w \<le> clk (snd s')
      | Inr _ \<Rightarrow> clk w < d \<and> clk w < clk (snd s')) (c, w)"
  proof (rule post_loop[where I = "\<lambda>_ s. clk w \<le> clk (snd s)"])
    fix x :: unit and s :: "connection \<times> 'a"
    assume I: "clk w \<le> clk (snd s)"
    obtain c1 w1 where s: "s = (c1, w1)" by (cases s)
    show "post (poll_fd_body env fd rr wr d x) (\<lambda>r s'. case r of
        Inl e \<Rightarrow> case Inl e of Inl e \<Rightarrow> clk w \<le> clk (snd s') | Inr _ \<Rightarrow> clk w < d \<and> clk w < clk (snd s')
      | Inr (Continue x') \<Rightarrow> clk w \<le> clk (snd s')
      | Inr (Break a) \<Rightarrow> case Inr a of Inl e \<Rightarrow> clk w \<le> clk (snd s') | Inr _ \<Rightarrow> clk w < d \<and> clk w < clk (snd s')) s"
      unfolding s using I s
      by (auto intro: post_mono[OF poll_fd_body_in_time[OF assms]] split: sum.splits flow.splits)
  qed simp
  then show ?thesis by (simp add: poll_fd_def)
qed

lemma poll_fd_progress:
  assumes "progressive env clk left"
  shows "advances clk (poll_fd env fd rr wr d)" "timely clk d Q (poll_fd env fd rr wr d)"
    "later clk Q (poll_fd env fd rr wr d)"
proof -
  have "clocked env clk" using assms by (simp add: progressive_def)
  from returns_poll_fd[OF this] have "\<exists>r c' w'. poll_fd env fd rr wr d (c, w) = Some (r, (c', w'))" for c w
    by (force simp: returns_def)
  moreover have "clk w \<le> clk w'" if "poll_fd env fd rr wr d (c, w) = Some (r, (c', w'))" for c w r c' w'
    using postD[OF poll_fd_in_time[OF assms] that] by (auto split: sum.splits)
  ultimately show "advances clk (poll_fd env fd rr wr d)" unfolding advances_def by blast
  show "timely clk d Q (poll_fd env fd rr wr d)"
    by (rule timelyI, rule post_mono[OF poll_fd_in_time[OF assms]]) (auto split: sum.splits)
  show "later clk Q (poll_fd env fd rr wr d)"
    by (rule laterI, rule post_mono[OF poll_fd_in_time[OF assms]]) (auto split: sum.splits)
qed

text \<open>A round is in time when a wait in it is; what comes before the wait only has to return.\<close>

lemmas before_wait = timely_then[OF advances_rd] timely_then[OF advances_is_alive]
  later_then[OF advances_rd] later_then[OF advances_is_alive]

lemma wait_progress:
  assumes "progressive env clk left"
  shows "timely clk d Q (bind (poll_fd env fd rr ww d) f)"
    "(\<And>a. advances clk (f a)) \<Longrightarrow> later clk Q (bind (poll_fd env fd rr ww d) f)"
  by (rule timely_first[OF poll_fd_progress(2)[OF assms]])
    (rule later_first[OF poll_fd_progress(3)[OF assms]])

lemma wait_connection_progress:
  assumes "progressive env clk left"
  shows "advances clk (wait_connection env rr ww d)" "timely clk d Q (wait_connection env rr ww d)"
    "later clk Q (wait_connection env rr ww d)"
  unfolding wait_connection_def
  by (intro progress_rules before_wait wait_progress[OF assms] poll_fd_progress[OF assms]
      progressive_reads[OF assms])+

lemma advances_clear_results:
  assumes "progressive env clk left"
  shows "advances clk (eff_loop (clear_results_body env) ())"
proof (rule advances_loop[where m = "\<lambda>_ w. left w"])
  fix x :: unit
  show "advances clk (clear_results_body env x)"
    unfolding clear_results_body_def
    by (auto intro!: progress_rules progressive_reads[OF assms] split: option.split)
next
  fix x :: unit and c w x' c' w'
  assume "clear_results_body env x (c, w) = Some (Inr (Continue x'), (c', w'))"
  then show "left w' < left w"
    using assms unfolding progressive_def
    by (auto simp: clear_results_body_def eff_run split: prod.splits option.splits)
qed

lemma advances_drain:
  assumes "progressive env clk left"
  shows "advances clk (drain_until_idle env d)"
  unfolding drain_until_idle_def
proof (rule advances_deadline_loop[where d = d])
  fix x :: unit
  note clear = advances_clear_results[OF assms]
  note rules = progress_rules before_wait wait_progress[OF assms] poll_fd_progress[OF assms]
    progressive_reads[OF assms] clear timely_then[OF clear] later_then[OF clear]
  show "advances clk (drain_body env d x)" "timely clk d continues (drain_body env d x)"
    "later clk continues (drain_body env d x)"
    unfolding drain_body_def by (intro rules)+
qed

lemma advances_abandon:
  "progressive env clk left \<Longrightarrow> advances clk (abandon env reason)"
  "progressive env clk left \<Longrightarrow> advances clk (abandon_cancel env reason)"
  unfolding abandon_cancel_def abandon_def by (intro progress_rules advances_dispose progressive_reads; assumption)+

lemma advances_cancel_wait:
  assumes "progressive env clk left"
  shows "advances clk (cancel_wait env reason d state)"
  unfolding cancel_wait_def
  by (intro progress_rules advances_abandon[OF assms] poll_fd_progress[OF assms]
      progressive_reads[OF assms])

text \<open>
  A round of the cancellation that continues ran before the deadline; it waited, or libpq had
  answered \<open>PGRES_POLLING_ACTIVE\<close> and answers it again only later.
\<close>

fun cancel_measure :: "('w \<Rightarrow> nat) \<Rightarrow> nat \<Rightarrow> polling_status \<Rightarrow> 'w \<Rightarrow> nat" where
  "cancel_measure clk d state w = 2 * (d - clk w) + (if state = POLLING_ACTIVE then 1 else 0)"

lemma cancel_wait_later:
  assumes "progressive env clk left"
    and "cancel_wait env reason d state (c, w) = Some (Inr a, (c', w'))"
    and "state = POLLING_READING \<or> state = POLLING_WRITING"
  shows "clk w < clk w'"
proof -
  have "later clk (\<lambda>_. True) (cancel_wait env reason d state)"
    unfolding cancel_wait_def
  proof (simp only: assms(3) if_True, intro before_wait progress_rules)
    show "reads_in_time clk (pq_cancel_socket env)" by (rule progressive_reads[OF assms(1)])
  next
    fix socket
    show "later clk (\<lambda>_. True) (abandon_cancel env reason)"
      by (rule laterI) (simp add: abandon_cancel_def abandon_def dispose_def)
  next
    fix socket
    show "later clk (\<lambda>_. True)
        (bind (attempt (poll_fd env socket (state = POLLING_READING) (state = POLLING_WRITING) d))
          (\<lambda>r. if is_ok r then ret () else abandon_cancel env reason))"
      by (rule laterI) (auto intro!: post_mono[OF poll_fd_in_time[OF assms(1)]]
        simp: abandon_cancel_def abandon_def dispose_def split: sum.splits)
  qed
  with assms(2) show ?thesis unfolding later_def by blast
qed

lemma cancel_body_step:
  assumes p: "progressive env clk left"
    and run: "cancel_body env reason d state (c, w) = Some (Inr (Continue state'), (c', w'))"
  shows "cancel_measure clk d state' w' < cancel_measure clk d state w"
proof -
  obtain t w0 where now: "env_now env w = (t, w0)" "t = clk w" "clk w0 = clk w"
    using p unfolding progressive_def clocked_def by (metis fst_conv prod.collapse snd_conv)
  from run have early: "clk w < d" and goes: "state \<noteq> POLLING_OK" "state \<noteq> POLLING_FAILED"
    by (auto simp: cancel_body_def eff_run past_def now abandon_cancel_def abandon_def dispose_def
        split: if_splits polling_status.splits)
  from run early goes have "bind (cancel_wait env reason d state) (\<lambda>_.
      bind (rd (pq_cancel_poll env)) (\<lambda>state'. ret (Continue state'))) (c, w0) =
      Some (Inr (Continue state' :: (polling_status, bool) flow), (c', w'))"
    by (cases state) (simp_all add: cancel_body_def bind_def[of "rd _"] rd_def past_def now)
  then obtain a c1 w1 where wait: "cancel_wait env reason d state (c, w0) = Some (Inr a, (c1, w1))"
    and poll: "pq_cancel_poll env w1 = (state', w')"
    by (rule bind_OkE) (auto simp: eff_run split: prod.splits)
  have w1: "clk w \<le> clk w1" using advancesD[OF advances_cancel_wait[OF p] wait] now(3) by simp
  have w': "clk w1 \<le> clk w'" using progressive_reads(7)[OF p] poll by (metis reads_in_time_def snd_conv)
  show ?thesis
  proof (cases "state = POLLING_ACTIVE")
    case True
    have "state' = POLLING_ACTIVE \<Longrightarrow> clk w1 < clk w'" using p poll unfolding progressive_def by blast
    with True w1 w' early show ?thesis by auto
  next
    case False
    with goes have "state = POLLING_READING \<or> state = POLLING_WRITING" by (cases state) auto
    from cancel_wait_later[OF p wait this] now(3) w' early False show ?thesis by auto
  qed
qed

lemma advances_cancel_loop:
  assumes "progressive env clk left"
  shows "advances clk (eff_loop (cancel_body env reason d) state)"
proof (rule advances_loop[where m = "cancel_measure clk d"])
  show "advances clk (cancel_body env reason d state)" for state
    unfolding cancel_body_def
    by (cases state) (auto intro!: progress_rules advances_abandon[OF assms] advances_cancel_wait[OF assms]
        progressive_reads[OF assms])
qed (rule cancel_body_step[OF assms])

lemma advances_dispatch_cancel:
  assumes "progressive env clk left"
  shows "advances clk (dispatch_cancel env reason d)"
  unfolding dispatch_cancel_def
  by (intro progress_rules advances_abandon[OF assms] advances_cancel_loop[OF assms]
      progressive_reads[OF assms])

lemma advances_cancel_and_drain:
  assumes "progressive env clk left"
  shows "advances clk (cancel_and_drain env reason d)"
  unfolding cancel_and_drain_def
  by (intro progress_rules advances_abandon[OF assms] advances_dispatch_cancel[OF assms]
      advances_drain[OF assms])

lemma advances_flush:
  assumes "progressive env clk left" and "patient ctl clk"
  shows "advances clk (flush_output env d ctl)"
  unfolding flush_output_def
proof (rule advances_deadline_loop[where d = d])
  fix x :: unit
  note check = advances_check_control[OF assms]
  note rules = progress_rules before_wait wait_progress[OF assms(1)] poll_fd_progress[OF assms(1)]
    progressive_reads[OF assms(1)] check timely_then[OF check] later_then[OF check]
  show "advances clk (flush_body env d ctl x)" "timely clk d continues (flush_body env d ctl x)"
    "later clk continues (flush_body env d ctl x)"
    unfolding flush_body_def by (intro rules)+
qed

lemma advances_results:
  assumes "progressive env clk left"
  shows "advances clk (eff_loop (results_body env render) st)"
proof (rule advances_loop[where m = "\<lambda>_ w. left w"])
  show "advances clk (results_body env render st)" for st
    unfolding results_body_def Let_def case_prod_beta
    by (auto intro!: progress_rules progressive_reads[OF assms] advances_dispose[OF assms]
        split: option.split sum.split)
next
  fix st st' c c' w w'
  assume run: "results_body env render st (c, w) = Some (Inr (Continue st'), (c', w'))"
  obtain r w1 where get: "pq_get_result env w = (r, w1)" by (cases "pq_get_result env w")
  with run have "r \<noteq> None" and "w' = pq_clear env w1"
    by (auto simp: results_body_def eff_run set_busy_def dispose_def Let_def case_prod_beta
        split: option.splits sum.splits if_splits)
  with get show "left w' < left w"
    using assms unfolding progressive_def by auto
qed

text \<open>A wait whose failure gives the connection up.\<close>

lemma wait_or_give_up:
  assumes "progressive env clk left"
  shows "timely clk d Q (bind (attempt (poll_fd env fd rr ww d))
      (\<lambda>r. if is_ok r then ret a else bind (dispose env) (\<lambda>_. throw e)))"
    "later clk Q (bind (attempt (poll_fd env fd rr ww d))
      (\<lambda>r. if is_ok r then ret a else bind (dispose env) (\<lambda>_. throw e)))"
  by (rule timelyI laterI, unfold post_bind post_attempt sum.case,
      rule post_mono[OF poll_fd_in_time[OF assms]], auto simp: dispose_def split: sum.splits)+

lemma timely_check_control:
  assumes "progressive env clk left" and "patient ctl clk"
  shows "timely clk d Q (check_control env ctl d)"
proof -
  have "fst (env_now env w) = clk w" for w using assms(1) by (simp add: progressive_def clocked_def)
  then have now: "timely clk d Q (bind (rd (past (env_now env) d))
      (\<lambda>b. if b then throw (adapter_error AcDeadlineExceeded) else ret ()))"
    by (intro timelyI) (auto simp: past_def case_prod_beta)
  show ?thesis
    unfolding check_control_def
    by (intro before_wait timely_if timely_basic now patient_reads[OF assms(2)])
qed

section \<open>Collecting\<close>

text \<open>What \<open>observe_stop\<close> does to the state: nothing, or the first error and its grace.\<close>

lemma observe_stop_progress:
  assumes "progressive env clk left" and "patient ctl clk"
  shows "advances clk (observe_stop env d ctl st)"
    "observe_stop env d ctl st (c, w) = Some (Inr st', (c', w')) \<Longrightarrow>
       st' = st \<or> cs_first_error st = None \<and> cs_first_error st' \<noteq> None \<and>
         cs_drain_deadline st' \<le> clk w' + pc_cancel_drain_grace ctl"
proof -
  note rules = progress_rules progressive_reads[OF assms(1)] patient_reads[OF assms(2)]
    advances_dispatch_cancel[OF assms(1)]
  have stop: "advances clk (stop_reason env d ctl)"
    unfolding stop_reason_def by (intro rules)
  show "advances clk (observe_stop env d ctl st)"
    unfolding observe_stop_def Let_def
    by (auto intro!: rules stop split: option.split)
  have now: "fst (env_now env w) = clk w" "clk (snd (env_now env w)) = clk w" for w
    using assms(1) by (simp_all add: progressive_def clocked_def)
  assume run: "observe_stop env d ctl st (c, w) = Some (Inr st', (c', w'))"
  have "clk w1 \<le> clk w2" if "dispatch_cancel env reason dd (c1, w1) = Some (r, (c2, w2))"
    for reason dd c1 w1 r c2 w2
    using advancesD[OF advances_dispatch_cancel[OF assms(1)] that] .
  with run show "st' = st \<or> cs_first_error st = None \<and> cs_first_error st' \<noteq> None \<and>
      cs_drain_deadline st' \<le> clk w' + pc_cancel_drain_grace ctl"
    by (auto simp: observe_stop_def eff_run Let_def now case_prod_beta split: if_splits option.splits sum.splits
        elim!: bind_OkE) (use now in \<open>fastforce+\<close>)
qed

definition collect_measure :: "('w \<Rightarrow> nat) \<Rightarrow> nat \<Rightarrow> collect_state \<Rightarrow> 'w \<Rightarrow> nat" where
  "collect_measure clk grace st w = (cs_drain_deadline st - clk w) +
     (if cs_first_error st = None then Suc grace else 0)"

lemma collect_body_step:
  assumes p: "progressive env clk left" and q: "patient ctl clk"
    and run: "collect_body env render d ctl st (c, w) = Some (Inr (Continue st'), (c', w'))"
  shows "collect_measure clk (pc_cancel_drain_grace ctl) st' w' < collect_measure clk (pc_cancel_drain_grace ctl) st w"
proof -
  define rest where "rest = (\<lambda>st. bind is_alive (\<lambda>alive.
     if \<not> alive then throw lost
     else bind (rd (pq_consume_input env)) (\<lambda>r.
       if r = 0 then bind (set_busy False) (\<lambda>_. throw lost)
       else bind (rd (pq_is_busy env)) (\<lambda>b.
         if b \<noteq> 0 then
           bind (rd (pq_socket env)) (\<lambda>socket.
           if socket < 0 then bind (dispose env) (\<lambda>_. throw (first_error_or_lost st))
           else bind (attempt (poll_fd env socket True False (cs_drain_deadline st))) (\<lambda>r.
             if is_ok r then ret (Continue st)
             else bind (dispose env) (\<lambda>_. throw (first_error_or_lost st))))
         else bind (eff_loop (results_body env render) st) (\<lambda>r. ret (Break r))))))"
  have body: "collect_body env render d ctl st = bind (observe_stop env d ctl st) rest"
    by (simp add: collect_body_def rest_def)
  from run obtain st1 c1 w1 where obs: "observe_stop env d ctl st (c, w) = Some (Inr st1, (c1, w1))"
    and more: "rest st1 (c1, w1) = Some (Inr (Continue st'), (c', w'))"
    unfolding body by (rule bind_OkE)
  have same: "post (rest st1) (\<lambda>r s'. case r of Inr (Continue x) \<Rightarrow> x = st1 | _ \<Rightarrow> True) s" for s
    unfolding rest_def by (cases s) (auto simp: is_alive_def set_busy_def dispose_def
        intro!: post_mono[OF poll_fd_in_time[OF p]]
          post_mono[OF post_True, where m = "eff_loop (results_body env render) st1"] split: sum.splits)
  have "st' = st1" using postD[OF same more] by simp
  note give_up = timely_then[OF advances_dispose[OF p]] later_then[OF advances_dispose[OF p]]
    timely_then[OF advances_set_busy] later_then[OF advances_set_busy]
    timely_then[OF advances_results[OF p]] later_then[OF advances_results[OF p]]
  note rules = before_wait wait_or_give_up[OF p] give_up timely_if timely_basic progressive_reads[OF p]
  have "timely clk (cs_drain_deadline st1) continues (rest st1)" unfolding rest_def by (intro rules)
  with more have early: "clk w1 < cs_drain_deadline st1" unfolding timely_def by (metis continues.simps(1))
  have "later clk continues (rest st1)" unfolding rest_def by (intro rules)
  with more have late: "clk w1 < clk w'" unfolding later_def by (metis continues.simps(1))
  from observe_stop_progress[OF p q] obs have "clk w \<le> clk w1"
    and "st1 = st \<or> cs_first_error st = None \<and> cs_first_error st1 \<noteq> None \<and>
      cs_drain_deadline st1 \<le> clk w1 + pc_cancel_drain_grace ctl"
    by (blast dest: advancesD)+
  with early late show ?thesis
    unfolding \<open>st' = st1\<close> collect_measure_def by auto
qed

lemma advances_collect:
  assumes "progressive env clk left" and "patient ctl clk"
  shows "advances clk (collect_results env render limits d ctl)"
proof -
  note rules = progress_rules advances_flush[OF assms] observe_stop_progress(1)[OF assms]
    progressive_reads[OF assms(1)] advances_dispose[OF assms(1)] poll_fd_progress(1)[OF assms(1)]
    advances_results[OF assms(1)]
  have "advances clk (eff_loop (collect_body env render d ctl) st)" for st
  proof (rule advances_loop[where m = "collect_measure clk (pc_cancel_drain_grace ctl)"])
    show "advances clk (collect_body env render d ctl x)" for x
      unfolding collect_body_def by (intro rules)
  qed (rule collect_body_step[OF assms])
  then show ?thesis
    unfolding collect_results_def by (intro rules)
qed

section \<open>Requests\<close>

lemma advances_send:
  assumes "progressive env clk left" and "patient ctl clk"
  shows "advances clk (send_query env render sql ps limits d ctl)"
    "advances clk (send_and_collect env render sql ps single d ctl)"
    "advances clk (execute env render sql d ctl)"
proof -
  note rules = progress_rules progressive_reads[OF assms(1)] advances_collect[OF assms]
    advances_check_control[OF assms] advances_cancel_and_drain[OF assms(1)]
  have "advances clk (send_params env sql ps)" for sql ps
    unfolding send_params_def by (intro rules)
  moreover have "advances clk (single_row_or_fail env d)"
    unfolding single_row_or_fail_def by (intro rules)
  moreover have "advances clk (collect_then_idle env render limits d ctl)" for limits
    unfolding collect_then_idle_def by (intro rules)
  ultimately have more: "advances clk (send_params env sql ps)" "advances clk (single_row_or_fail env d)"
    "advances clk (collect_then_idle env render limits d ctl)" for sql ps limits by blast+
  show "advances clk (send_query env render sql ps limits d ctl)"
    unfolding send_query_def by (intro rules more)
  show *: "advances clk (send_and_collect env render sql ps single d ctl)" for sql ps single
    unfolding send_and_collect_def by (intro rules more)
  show "advances clk (execute env render sql d ctl)"
    unfolding execute_def by (rule * )
qed

lemma connect_body_step:
  assumes p: "progressive env clk left" and q: "patient ctl clk"
  shows "advances clk (connect_body env d ctl x)" "timely clk d continues (connect_body env d ctl x)"
    "later clk continues (connect_body env d ctl x)"
proof -
  note check = advances_check_control[OF p q]
  note rules = progress_rules progressive_reads[OF p] check wait_connection_progress(1)[OF p]
  show "advances clk (connect_body env d ctl x)"
    unfolding connect_body_def by (auto intro!: rules split: polling_status.split)
  show "timely clk d continues (connect_body env d ctl x)"
    unfolding connect_body_def by (intro timely_first timely_check_control[OF p q])
  have "later clk continues (connect_body env d ctl x)"
    unfolding later_def
  proof (intro allI impI)
    fix c w a c' w'
    assume run: "connect_body env d ctl x (c, w) = Some (Inr a, (c', w'))" and go: "continues a"
    from run obtain c1 w1 state where 1: "check_control env ctl d (c, w) = Some (Inr (), (c1, w1))"
      and rest: "bind (rd (pq_connect_poll env)) (\<lambda>state.
        bind (check_control env ctl d) (\<lambda>_.
        case state of
          POLLING_OK \<Rightarrow> ret (Break ())
        | POLLING_FAILED \<Rightarrow> throw (adapter_error AcConnectionLost)
        | POLLING_ACTIVE \<Rightarrow> ret (Continue ())
        | POLLING_READING \<Rightarrow> bind (wait_connection env True False d) (\<lambda>_. ret (Continue ()))
        | POLLING_WRITING \<Rightarrow> bind (wait_connection env False True d) (\<lambda>_. ret (Continue ()))))
        (c1, w1) = Some (Inr a, (c', w'))"
      unfolding connect_body_def by (auto elim: bind_OkE)
    obtain state w2 where poll: "pq_connect_poll env w1 = (state, w2)" by (cases "pq_connect_poll env w1")
    from rest poll obtain c3 w3 where 3: "check_control env ctl d (c1, w2) = Some (Inr (), (c3, w3))"
      and last: "(case state of
          POLLING_OK \<Rightarrow> ret (Break ())
        | POLLING_FAILED \<Rightarrow> throw (adapter_error AcConnectionLost)
        | POLLING_ACTIVE \<Rightarrow> ret (Continue ())
        | POLLING_READING \<Rightarrow> bind (wait_connection env True False d) (\<lambda>_. ret (Continue ()))
        | POLLING_WRITING \<Rightarrow> bind (wait_connection env False True d) (\<lambda>_. ret (Continue ())))
        (c3, w3) = Some (Inr a, (c', w'))"
      by (auto simp: bind_def[of "rd _"] rd_def elim!: bind_OkE)
    have order: "clk w \<le> clk w1" "clk w1 \<le> clk w2" "clk w2 \<le> clk w3"
      using advancesD[OF check 1] advancesD[OF check 3] progressive_reads(6)[OF p] poll
      by (auto simp: reads_in_time_def) (metis snd_conv)
    have wait: "later clk continues (bind (wait_connection env rr ww d)
        (\<lambda>_. ret (Continue () :: (unit, unit) flow)))" for rr ww
      by (rule later_first[OF wait_connection_progress(3)[OF p]]) (rule progress_rules)
    show "clk w < clk w'"
    proof (cases state)
      case POLLING_ACTIVE
      with p poll have "clk w1 < clk w2" unfolding progressive_def by blast
      with last POLLING_ACTIVE order show ?thesis by (simp add: ret_def)
    next
      case POLLING_READING
      with last go wait[of True False] have "clk w3 < clk w'" unfolding later_def by auto
      with order show ?thesis by simp
    next
      case POLLING_WRITING
      with last go wait[of False True] have "clk w3 < clk w'" unfolding later_def by auto
      with order show ?thesis by simp
    qed (use last go in \<open>auto simp: ret_def throw_def\<close>)
  qed
  then show "later clk continues (connect_body env d ctl x)" .
qed

lemma advances_connect:
  assumes "progressive env clk left" and "patient ctl clk"
  shows "advances clk (connect_steps env render dsn d ctl)"
proof -
  note rules = progress_rules progressive_reads[OF assms(1)] advances_send[OF assms]
    advances_check_control[OF assms]
  have loop: "advances clk (eff_loop (connect_body env d ctl) ())"
    by (rule advances_deadline_loop[where d = d]) (rule connect_body_step[OF assms])+
  have nb: "advances clk (set_nonblocking env)"
    unfolding set_nonblocking_def by (intro rules)
  have utf8: "advances clk (setup_utf8 env render d ctl)"
    unfolding setup_utf8_def by (intro rules)
  have identity: "advances clk (check_identity env dsn)"
    unfolding check_identity_def Let_def case_prod_beta by (intro rules)
  have start: "advances clk (modify (\<lambda>(c, w). (\<lparr>cn_alive = True, cn_busy = False\<rparr>, w)))"
    by (rule advances_modify) simp
  show ?thesis
    unfolding connect_steps_def by (intro rules loop nb utf8 identity start)
qed

lemma connect_returns:
  assumes "progressive env clk left" and "patient ctl clk"
  shows "\<exists>r w'. connect env render dsn d ctl w = Some (r, w')"
proof -
  from advances_connect[OF assms] obtain r c' w'
    where "connect_steps env render dsn d ctl (\<lparr>cn_alive = False, cn_busy = False\<rparr>, w) = Some (r, (c', w'))"
    by (rule advancesE)
  then show ?thesis by (cases r) (auto simp: connect_def)
qed

section \<open>The property\<close>


text \<open>The simulated server when it never stops being busy: a query ends with its deadline.\<close>

definition sim_slow_env :: "sim libpq_env" where
  "sim_slow_env = sim_env\<lparr>pq_is_busy := (\<lambda>w. (1, w))\<rparr>"

lemma sim_progressive: "progressive sim_slow_env sim_time (\<lambda>w. length (sim_results w))"
  by (auto simp: progressive_def sim_slow_env_def sim_env_def clocked_def reads_in_time_def keeps_time_def
      sim_sent_def Let_def split: list.split list.splits)

lemma sim_patient: "patient sim_control sim_time"
  by (simp add: patient_def sim_control_def reads_in_time_def)


end
