(* ===== verification/Worker_Progress.thy ===== *)
theory Worker_Progress
  imports Worker_Loop Adapter_Progress
begin

text \<open>
  A worker answers: every operation of \<open>LibpqBackend\<close>, every round and the loop over a finite
  queue return when libpq's polling takes time (\<open>progressive\<close>) and the contexts of the requests
  read a clock that is not turned back (\<open>live_context\<close>).
\<close>

section \<open>Computations that always return\<close>

definition always_returns :: "('s, 'e, 'a) eff \<Rightarrow> bool" where
  "always_returns m \<longleftrightarrow> (\<forall>s. returns m s)"

named_theorems return_rules \<open>computations that always return\<close>

lemma always_returns_basic [return_rules]:
  "always_returns (ret a)" "always_returns (throw e)" "always_returns (of_result r)"
  "always_returns get_state" "always_returns (modify f)" "always_returns (rd g)"
  by (simp_all add: always_returns_def)

lemma always_returns_bind [return_rules]:
  "always_returns m \<Longrightarrow> (\<And>a. always_returns (f a)) \<Longrightarrow> always_returns (bind m f)"
  unfolding always_returns_def
  by (auto intro!: returns_bind simp: post_def split: option.split sum.split)

lemma always_returns_attempt [return_rules]: "always_returns m \<Longrightarrow> always_returns (attempt m)"
  by (simp add: always_returns_def)

lemma always_returns_if [return_rules]:
  "(b \<Longrightarrow> always_returns m) \<Longrightarrow> (\<not> b \<Longrightarrow> always_returns n) \<Longrightarrow> always_returns (if b then m else n)"
  by simp

lemma advances_always: "advances clk m \<Longrightarrow> always_returns m"
  by (simp add: always_returns_def advances_returns)

lemma on_connection_returns: "advances clk m \<Longrightarrow> always_returns (on_connection c m)"
  unfolding always_returns_def returns_def on_connection_def
  by (metis (no_types, lifting) advances_returns case_prod_conv old.prod.exhaust option.case(2)
      option.distinct(1) option.exhaust returns_def)

lemma on_backend_returns [return_rules]: "always_returns m \<Longrightarrow> always_returns (on_backend m)"
  by (auto simp: always_returns_def returns_def on_backend_def split: option.split prod.split)

lemma registry_returns [return_rules]:
  "always_returns (on_registry f)" "always_returns get_registry" "always_returns (read_world g)"
  unfolding on_registry_def get_registry_def read_world_def by (intro return_rules)+

section \<open>The backend\<close>

definition live_context :: "('w \<Rightarrow> nat) \<Rightarrow> 'w request_context \<Rightarrow> bool" where
  "live_context clk ctx \<longleftrightarrow> reads_in_time clk (rc_cancelled ctx) \<and> reads_in_time clk (rc_stopping ctx) \<and>
     reads_in_time clk (rc_now ctx)"

lemma live_controls:
  assumes "live_context clk ctx"
  shows "patient (libpq_control ctx) clk" "patient (no_client_cancel_control ctx) clk"
  using assms
  by (auto simp: live_context_def patient_def control_defs reads_in_time_def or_read_def expired_def
      past_def case_prod_beta intro: order_trans split: prod.split)

lemma advances_retrieve:
  assumes "progressive env clk left" and "patient ctl clk"
  shows "advances clk (retrieve env render c d ctl)"
proof -
  note rules = progress_rules advances_send[OF assms]
  have query: "advances clk (query_rows env render sql limits d ctl)" for sql limits
    unfolding query_rows_def query_conn_def by (intro rules)
  have inner: "advances clk (retrieve_inner env render c limits d ctl)" for limits
    unfolding retrieve_inner_def by (intro rules query)
  have execute: "advances clk (execute_checked env render sql d ctl)" for sql
    unfolding execute_checked_def by (intro rules)
  have rollback: "advances clk (rollback_and_fail env render d ctl e)" for e
    unfolding rollback_and_fail_def by (intro rules)
  show ?thesis
    unfolding retrieve_def by (auto intro!: rules inner execute rollback split: sum.split)
qed

lemma libpq_returns:
  fixes ctx :: "'w request_context"
  assumes "progressive env clk left" and "live_context clk ctx"
  shows "always_returns (backend_call (libpq_ops env render) c ctx op)"
    "always_returns (op_shutdown (libpq_ops env render) ctx)"
proof -
  note controls = live_controls[OF assms(2)]
  note sends = advances_send[OF assms(1) controls(1)] advances_send[OF assms(1) controls(2)]
    advances_retrieve[OF assms(1) controls(1)] advances_cancel_and_drain[OF assms(1)]
  note rules = return_rules sends[THEN on_connection_returns]
  have fail: "always_returns (fail_with env f)" for f
    unfolding fail_with_def by (intro rules)
  have execute: "always_returns (execute_command env render sql ctx b)" for sql b
    unfolding execute_command_def with_connection_def Let_def
    by (cases b) (auto intro!: rules fail split: option.split sum.split)
  have open_tx: "always_returns (open_tx env render sql m ctx)" for sql m
    unfolding open_tx_def by (intro rules execute fail)
  have take: "always_returns (take_connection env)"
    unfolding take_connection_def by (intro rules)
  have cancel: "always_returns (cancel_after_failure env ctx)"
    unfolding cancel_after_failure_def query_cancel_reason_def
    by (auto intro!: rules fail split: option.split sum.split)
  have failed: "always_returns (query_failed env ctx e)" for e
    unfolding query_failed_def Let_def by (intro rules cancel)
  have query: "always_returns (lb_query env render request c ctx)" for request
    unfolding lb_query_def with_connection_def query_conn_def
    by (auto intro!: rules fail failed split: option.split sum.split)
  have schema: "always_returns (lb_get_schema env render c ctx)"
    unfolding lb_get_schema_def with_connection_def
    by (auto intro!: rules fail split: option.split sum.split schema_error.split)
  have commit: "always_returns (lb_commit env render ctx)"
    unfolding lb_commit_def Let_def by (auto intro!: rules fail execute split: sum.split)
  have rollback: "always_returns (lb_rollback env render ctx)"
    unfolding lb_rollback_def Let_def by (auto intro!: rules execute)
  have close: "always_returns (lb_close env ctx)"
    unfolding lb_close_def Let_def by (auto intro!: rules take)
  show "always_returns (backend_call (libpq_ops env render) c ctx op)"
    by (cases op) (simp_all add: libpq_ops_def lb_open_read_def lb_open_write_def open_tx query schema
        commit rollback close)
  show "always_returns (op_shutdown (libpq_ops env render) ctx)"
    unfolding libpq_ops_def backend_ops.select_convs lb_shutdown_def
    by (auto intro!: rules execute take)
qed

section \<open>The worker\<close>

lemma publish_returns [return_rules]: "always_returns (publish_result render h c r)"
  by (cases "(render, h, c, r)" rule: publish_result.cases)
    (auto simp: success_def fail_for_handle_def intro!: return_rules)

lemma round_returns:
  assumes "\<And>op. always_returns (backend_call ops c ctx op)" and "always_returns (op_shutdown ops ctx)"
  shows "always_returns (run_operation ops render h c op ctx)" "always_returns (run_shutdown ops h ctx)"
proof -
  have "always_returns (execute_operation ops render h c op ctx)"
    unfolding execute_operation_def error_envelope_for_def dispatch_operation_def
    by (auto intro!: return_rules assms(1) split: option.split)
  moreover have "always_returns (finish_operation ops h op r)" for r
    unfolding finish_operation_def Let_def by (intro return_rules)
  ultimately show "always_returns (run_operation ops render h c op ctx)"
    unfolding run_operation_def by (intro return_rules)
  show "always_returns (run_shutdown ops h ctx)"
    unfolding run_shutdown_def Let_def by (intro return_rules assms(2))
qed

fun request_context_of :: "'w worker_request \<Rightarrow> 'w request_context" where
  "request_context_of (DoOperation op ctx) = ctx"
| "request_context_of (DoShutdown ctx) = ctx"

lemma loop_returns:
  assumes "progressive env clk left" and "list_all (\<lambda>r. live_context clk (request_context_of r)) requests"
  shows "always_returns (worker_loop (libpq_ops env render) render h c requests)"
  using assms(2)
proof (induction requests)
  case Nil
  show ?case by (simp add: return_rules)
next
  case (Cons request requests)
  have "always_returns (worker_round (libpq_ops env render) render h c request)"
    using Cons.prems by (cases request)
      (auto simp: worker_round_def intro!: round_returns libpq_returns[OF assms(1)])
  with Cons show ?case by (auto intro!: return_rules)
qed

section \<open>The property\<close>



end
