(* ===== verification/Result_Types.thy ===== *)
theory Result_Types
  imports Server
begin

text \<open>
  The result types \<open>protocol.rs\<close> declares for the nine tools, with their derived decoders, and that
  what the server answers is of the declared type: the objects that \<open>worker.rs\<close> writes with \<open>json!\<close>
  and the query and schema results, whose members canonicalisation reorders, all decode as the type
  of the tool that was called.
\<close>

section \<open>Decoders\<close>

datatype opened_transaction = OpenedRead | OpenedWrite

record close_result =
  clr_disposed :: bool
  clr_cleanup_verified :: bool
  clr_transaction_outcome :: "transaction_outcome option"

definition de_open_database_result :: "string decoder" where
  "de_open_database_result v =
     and_then (de_struct 1 [''handle''] v) (\<lambda>obj. de_field de_string obj ''handle'')"

definition de_list_handles_result :: "handle_state list decoder" where
  "de_list_handles_result v =
     and_then (de_struct 1 [''handles''] v) (\<lambda>obj. de_field (de_list de_handle_state) obj ''handles'')"

definition opened_names :: "(string \<times> opened_transaction) list" where
  "opened_names = [(''read'', OpenedRead), (''write'', OpenedWrite)]"

definition de_open_transaction_result :: "opened_transaction decoder" where
  "de_open_transaction_result v =
     and_then (de_struct 1 [''opened''] v) (\<lambda>obj. de_field (de_enum opened_names) obj ''opened'')"

definition de_commit_result :: "bool decoder" where
  "de_commit_result v =
     and_then (de_struct 1 [''committed''] v) (\<lambda>obj. de_field de_bool obj ''committed'')"

definition de_rollback_result :: "bool decoder" where
  "de_rollback_result v =
     and_then (de_struct 1 [''rolled_back''] v) (\<lambda>obj. de_field de_bool obj ''rolled_back'')"

definition de_close_result :: "close_result decoder" where
  "de_close_result v =
     and_then (de_struct 3 [''disposed'', ''cleanup_verified'', ''transaction_outcome''] v) (\<lambda>obj.
     and_then (de_field de_bool obj ''disposed'') (\<lambda>d.
     and_then (de_field de_bool obj ''cleanup_verified'') (\<lambda>c.
     and_then (de_field_or None (de_option de_outcome) obj ''transaction_outcome'') (\<lambda>out.
     Ok \<lparr>clr_disposed = d, clr_cleanup_verified = c, clr_transaction_outcome = out\<rparr>))))"

text \<open>\<open>ColumnFormat\<close> has the one variant \<open>text\<close>, which the model's columns leave out.\<close>

definition de_column_format :: "unit decoder" where
  "de_column_format = de_enum [(''text'', ())]"

definition de_result_column :: "result_column decoder" where
  "de_result_column v =
     and_then (de_struct 3 [''name'', ''type_oid'', ''format''] v) (\<lambda>obj.
     and_then (de_field de_string obj ''name'') (\<lambda>name.
     and_then (de_field de_uint obj ''type_oid'') (\<lambda>oid.
     and_then (de_field de_column_format obj ''format'') (\<lambda>_.
     Ok \<lparr>rc_name = name, rc_type_oid = oid\<rparr>))))"

definition de_query_result :: "query_result decoder" where
  "de_query_result v =
     and_then (de_struct 4 [''columns'', ''rows'', ''command_tag'', ''affected_rows''] v) (\<lambda>obj.
     and_then (de_field (de_list de_result_column) obj ''columns'') (\<lambda>cols.
     and_then (de_field (de_list (de_list (de_option de_string))) obj ''rows'') (\<lambda>rows.
     and_then (de_field de_string obj ''command_tag'') (\<lambda>tag.
     and_then (de_field_or None (de_option de_string) obj ''affected_rows'') (\<lambda>affected.
     Ok \<lparr>q_columns = cols, q_rows = rows, q_command_tag = tag, q_affected_rows = affected\<rparr>)))))"

definition de_schema_column :: "schema_column decoder" where
  "de_schema_column v =
     and_then (de_struct 8 [''name'', ''ordinal'', ''type_oid'', ''type_name'', ''nullable'',
       ''default_expression'', ''identity'', ''generated''] v) (\<lambda>obj.
     and_then (de_field de_string obj ''name'') (\<lambda>name.
     and_then (de_field de_uint obj ''ordinal'') (\<lambda>ordinal.
     and_then (de_field de_uint obj ''type_oid'') (\<lambda>oid.
     and_then (de_field de_string obj ''type_name'') (\<lambda>type_name.
     and_then (de_field de_bool obj ''nullable'') (\<lambda>nullable.
     and_then (de_field_or None (de_option de_string) obj ''default_expression'') (\<lambda>default.
     and_then (de_field (de_enum identity_names) obj ''identity'') (\<lambda>identity.
     and_then (de_field de_bool obj ''generated'') (\<lambda>generated.
     Ok \<lparr>sc_name = name, sc_ordinal = ordinal, sc_type_oid = oid, sc_type_name = type_name,
         sc_nullable = nullable, sc_default_expression = default, sc_identity = identity,
         sc_generated = generated\<rparr>)))))))))"

definition de_constraint :: "table_constraint decoder" where
  "de_constraint v =
     and_then (de_struct 3 [''name'', ''kind'', ''definition''] v) (\<lambda>obj.
     and_then (de_field de_string obj ''name'') (\<lambda>name.
     and_then (de_field (de_enum constraint_names) obj ''kind'') (\<lambda>kind.
     and_then (de_field de_string obj ''definition'') (\<lambda>text.
     Ok \<lparr>tc_name = name, tc_kind = kind, tc_definition = text\<rparr>))))"

definition de_relation :: "relation_info decoder" where
  "de_relation v =
     and_then (de_struct 4 [''name'', ''kind'', ''columns'', ''constraints''] v) (\<lambda>obj.
     and_then (de_field de_string obj ''name'') (\<lambda>name.
     and_then (de_field (de_enum relation_kind_names) obj ''kind'') (\<lambda>kind.
     and_then (de_field (de_list de_schema_column) obj ''columns'') (\<lambda>cols.
     and_then (de_field (de_list de_constraint) obj ''constraints'') (\<lambda>constraints.
     Ok \<lparr>rl_name = name, rl_kind = kind, rl_columns = cols, rl_constraints = constraints\<rparr>)))))"

definition de_schema_info :: "schema_info decoder" where
  "de_schema_info v =
     and_then (de_struct 2 [''name'', ''relations''] v) (\<lambda>obj.
     and_then (de_field de_string obj ''name'') (\<lambda>name.
     and_then (de_field (de_list de_relation) obj ''relations'') (\<lambda>relations.
     Ok \<lparr>si_name = name, si_relations = relations\<rparr>)))"

definition de_schema_result :: "schema_result decoder" where
  "de_schema_result v =
     and_then (de_struct 1 [''schemas''] v) (\<lambda>obj. de_field (de_list de_schema_info) obj ''schemas'')"

section \<open>Canonical encodings decode\<close>

lemma canonical_struct [simp]:
  "distinct (map fst obj) \<Longrightarrow> de_struct n names (JObject (sort_object obj)) =
     (if fst ` set obj \<subseteq> set names then Ok (sort_object obj) else Err DeSerde)"
  using sort_object_keys[of obj] by (simp add: de_struct_def flip: set_map)

lemma canonical_parts [simp]:
  "canonicalize (en_uint n) = en_uint n" "canonicalize (en_enum names a) = en_enum names a"
  "canonicalize (en_option enc x) = en_option (\<lambda>a. canonicalize (enc a)) x"
  "canonicalize (en_list enc xs) = en_list (\<lambda>a. canonicalize (enc a)) xs"
  by (simp_all add: en_uint_def en_enum_def en_option_def en_list_def split: option.split)

lemma kind_round_trip [simp]: "de_enum relation_kind_names (en_enum relation_kind_names a) = Ok a"
  by (rule en_enum_round_trip) (cases a; simp add: relation_kind_names_def)+

lemma identity_round_trip [simp]: "de_enum identity_names (en_enum identity_names a) = Ok a"
  by (rule en_enum_round_trip) (cases a; simp add: identity_names_def)+

lemma constraint_round_trip [simp]: "de_enum constraint_names (en_enum constraint_names a) = Ok a"
  by (rule en_enum_round_trip) (cases a; simp add: constraint_names_def)+

lemma text_option_round_trip [simp]: "de_option de_string (en_option JString x) = Ok x"
  by (rule string_codec.option_round_trip) (simp add: option.pred_True)

lemmas field_defs = sort_object_get de_field_def de_field_or_def string_codec.dec_enc bool_codec.dec_enc uint_codec.dec_enc

interpretation column_type: nonnull_codec "\<lambda>c. canonicalize (en_result_column c)" de_result_column "\<lambda>_. True"
proof unfold_locales
  fix c :: result_column
  have "de_column_format (JString ''text'') = Ok ()" by (simp add: de_column_format_def de_enum_def)
  then show "de_result_column (canonicalize (en_result_column c)) = Ok c"
    by (simp add: en_result_column_def de_result_column_def field_defs)
qed (simp add: en_result_column_def)

interpretation cell_type: json_codec "en_list (en_option JString)" "de_list (de_option de_string)" "\<lambda>_. True"
  by unfold_locales (simp add: de_list_def en_list_def map_result_map_Ok)

interpretation query_type: nonnull_codec "\<lambda>q. canonicalize (en_query_result q)" de_query_result "\<lambda>_. True"
proof unfold_locales
  fix q :: query_result
  have "de_list de_result_column (en_list (\<lambda>a. canonicalize (en_result_column a)) (q_columns q)) = Ok (q_columns q)"
    by (rule column_type.list_round_trip) (simp add: list.pred_True)
  moreover have "de_list (de_list (de_option de_string)) (en_list (en_list (en_option JString)) (q_rows q)) = Ok (q_rows q)"
    by (rule cell_type.list_round_trip) (simp add: list.pred_True)
  ultimately show "de_query_result (canonicalize (en_query_result q)) = Ok q"
    by (simp add: en_query_result_def de_query_result_def field_defs)
qed (simp add: en_query_result_def)

interpretation schema_column_type:
  nonnull_codec "\<lambda>c. canonicalize (en_schema_column c)" de_schema_column "\<lambda>_. True"
  by unfold_locales (simp_all add: en_schema_column_def de_schema_column_def field_defs)

interpretation constraint_type: nonnull_codec "\<lambda>c. canonicalize (en_constraint c)" de_constraint "\<lambda>_. True"
  by unfold_locales (simp_all add: en_constraint_def de_constraint_def field_defs)

interpretation relation_type: nonnull_codec "\<lambda>r. canonicalize (en_relation r)" de_relation "\<lambda>_. True"
proof unfold_locales
  fix r :: relation_info
  have "de_list de_schema_column (en_list (\<lambda>a. canonicalize (en_schema_column a)) (rl_columns r)) = Ok (rl_columns r)"
    by (rule schema_column_type.list_round_trip) (simp add: list.pred_True)
  moreover have "de_list de_constraint (en_list (\<lambda>a. canonicalize (en_constraint a)) (rl_constraints r)) = Ok (rl_constraints r)"
    by (rule constraint_type.list_round_trip) (simp add: list.pred_True)
  ultimately show "de_relation (canonicalize (en_relation r)) = Ok r"
    by (simp add: en_relation_def de_relation_def field_defs)
qed (simp add: en_relation_def)

interpretation schema_type: nonnull_codec "\<lambda>s. canonicalize (en_schema_info s)" de_schema_info "\<lambda>_. True"
proof unfold_locales
  fix s :: schema_info
  have "de_list de_relation (en_list (\<lambda>a. canonicalize (en_relation a)) (si_relations s)) = Ok (si_relations s)"
    by (rule relation_type.list_round_trip) (simp add: list.pred_True)
  then show "de_schema_info (canonicalize (en_schema_info s)) = Ok s"
    by (simp add: en_schema_info_def de_schema_info_def field_defs)
qed (simp add: en_schema_info_def)

interpretation schema_result_type:
  nonnull_codec "\<lambda>r. canonicalize (en_schema_result r)" de_schema_result "\<lambda>_. True"
proof unfold_locales
  fix r :: schema_result
  have "de_list de_schema_info (en_list (\<lambda>a. canonicalize (en_schema_info a)) r) = Ok r"
    by (rule schema_type.list_round_trip) (simp add: list.pred_True)
  then show "de_schema_result (canonicalize (en_schema_result r)) = Ok r"
    by (simp add: en_schema_result_def de_schema_result_def field_defs)
qed (simp add: en_schema_result_def)

interpretation state_type: nonnull_codec "\<lambda>s. canonicalize (en_handle_state s)" de_handle_state "\<lambda>_. True"
proof unfold_locales
  fix s :: handle_state
  have "de_option de_bool (en_option JBool (hs_open s)) = Ok (hs_open s)"
    by (rule bool_codec.option_round_trip) (simp add: option.pred_True)
  then show "de_handle_state (canonicalize (en_handle_state s)) = Ok s"
    by (simp add: de_handle_state_def en_handle_state_def field_defs)
qed (simp add: en_handle_state_def)

section \<open>What the workers answer\<close>

fun declared :: "renderer \<Rightarrow> config \<Rightarrow> operation \<Rightarrow> json \<Rightarrow> bool" where
  "declared render c OpGetSchema v \<longleftrightarrow>
     (\<exists>schema. de_schema_result v = Ok schema \<and> is_ok (schema_result_validate render c schema))"
| "declared render c OpOpenRead v \<longleftrightarrow> de_open_transaction_result v = Ok OpenedRead"
| "declared render c OpOpenWrite v \<longleftrightarrow> de_open_transaction_result v = Ok OpenedWrite"
| "declared render c (OpQuery request) v \<longleftrightarrow>
     (\<exists>q. de_query_result v = Ok q \<and> is_ok (query_result_validate render c q))"
| "declared render c OpCommit v \<longleftrightarrow> de_commit_result v = Ok True"
| "declared render c OpRollback v \<longleftrightarrow> (\<exists>changed. de_rollback_result v = Ok changed)"
| "declared render c OpClose v \<longleftrightarrow> de_close_result v =
     Ok \<lparr>clr_disposed = True, clr_cleanup_verified = True, clr_transaction_outcome = None\<rparr>"

definition declares :: "renderer \<Rightarrow> config \<Rightarrow> operation \<Rightarrow> core_failure + reply \<Rightarrow> bool" where
  "declares render c op r \<longleftrightarrow>
     (case r of Inl _ \<Rightarrow> True | Inr e \<Rightarrow> pred_option (declared render c op) (env_result e))"

lemma written_results [simp]:
  "de_open_transaction_result (JObject [(''opened'', JString ''read'')]) = Ok OpenedRead"
  "de_open_transaction_result (JObject [(''opened'', JString ''write'')]) = Ok OpenedWrite"
  "de_commit_result (JObject [(''committed'', JBool b)]) = Ok b"
  "de_rollback_result (JObject [(''rolled_back'', JBool b)]) = Ok b"
  "de_open_database_result (JObject [(''handle'', JString h)]) = Ok h"
  "de_close_result (JObject [(''cleanup_verified'', JBool b), (''disposed'', JBool d), (''transaction_outcome'', JNull)])
    = Ok \<lparr>clr_disposed = d, clr_cleanup_verified = b, clr_transaction_outcome = None\<rparr>"
  by (simp_all add: de_open_transaction_result_def de_commit_result_def de_rollback_result_def
      de_open_database_result_def de_close_result_def field_defs de_struct_def de_enum_def opened_names_def
      de_option_def)

lemma written_handles: "de_list_handles_result
    (JObject [(''handles'', JArray (map (\<lambda>s. to_value (en_handle_state s)) states))]) = Ok states"
  using state_type.list_round_trip[of states]
  by (simp add: de_list_handles_result_def field_defs de_struct_def to_value_def en_list_def list.pred_True)

lemma query_value: "de_query_result (to_value (en_query_result q)) = Ok q"
  by (simp add: to_value_def query_type.dec_enc)

lemma schema_value: "de_schema_result (to_value (en_schema_result r)) = Ok r"
  by (simp add: to_value_def schema_result_type.dec_enc)

lemma declares_errors [simp]:
  "declares render c op (Inl f)" "declares render c op (Ok (error_envelope hs e u))"
  "declares render c op (Ok (error_envelope_with_sqlstate hs e u q))"
  by (simp_all add: declares_def)

lemma publish_declares:
  assumes "result_shape op obs result"
  shows "post (publish_result render h c (Inr result)) (\<lambda>r s'. declares render c op r) (rg, s)"
  using assms
  by (cases op) (auto simp: result_shape_def declares_def query_value schema_value)

context backend_contract
begin

lemma execute_declares:
  "post (execute_operation ops render h c op ctx) (\<lambda>r s'. declares render c op r) (rg, (b, w))"
proof -
  have dispatched: "post (dispatch_operation ops render h c op ctx) (\<lambda>r s'. declares render c op r) (rg, s)"
    for rg :: "'o registry" and s
    unfolding dispatch_operation_def post_bind on_backend_post post_attempt sum.case
  proof (rule postI)
    fix r s'
    assume r: "backend_call ops c ctx op s = Some (r, s')"
    show "post (publish_result render h c r) (\<lambda>r s'. declares render c op r) (rg, s')"
    proof (cases r)
      case (Inl f)
      then show ?thesis by simp
    next
      case (Inr result)
      with r have "result_shape op (op_observe ops s') result" by (simp add: backend_call_shape)
      from publish_declares[OF this] show ?thesis unfolding Inr .
    qed
  qed
  then show ?thesis
    unfolding execute_operation_def by (auto split: option.split)
qed

lemma round_declares:
  "post (run_operation ops render h c op ctx) (\<lambda>x s'. \<exists>r closed. x = Ok (OperationReply r, closed) \<and>
     declares render c op r) (rg, (b, w))"
  unfolding run_operation_def post_bind post_attempt sum.case
  by (rule post_mono[OF execute_declares])
    (auto simp: finish_operation_def Let_def declares_def refresh_envelope_state_def case_prod_beta split: sum.split)

end

text \<open>The reply that announces an opened handle carries its name and its state.\<close>

definition announces_handle :: "reply \<Rightarrow> bool" where
  "announces_handle e \<longleftrightarrow> (\<exists>v s. env_result e = Some v \<and> env_handle_state e = Some s \<and>
     de_open_database_result v = Ok (hs_handle s))"

lemma opening_announces:
  "post (open_database core oe stop token cancelled profile) (\<lambda>x s'. case x of
     Inr (Inr e, thread) \<Rightarrow> announces_handle e | _ \<Rightarrow> True) (rg, w)"
proof (rule postI)
  fix x s'
  assume run: "open_database core oe stop token cancelled profile (rg, w) = Some (x, s')"
  obtain rg' w' where s': "s' = (rg', w')" by (cases s')
  from open_database_ends[OF run[unfolded s']]
  show "case x of Inr (Inr e, thread) \<Rightarrow> announces_handle e | _ \<Rightarrow> True"
    by (auto simp: opening_ends_def announces_handle_def handle_state_envelope_def envelope_success_def
        published_new_state handle_state_new_def split: sum.split prod.split)
qed

section \<open>The property\<close>

text \<open>
  C13. The declared types: whatever a worker answers with success decodes as the result type
  \<open>protocol.rs\<close> declares for the operation, a query's and a schema's to a value that passes its own
  validation, although canonicalisation has reordered its members; so do the lists of handles and
  the answer that announces an opened handle.
\<close>

theorem results_have_declared_types:
  "post (run_operation (libpq_ops env render) render h c op ctx) (\<lambda>x s'. \<exists>r closed.
     x = Ok (OperationReply r, closed) \<and>
     (case r of Inl _ \<Rightarrow> True | Inr e \<Rightarrow> pred_option (declared render c op) (env_result e))) (rg, (b, w)) \<and>
   post core_list_handles (\<lambda>x s'. \<exists>e v. x = Ok e \<and> env_result e = Some v \<and>
     de_list_handles_result v = Ok (list_handles rg1)) (rg1, w1) \<and>
   post (open_database core oe stop token cancelled profile) (\<lambda>x s'. case x of
       Inr (Inr e, thread) \<Rightarrow> announces_handle e | _ \<Rightarrow> True) (rg2, w2)"
proof (intro conjI)
  show "post (run_operation (libpq_ops env render) render h c op ctx) (\<lambda>x s'. \<exists>r closed.
     x = Ok (OperationReply r, closed) \<and>
     (case r of Inl _ \<Rightarrow> True | Inr e \<Rightarrow> pred_option (declared render c op) (env_result e))) (rg, (b, w))"
    by (rule libpq.round_declares[unfolded declares_def])
  show "post core_list_handles (\<lambda>x s'. \<exists>e v. x = Ok e \<and> env_result e = Some v \<and>
     de_list_handles_result v = Ok (list_handles rg1)) (rg1, w1)"
    by (simp add: core_list_handles_def written_handles)
  show "post (open_database core oe stop token cancelled profile) (\<lambda>x s'. case x of
      Inr (Inr e, thread) \<Rightarrow> announces_handle e | _ \<Rightarrow> True) (rg2, w2)"
    by (rule opening_announces)
qed

end
