(* ===== verification/Spec2Isabelle.thy ===== *)
theory Spec2Isabelle
  imports Signals Publish_Safety Worker_Progress Result_Types
begin

text \<open>
  A verification development for the PostgreSQL MCP server: a stdio process that serves an MCP
  client nine tools over bounded libpq connections, one worker thread per open database.

  \<^bold>\<open>Parts and how they interact.\<close> A tool call (\<open>postgres-mcp/src/tools.rs\<close>) is decoded, routed to
  \<open>Core\<close> (\<open>postgres-mcp-core/src/worker.rs\<close>), admitted under the registry's mutex and queued for the
  worker of its handle. The worker checks the operation's precondition against the published state,
  validates the request (\<open>protocol.rs\<close>), calls its backend, publishes what the backend observed and
  answers with an envelope that carries that state and the moves for it. The backend runs commands
  on a libpq connection (\<open>libpq.rs\<close>), which polls, bounds, cancels and drains under a control made
  of the caller's token, the shutdown token and a deadline; \<open>get_schema\<close> runs three catalog queries in
  a transaction of its own (\<open>schema.rs\<close>). A database is opened by reserving a name, resolving a DSN
  (\<open>config.rs\<close>), connecting, and publishing the handle unless the server has begun to stop. Shutdown
  is owned by one caller, asks every worker to give its connection up, and freezes a report that the
  process (\<open>postgres-mcp/src/lib.rs\<close>, \<open>main.rs\<close>) turns into its exit code. \<open>xtask\<close> and \<open>build.rs\<close> check and
  publish releases.

  \<^bold>\<open>Theories.\<close>
  \<^item> \<open>Prelude\<close>, \<open>Strings\<close>, \<open>Btree\<close>, \<open>Effect\<close>, \<open>System\<close>: Rust's \<open>Result\<close>, \<open>usize\<close>, \<open>str\<close> and \<open>BTreeMap\<close>;
    computations with a state that may not return, with \<open>post\<close> (partial correctness) and \<open>returns\<close>
    (termination); transition systems with reachability, invariants and paths.
  \<^item> \<open>Config\<close>, \<open>Resolve\<close>, \<open>Control\<close>: \<open>config.rs\<close> and \<open>RequestContext\<close>. Ranges, layers of overrides, the
    loop around a profile's DSN command, tokens and deadlines.
  \<^item> \<open>Json\<close>, \<open>Codec\<close>, \<open>Errors\<close>, \<open>Handle_State\<close>, \<open>Envelope\<close>, \<open>Payloads\<close>: \<open>protocol.rs\<close>. Canonical JSON, the
    error vocabulary, snapshots and moves, the envelope with its hand-written serde, and what
    requests and results are accepted.
  \<^item> \<open>Libpq\<close>, \<open>Adapter\<close>, \<open>Adapter_Safety\<close>, \<open>Adapter_Progress\<close>: \<open>libpq.rs\<close>. DSN and command-tag scanning,
    the bounded collector, the connection's loops over the libpq entry points (\<open>libpq_env\<close>), what
    they leave behind and that they return.
  \<^item> \<open>Schema\<close>, \<open>Backend\<close>: \<open>schema.rs\<close> and \<open>LibpqBackend\<close>. The trait \<open>Backend\<close> is the record
    \<open>backend_ops\<close>; what a worker relies on is the locale \<open>backend_contract\<close>, interpreted on
    \<open>libpq_ops\<close>.
  \<^item> \<open>Registry\<close>, \<open>Concurrency\<close>: \<open>RegistryState\<close> and every section of \<open>worker.rs\<close> that holds its mutex.
    \<open>critical_section\<close> is a step relation over them, so its paths are the interleavings of callers,
    openers, workers and the shutdown owner.
  \<^item> \<open>Worker\<close>, \<open>Worker_Loop\<close>, \<open>Opening\<close>, \<open>Shutdown\<close>: \<open>operation_precondition\<close>, \<open>execute_operation\<close>,
    \<open>worker_loop\<close>, \<open>open_database\<close>, \<open>connect_and_publish\<close> and \<open>Core::shutdown\<close>, each as the sequence of
    its reads, backend calls and registry sections, with refinements to paths of
    \<open>critical_section\<close>. \<open>Worker_Progress\<close>: the backend's operations and a worker's loop return.
  \<^item> \<open>Server\<close>, \<open>Result_Types\<close>: \<open>tools.rs\<close>, the public calls of \<open>Core\<close>, and the result types
    \<open>protocol.rs\<close> declares for them.
  \<^item> \<open>Process\<close>, \<open>Signals\<close>: \<open>lib.rs\<close> and \<open>main.rs\<close>. The end of a session, the command line and the
    configuration; then the signal handler, the monitor thread, the server task and the main task as
    the step relation \<open>process_step\<close>, whose invariant explains the exit code.
  \<^item> \<open>Release\<close>, \<open>Publish\<close>, \<open>Publish_Safety\<close>: \<open>build.rs\<close> and \<open>xtask\<close>; programs, files and parsers are
    \<open>xtask_env\<close>, and the state keeps a log of the programs that ran.

  \<^bold>\<open>What is shown.\<close> Refinement and invariants of the interleavings: the limits on handles and requests,
  the permanence of handles, the finality of stopping, that a closed handle shows nothing of its
  connection, and that the detailed code of workers and openers is made of those sections. Outcomes: a commit is reported done only when libpq shows it,
  a query leaves its connection settled and its result within the limits, an opening is all or
  nothing, a shutdown's report is complete and only verified when every worker has ended. The
  protocol: what envelopes, requests and results are accepted, that they survive serialisation, that
  every tool answers with a valid one whose result has the declared type, and which of the moves it
  recommends are accepted.
  Termination: polling, queries, DSN commands, a worker's queue and shutdown return when the clock
  advances and libpq's results are finite, and SIGINT ends the process. Some theorems state defects
  of the code, e.g. that admission to a closed handle never returns.

  \<^bold>\<open>Conventions and bounds.\<close> Strings are byte lists, so lengths and orders are Rust's. \<open>usize\<close> is a
  natural number; sums that the code checks or saturates are written with \<open>checked_add\<close> and
  \<open>saturating_add\<close> at 64 bits, wire integers are words, and times are milliseconds as naturals. No
  loop has fuel: a loop is \<open>rust_loop\<close>, whose value is \<open>None\<close> when it does not end, and termination is
  proved separately. A blocked mutex is \<open>None\<close> as well. The clock, tokens and every system call are
  readers or actions of a world that is otherwise arbitrary, so other threads may change it.

  \<^bold>\<open>Not modelled.\<close> rmcp's transport and router, tokio's scheduler and runtime, serde's derived code
  for third-party types, the TOML and JSON parsers and printers, libpq itself and the dynamic
  loading of its symbols, and the creation of threads: all of it is code outside the sources, and
  the model takes what the sources use of it as parameters. Printing of usage and errors and panics
  of a poisoned mutex are left out. \<open>schemars\<close> schemas are generated.
\<close>

end
